theory Spec2Isabelle
  imports Complex_Main
begin

section \<open>Numbers and errors\<close>

text \<open>
  The program is the function \<^verbatim>\<open>RunStan\<close> of
  \<^verbatim>\<open>regression_pystan_model2_corr_cells_unbounded_hyp.py\<close>. It works on pandas data
  frames and numpy arrays of double precision numbers. In the statistics and the sums of
  the program a number is modelled as a real, so that rounding, overflow and infinities are
  left out there; the one special value the program itself produces from ordinary inputs,
  the missing value NaN (a row that \<^verbatim>\<open>reindex\<close> cannot find, the mean of no draws, the
  standard deviation of a single draw), is \<open>None\<close>. Arithmetic on such values yields NaN as
  soon as one operand is NaN. Double precision is written out at the two places where a
  property of the program depends on it: the conversion of the integer keys to floating
  point when the rows of the groups are read (lines 101 and 110), and the two subtractions
  that make the residuals (lines 361 and 365).
\<close>

type_synonym pyfloat = "real option"

datatype py_error = KeyError | ValueError | IndexError

definition fadd :: "pyfloat \<Rightarrow> pyfloat \<Rightarrow> pyfloat" where
  "fadd a b = (case a of None \<Rightarrow> None | Some x \<Rightarrow> (case b of None \<Rightarrow> None | Some y \<Rightarrow> Some (x + y)))"

definition fmul :: "pyfloat \<Rightarrow> pyfloat \<Rightarrow> pyfloat" where
  "fmul a b = (case a of None \<Rightarrow> None | Some x \<Rightarrow> (case b of None \<Rightarrow> None | Some y \<Rightarrow> Some (x * y)))"

text \<open>\<^verbatim>\<open>np.sqrt\<close>: NaN at NaN and at a negative number.\<close>

definition fsqrt :: "pyfloat \<Rightarrow> pyfloat" where
  "fsqrt a = (case a of None \<Rightarrow> None | Some x \<Rightarrow> (if x < 0 then None else Some (sqrt x)))"

section \<open>Double precision\<close>

text \<open>
  A double is an IEEE 754 binary64 number: 53 significant bits, exponents from -1022 to
  1023, gradual underflow, and rounding to the nearest double with ties going to the even
  significand. \<open>round_even\<close> rounds a real to an integer in that way. \<open>binade n x\<close> is the
  exponent \<open>e\<close> with \<open>2\<^sup>e \<le> x < 2\<^sup>e\<^sup>+\<^sup>1\<close> of a positive \<open>x\<close>, found by halving or doubling at most
  \<open>n\<close> times; 2200 steps reach every double, and a number they do not reach is either
  rounded to infinity or lies below all subnormal numbers. \<open>ulp x\<close> is the distance between
  the doubles around \<open>x\<close>, and \<open>round_nearest x\<close> the multiple of it nearest to \<open>x\<close>.
\<close>

definition round_even :: "real \<Rightarrow> int" where
  "round_even x =
     (let f = \<lfloor>x\<rfloor> in
      if x - of_int f < 1 / 2 then f
      else if 1 / 2 < x - of_int f then f + 1
      else if even f then f else f + 1)"

fun binade :: "nat \<Rightarrow> real \<Rightarrow> int" where
  "binade 0 x = 0"
| "binade (Suc n) x =
     (if 2 \<le> x then binade n (x / 2) + 1
      else if x < 1 then binade n (2 * x) - 1
      else 0)"

definition exponent :: "real \<Rightarrow> int" where
  "exponent x = max (binade 2200 \<bar>x\<bar>) (- 1022)"

definition ulp :: "real \<Rightarrow> real" where
  "ulp x = 2 powi (exponent x - 52)"

definition round_nearest :: "real \<Rightarrow> real" where
  "round_nearest x = sgn x * (ulp x * of_int (round_even (\<bar>x\<bar> / ulp x)))"

declare power_int_numeral_neg_numeral [simp del]

text \<open>
  The value of a double: a number, an infinity, or NaN. \<open>round64\<close> is the double that an
  operation returns when its exact result is \<open>x\<close>: a result that rounds to \<open>2\<^sup>1\<^sup>0\<^sup>2\<^sup>4\<close> or beyond
  is an infinity. \<^verbatim>\<open>+\<close> and \<^verbatim>\<open>-\<close> on doubles follow; the difference of equal infinities is NaN.
\<close>

datatype float64 = Finite real | PosInf | NegInf | NaN

definition round64 :: "real \<Rightarrow> float64" where
  "round64 x =
     (let r = round_nearest x
      in if 2 ^ 1024 \<le> r then PosInf else if r \<le> - (2 ^ 1024) then NegInf else Finite r)"

fun add64 :: "float64 \<Rightarrow> float64 \<Rightarrow> float64" where
  "add64 (Finite x) (Finite y) = round64 (x + y)"
| "add64 NaN b = NaN"
| "add64 a NaN = NaN"
| "add64 PosInf NegInf = NaN"
| "add64 NegInf PosInf = NaN"
| "add64 PosInf b = PosInf"
| "add64 NegInf b = NegInf"
| "add64 (Finite x) PosInf = PosInf"
| "add64 (Finite x) NegInf = NegInf"

fun sub64 :: "float64 \<Rightarrow> float64 \<Rightarrow> float64" where
  "sub64 (Finite x) (Finite y) = round64 (x - y)"
| "sub64 NaN b = NaN"
| "sub64 a NaN = NaN"
| "sub64 PosInf PosInf = NaN"
| "sub64 NegInf NegInf = NaN"
| "sub64 PosInf b = PosInf"
| "sub64 NegInf b = NegInf"
| "sub64 (Finite x) PosInf = NegInf"
| "sub64 (Finite x) NegInf = PosInf"

text \<open>The comparison \<^verbatim>\<open>==\<close> of two doubles: NaN is equal to nothing, not even to itself.\<close>

fun eq64 :: "float64 \<Rightarrow> float64 \<Rightarrow> bool" where
  "eq64 NaN b = False"
| "eq64 a NaN = False"
| "eq64 a b = (a = b)"

text \<open>
  The double that an entry of an array of the idealised part stands for, and the double
  that numpy makes of an \<^verbatim>\<open>int64\<close> when an integer column is read together with columns of
  doubles (\<^verbatim>\<open>df[['eqid','mag','eqX','eqY']].values\<close> is an array of \<^verbatim>\<open>float64\<close>). An \<^verbatim>\<open>int64\<close>
  is below \<open>2\<^sup>6\<^sup>3\<close> in size, so this conversion never overflows.
\<close>

definition float64_of :: "pyfloat \<Rightarrow> float64" where
  "float64_of a = (case a of None \<Rightarrow> NaN | Some x \<Rightarrow> round64 x)"

definition to_float64 :: "int \<Rightarrow> real" where
  "to_float64 n = round_nearest (real_of_int n)"

section \<open>The input tables\<close>

text \<open>
  A data frame is a list of rows with the columns the program reads, and the name of its
  index. \<^verbatim>\<open>df_flatfile\<close> and \<^verbatim>\<open>df_celldist\<close> arrive either indexed by \<^verbatim>\<open>rsn\<close>
  (\<open>index_name = Some ''rsn''\<close>) or with \<^verbatim>\<open>rsn\<close> as an ordinary column; in both cases the
  field \<open>rsn\<close> holds the record's key. \<^verbatim>\<open>df_cellinfo\<close> is the same with \<^verbatim>\<open>cellid\<close>.
  The distance table has one column per cell name, kept as a list of named columns
  (pandas allows a name to occur twice).
\<close>

record flat_row =
  rsn :: int
  eqid :: int
  mag :: real
  eqX :: real
  eqY :: real
  ssn :: int
  Vs30 :: real
  staX :: real
  staY :: real
  res :: real

record flatfile =
  ff_index_name :: "string option"
  ff_rows :: "flat_row list"

record cell_row =
  cellid :: int
  cellname :: string
  mptX :: real
  mptY :: real

record cellinfo =
  ci_index_name :: "string option"
  ci_rows :: "cell_row list"

record celldist =
  cd_index_name :: "string option"
  cd_rsn :: "int list"
  cd_columns :: "(string \<times> real list) list"

text \<open>The three frames the caller passes; \<^verbatim>\<open>RunStan\<close> holds references to the caller's objects.\<close>

record tables =
  df_flatfile :: flatfile
  df_cellinfo :: cellinfo
  df_celldist :: celldist

text \<open>
  \<^verbatim>\<open>if not df.index.name == 'rsn': df.set_index('rsn', drop=True, inplace=True)\<close>
  (lines 89-95): the frame object itself is changed; the column becomes the index.
\<close>

definition set_index_flatfile :: "flatfile \<Rightarrow> flatfile" where
  "set_index_flatfile df =
     (if \<not> ff_index_name df = Some ''rsn'' then df\<lparr>ff_index_name := Some ''rsn''\<rparr> else df)"

definition set_index_celldist :: "celldist \<Rightarrow> celldist" where
  "set_index_celldist df =
     (if \<not> cd_index_name df = Some ''rsn'' then df\<lparr>cd_index_name := Some ''rsn''\<rparr> else df)"

definition set_index_cellinfo :: "cellinfo \<Rightarrow> cellinfo" where
  "set_index_cellinfo df =
     (if \<not> ci_index_name df = Some ''cellid'' then df\<lparr>ci_index_name := Some ''cellid''\<rparr> else df)"

section \<open>Index Builder: \<^verbatim>\<open>np.unique\<close>\<close>

text \<open>
  \<^verbatim>\<open>np.unique(keys, axis=0, return_index=True, return_inverse=True)\<close> on a one-column
  array (numpy's library function): the sorted distinct keys, for each of them the position
  of its first occurrence in the input, and for each input element the position of its key
  among the sorted distinct keys.
\<close>

fun first_index :: "'a list \<Rightarrow> 'a \<Rightarrow> nat" where
  "first_index [] x = 0"
| "first_index (y # ys) x = (if y = x then 0 else Suc (first_index ys x))"

definition np_unique :: "int list \<Rightarrow> int list \<times> nat list \<times> nat list" where
  "np_unique ar =
     (let u = sort (remdups ar)
      in (u, map (first_index ar) u, map (first_index u) ar))"

section \<open>Aligning the distance table: \<^verbatim>\<open>reindex\<close>\<close>

text \<open>A frame local to the program: row labels and named columns that may hold NaN.\<close>

record dist_frame =
  fr_index :: "int list"
  fr_columns :: "(string \<times> pyfloat list) list"

text \<open>
  \<^verbatim>\<open>df_celldist.reindex(df_flatfile.index)\<close> (line 122) builds a new frame with one row per
  label of the target: the row of that label, or a row of NaN when the table has no such
  label. pandas raises (\<^verbatim>\<open>cannot reindex from a duplicate axis\<close>) only when the table's own
  labels repeat, differ from the target and the target is not empty.
\<close>

definition reindex_column :: "int list \<Rightarrow> int list \<Rightarrow> real list \<Rightarrow> pyfloat list" where
  "reindex_column labels target c =
     map (\<lambda>k. if k \<in> set labels then Some (c ! first_index labels k) else None) target"

definition reindex :: "celldist \<Rightarrow> int list \<Rightarrow> py_error + dist_frame" where
  "reindex cd target =
     (if cd_rsn cd = target
      then Inr \<lparr>fr_index = target,
                fr_columns = map (\<lambda>c. (fst c, map Some (snd c))) (cd_columns cd)\<rparr>
      else if \<not> distinct (cd_rsn cd) \<and> target \<noteq> [] then Inl ValueError
      else Inr \<lparr>fr_index = target,
                fr_columns = map (\<lambda>c. (fst c, reindex_column (cd_rsn cd) target (snd c)))
                                 (cd_columns cd)\<rparr>)"

section \<open>Cell Network Filter\<close>

text \<open>\<^verbatim>\<open>df[names]\<close> and \<^verbatim>\<open>df.loc[:, names]\<close>: the columns carrying each name, in the order
  of the names; \<^verbatim>\<open>KeyError\<close> when a name is no column.\<close>

definition select_columns :: "(string \<times> 'a) list \<Rightarrow> string list \<Rightarrow> py_error + (string \<times> 'a) list" where
  "select_columns cols names =
     (if list_all (\<lambda>n. n \<in> set (map fst cols)) names
      then Inr (concat (map (\<lambda>n. filter (\<lambda>c. fst c = n) cols) names))
      else Inl KeyError)"

text \<open>
  Lookup by label in the cell table, whose index holds the integer cell identifiers:
  \<^verbatim>\<open>df_cellinfo.loc[labels, ...]\<close>, and also \<^verbatim>\<open>cell_names_all[labels]\<close>, since pandas reads an
  integer array as labels when a series has an integer index. The rows carrying each
  label, in the order of the labels; \<^verbatim>\<open>KeyError\<close> when a label is absent.
\<close>

definition loc_rows :: "cell_row list \<Rightarrow> int list \<Rightarrow> py_error + cell_row list" where
  "loc_rows rows labels =
     (if list_all (\<lambda>l. l \<in> set (map cellid rows)) labels
      then Inr (concat (map (\<lambda>l. filter (\<lambda>r. cellid r = l) rows) labels))
      else Inl KeyError)"

text \<open>Lookup by position, \<^verbatim>\<open>cell_ids_all[i_cells_valid]\<close> on an \<^verbatim>\<open>Index\<close>.\<close>

definition take_pos :: "'a list \<Rightarrow> nat list \<Rightarrow> py_error + 'a list" where
  "take_pos xs ps =
     (if list_all (\<lambda>p. p < length xs) ps then Inr (map (\<lambda>p. xs ! p) ps) else Inl IndexError)"

text \<open>\<^verbatim>\<open>.sum()\<close> of pandas skips NaN; the sum of nothing is 0.\<close>

definition nansum :: "pyfloat list \<Rightarrow> real" where
  "nansum c = sum_list (map (\<lambda>v. case v of None \<Rightarrow> 0 | Some x \<Rightarrow> x) c)"

text \<open>\<^verbatim>\<open>np.where(s > 0)[0]\<close>: the positions, ascending, of the entries above 0.\<close>

definition np_where_positive :: "real list \<Rightarrow> nat list" where
  "np_where_positive s = filter (\<lambda>j. 0 < s ! j) [0..<length s]"

record cell_filter =
  cf_i_cells_valid :: "nat list"
  cf_cell_ids_valid :: "int list"
  cf_cell_names_valid :: "string list"
  cf_celldist_valid :: "(string \<times> pyfloat list) list"
  cf_n_cell :: nat
  cf_n_cell_valid :: nat
  cf_X_cells_valid :: "real list list"

text \<open>Lines 125-138.\<close>

definition cell_network_filter :: "cell_row list \<Rightarrow> dist_frame \<Rightarrow> py_error + cell_filter" where
  "cell_network_filter info frame =
     (let cell_ids_all = map cellid info;
          cell_names_all = map cellname info
      in case select_columns (fr_columns frame) cell_names_all of
           Inl e \<Rightarrow> Inl e
         | Inr celldist_all \<Rightarrow>
      (let i_cells_valid = np_where_positive (map (\<lambda>c. nansum (snd c)) celldist_all)
       in case take_pos cell_ids_all i_cells_valid of
            Inl e \<Rightarrow> Inl e
          | Inr cell_ids_valid \<Rightarrow>
       (case loc_rows info (map int i_cells_valid) of
            Inl e \<Rightarrow> Inl e
          | Inr named \<Rightarrow>
       (let cell_names_valid = map cellname named
        in case select_columns celldist_all cell_names_valid of
             Inl e \<Rightarrow> Inl e
           | Inr celldist_valid \<Rightarrow>
        (case loc_rows info (map int i_cells_valid) of
             Inl e \<Rightarrow> Inl e
           | Inr located \<Rightarrow>
             Inr \<lparr>cf_i_cells_valid = i_cells_valid,
                  cf_cell_ids_valid = cell_ids_valid,
                  cf_cell_names_valid = cell_names_valid,
                  cf_celldist_valid = celldist_valid,
                  cf_n_cell = length celldist_all,
                  cf_n_cell_valid = length celldist_valid,
                  cf_X_cells_valid = map (\<lambda>r. [mptX r, mptY r]) located\<rparr>)))))"

section \<open>Model Data Assembler\<close>

text \<open>\<^verbatim>\<open>frame.to_numpy()\<close>: the values row by row.\<close>

definition to_numpy :: "nat \<Rightarrow> (string \<times> 'a list) list \<Rightarrow> 'a list list" where
  "to_numpy n cols = map (\<lambda>i. map (\<lambda>c. snd c ! i) cols) [0..<n]"

text \<open>The dictionary \<^verbatim>\<open>stan_data\<close> (lines 142-155); field \<open>sd_K\<close> is its key \<^verbatim>\<open>K\<close>.\<close>

record stan_data =
  sd_N :: nat
  sd_NEQ :: nat
  sd_NSTAT :: nat
  sd_NCELL :: nat
  sd_eq :: "nat list"
  sd_stat :: "nat list"
  sd_X_e :: "real list list"
  sd_X_s :: "real list list"
  sd_X_c :: "real list list"
  sd_rec_mu :: "real list"
  sd_RC :: "pyfloat list list"
  sd_c_a_erg :: real
  sd_Y :: "real list"

text \<open>The local variables of lines 98-155 that the rest of the function reads.\<close>

record assembled =
  n_data :: nat
  data_eq :: "real list list"
  eq_idx :: "nat list"
  eq_inv :: "nat list"
  n_eq :: nat
  data_sta :: "real list list"
  sta_idx :: "nat list"
  sta_inv :: "nat list"
  n_sta :: nat
  y_data :: "real list"
  cells :: cell_filter
  payload :: stan_data

text \<open>
  Lines 88-155. The first component is the caller's tables as the function leaves them;
  the second is the payload with the local variables, or the exception raised. The name
  \<^verbatim>\<open>df_celldist\<close> is rebound to the reindexed copy at line 122, so from there on the
  caller's distance table is no longer touched. \<^verbatim>\<open>eq_idx\<close> and \<^verbatim>\<open>sta_idx\<close> are positions
  of rows of the table (lemma \<open>np_unique_index_in_range\<close> below), so the row selections of
  lines 103 and 112 cannot raise. The misfit printed at line 141 is not modelled.
\<close>

definition assemble :: "tables \<Rightarrow> real \<Rightarrow> tables \<times> (py_error + assembled)" where
  "assemble tabs c_a_erg =
     (let flat = set_index_flatfile (df_flatfile tabs);
          cdist = set_index_celldist (df_celldist tabs);
          info = set_index_cellinfo (df_cellinfo tabs);
          tabs' = \<lparr>df_flatfile = flat, df_cellinfo = info, df_celldist = cdist\<rparr>;
          rows = ff_rows flat;
          data_eq_all = map (\<lambda>r. [to_float64 (eqid r), mag r, eqX r, eqY r]) rows;
          eq_u = np_unique (map eqid rows);
          eq_idx = fst (snd eq_u);
          eq_inv = snd (snd eq_u);
          data_eq = map (\<lambda>i. data_eq_all ! i) eq_idx;
          data_sta_all = map (\<lambda>r. [to_float64 (ssn r), Vs30 r, staX r, staY r]) rows;
          sta_u = np_unique (map ssn rows);
          sta_idx = fst (snd sta_u);
          sta_inv = snd (snd sta_u);
          data_sta = map (\<lambda>i. data_sta_all ! i) sta_idx;
          y_data = map res rows
      in (tabs',
          case reindex cdist (map rsn rows) of
            Inl e \<Rightarrow> Inl e
          | Inr cdist' \<Rightarrow>
          (case cell_network_filter (ci_rows info) cdist' of
             Inl e \<Rightarrow> Inl e
           | Inr cf \<Rightarrow>
             Inr \<lparr>n_data = length rows,
                  data_eq = data_eq, eq_idx = eq_idx, eq_inv = eq_inv, n_eq = length data_eq,
                  data_sta = data_sta, sta_idx = sta_idx, sta_inv = sta_inv,
                  n_sta = length data_sta,
                  y_data = y_data,
                  cells = cf,
                  payload =
                    \<lparr>sd_N = length rows,
                     sd_NEQ = length data_eq,
                     sd_NSTAT = length data_sta,
                     sd_NCELL = cf_n_cell_valid cf,
                     sd_eq = map (\<lambda>k. k + 1) eq_inv,
                     sd_stat = map (\<lambda>k. k + 1) sta_inv,
                     sd_X_e = map (\<lambda>d. [d ! 2, d ! 3]) data_eq,
                     sd_X_s = map (\<lambda>d. [d ! 2, d ! 3]) data_sta,
                     sd_X_c = cf_X_cells_valid cf,
                     sd_rec_mu = map (\<lambda>y. 0) y_data,
                     sd_RC = to_numpy (length (fr_index cdist')) (cf_celldist_valid cf),
                     sd_c_a_erg = c_a_erg,
                     sd_Y = y_data\<rparr>\<rparr>)))"

text \<open>The cell identifiers are the positions of the cells in the cell table: 0, 1, 2, ...\<close>

definition ids_are_positions :: "cell_row list \<Rightarrow> bool" where
  "ids_are_positions info = (map cellid info = map int [0..<length info])"

text \<open>The keys of the groups in group order, as the program holds them: the first column
  of \<^verbatim>\<open>data_eq\<close> and of \<^verbatim>\<open>data_sta\<close>, which are doubles.\<close>

definition eq_keys :: "assembled \<Rightarrow> real list" where
  "eq_keys a = map (\<lambda>d. d ! 0) (data_eq a)"

definition sta_keys :: "assembled \<Rightarrow> real list" where
  "sta_keys a = map (\<lambda>d. d ! 0) (data_sta a)"

text \<open>The dictionary \<^verbatim>\<open>stan_data\<close> alone, when lines 88-155 complete.\<close>

definition assembled_payload :: "tables \<Rightarrow> real \<Rightarrow> py_error + stan_data" where
  "assembled_payload tabs c_a_erg = map_sum id payload (snd (assemble tabs c_a_erg))"

section \<open>The fit object\<close>

text \<open>
  The sampler (lines 158-206) is outside the program: what it returns, or what the pickle
  file holds, is the object \<^verbatim>\<open>stan_fit\<close>, which gives an array for the name of a parameter
  (\<^verbatim>\<open>stan_fit[name]\<close>, \<^verbatim>\<open>KeyError\<close> for an unknown name). An array has one axis (\<open>Arr1\<close>) or
  two (\<open>Arr2\<close>, with its number of columns and its rows, so that an array without rows still
  has a shape). With version 2 a vector parameter has one row per draw; with version 3 it
  has one row per group and one column per draw, and a scalar parameter has the shape
  \<open>(1, draws)\<close>.
\<close>

datatype ndarray = Arr1 "real list" | Arr2 nat "real list list"

type_synonym stan_fit = "string \<Rightarrow> ndarray option"

text \<open>\<^verbatim>\<open>a.flatten()\<close> and \<^verbatim>\<open>a.T\<close>.\<close>

fun flatten :: "ndarray \<Rightarrow> real list" where
  "flatten (Arr1 xs) = xs"
| "flatten (Arr2 c rows) = concat rows"

fun np_transpose :: "ndarray \<Rightarrow> ndarray" where
  "np_transpose (Arr1 xs) = Arr1 xs"
| "np_transpose (Arr2 c rows) = Arr2 (length rows) (map (\<lambda>j. map (\<lambda>r. r ! j) rows) [0..<c])"

text \<open>
  \<^verbatim>\<open>np.stack(arrays, axis=1)\<close> of one-axis arrays: they must have one length, and become the
  columns. \<^verbatim>\<open>np.concatenate((a, b), axis=1)\<close>: both must have two axes and as many rows.
\<close>

definition np_stack_axis1 :: "real list list \<Rightarrow> py_error + ndarray" where
  "np_stack_axis1 arrs =
     (case arrs of
        [] \<Rightarrow> Inl ValueError
      | a # _ \<Rightarrow>
          if list_all (\<lambda>b. length b = length a) arrs
          then Inr (Arr2 (length arrs) (map (\<lambda>d. map (\<lambda>b. b ! d) arrs) [0..<length a]))
          else Inl ValueError)"

fun np_concatenate_axis1 :: "ndarray \<Rightarrow> ndarray \<Rightarrow> py_error + ndarray" where
  "np_concatenate_axis1 (Arr2 c1 r1) (Arr2 c2 r2) =
     (if length r1 = length r2 then Inr (Arr2 (c1 + c2) (map2 (@) r1 r2)) else Inl ValueError)"
| "np_concatenate_axis1 (Arr1 xs) b = Inl ValueError"
| "np_concatenate_axis1 (Arr2 c1 r1) (Arr1 ys) = Inl ValueError"

text \<open>A list comprehension whose body may raise: the first exception ends it.\<close>

fun traverse :: "('a \<Rightarrow> 'e + 'b) \<Rightarrow> 'a list \<Rightarrow> 'e + 'b list" where
  "traverse f [] = Inr []"
| "traverse f (x # xs) =
     (case f x of
        Inl e \<Rightarrow> Inl e
      | Inr y \<Rightarrow> (case traverse f xs of Inl e \<Rightarrow> Inl e | Inr ys \<Rightarrow> Inr (y # ys)))"

definition fit_getitem :: "stan_fit \<Rightarrow> string \<Rightarrow> py_error + ndarray" where
  "fit_getitem fit name = (case fit name of None \<Rightarrow> Inl KeyError | Some a \<Rightarrow> Inr a)"

text \<open>Sequencing: the rest runs when the step before it did not raise.\<close>

definition on_success :: "'e + 'a \<Rightarrow> ('a \<Rightarrow> 'e + 'b) \<Rightarrow> 'e + 'b" where
  "on_success r f = (case r of Inl e \<Rightarrow> Inl e | Inr x \<Rightarrow> f x)"

section \<open>Column names\<close>

text \<open>\<^verbatim>\<open>'%i' % k\<close>: the decimal digits of an integer, with a minus sign when negative.\<close>

fun digits :: "nat \<Rightarrow> string" where
  "digits n = (if n < 10 then [''0123456789'' ! n]
               else digits (n div 10) @ [''0123456789'' ! (n mod 10)])"

declare digits.simps [simp del]

definition fmt_i :: "int \<Rightarrow> string" where
  "fmt_i k = (if k < 0 then ''-'' @ digits (nat (- k)) else digits (nat k))"

text \<open>Lines 213-223.\<close>

definition col_names_hyp :: "string list" where
  "col_names_hyp = [''dc_0'', ''ell_1e'', ''ell_1as'', ''omega_1e'', ''omega_1as'', ''omega_1bs'',
                    ''mu_cap'', ''ell_ca1p'', ''omega_ca1p'', ''omega_ca2p'', ''phi_0'', ''tau_0'']"

definition col_names_range :: "string \<Rightarrow> nat \<Rightarrow> string list" where
  "col_names_range prefix n = map (\<lambda>k. prefix @ fmt_i (int k)) [0..<n]"

definition col_names_cap :: "int list \<Rightarrow> string list" where
  "col_names_cap cell_ids_valid = map (\<lambda>c_id. ''c_cap.'' @ fmt_i c_id) cell_ids_valid"

definition col_names_all :: "nat \<Rightarrow> nat \<Rightarrow> int list \<Rightarrow> string list" where
  "col_names_all neq nsta cell_ids_valid =
     col_names_hyp @ col_names_range ''dc_1e.'' neq @ col_names_range ''dc_1as.'' nsta
     @ col_names_range ''dc_1bs.'' nsta @ col_names_cap cell_ids_valid
     @ col_names_range ''dB.'' neq"

section \<open>Posterior Extractor\<close>

text \<open>
  \<^verbatim>\<open>df_stan_posterior_raw\<close>: the column names and the values row by row.
  \<^verbatim>\<open>pd.DataFrame(values, columns=names)\<close> raises when the number of columns is not the number
  of names.
\<close>

record posterior_frame =
  pf_columns :: "string list"
  pf_values :: "real list list"

definition data_frame :: "ndarray \<Rightarrow> string list \<Rightarrow> py_error + posterior_frame" where
  "data_frame arr names =
     (case arr of
        Arr1 xs \<Rightarrow> Inl ValueError
      | Arr2 c rows \<Rightarrow>
          if c = length names then Inr \<lparr>pf_columns = names, pf_values = rows\<rparr>
          else Inl ValueError)"

text \<open>
  Lines 226-242. \<open>normalized\<close> is the choice of lines 228-239: the array as it is for
  version 2, transposed otherwise.
\<close>

definition normalized :: "int \<Rightarrow> ndarray \<Rightarrow> ndarray" where
  "normalized pystan_ver arr = (if pystan_ver = 2 then arr else np_transpose arr)"

definition concatenate_param :: "int \<Rightarrow> stan_fit \<Rightarrow> ndarray \<Rightarrow> string \<Rightarrow> py_error + ndarray" where
  "concatenate_param pystan_ver fit stan_posterior name =
     (case fit_getitem fit name of
        Inl e \<Rightarrow> Inl e
      | Inr arr \<Rightarrow> np_concatenate_axis1 stan_posterior (normalized pystan_ver arr))"

definition posterior_extract ::
  "int \<Rightarrow> stan_fit \<Rightarrow> nat \<Rightarrow> nat \<Rightarrow> int list \<Rightarrow> py_error + posterior_frame" where
  "posterior_extract pystan_ver fit neq nsta cell_ids_valid =
     (case traverse (\<lambda>c_n. map_sum id flatten (fit_getitem fit c_n)) col_names_hyp of
        Inl e \<Rightarrow> Inl e
      | Inr hyp \<Rightarrow>
     (case np_stack_axis1 hyp of
        Inl e \<Rightarrow> Inl e
      | Inr p0 \<Rightarrow>
     (case concatenate_param pystan_ver fit p0 ''dc_1e'' of
        Inl e \<Rightarrow> Inl e
      | Inr p1 \<Rightarrow>
     (case concatenate_param pystan_ver fit p1 ''dc_1as'' of
        Inl e \<Rightarrow> Inl e
      | Inr p2 \<Rightarrow>
     (case concatenate_param pystan_ver fit p2 ''dc_1bs'' of
        Inl e \<Rightarrow> Inl e
      | Inr p3 \<Rightarrow>
     (case concatenate_param pystan_ver fit p3 ''c_cap'' of
        Inl e \<Rightarrow> Inl e
      | Inr p4 \<Rightarrow>
     (case concatenate_param pystan_ver fit p4 ''dB'' of
        Inl e \<Rightarrow> Inl e
      | Inr p5 \<Rightarrow> data_frame p5 (col_names_all neq nsta cell_ids_valid))))))))"

text \<open>
  What the fit holds for a name, read with draws first: the draws of a hyperparameter
  (\<^verbatim>\<open>stan_fit[name].flatten()\<close>), and the rows of a group parameter after the normalization
  of its orientation, one row per draw.
\<close>

definition hyp_draws :: "stan_fit \<Rightarrow> string \<Rightarrow> real list" where
  "hyp_draws fit name = (case fit name of None \<Rightarrow> [] | Some a \<Rightarrow> flatten a)"

definition array_rows :: "ndarray \<Rightarrow> real list list" where
  "array_rows a = (case a of Arr1 xs \<Rightarrow> [] | Arr2 c rows \<Rightarrow> rows)"

definition param_rows :: "int \<Rightarrow> stan_fit \<Rightarrow> string \<Rightarrow> real list list" where
  "param_rows pystan_ver fit name =
     (case fit name of None \<Rightarrow> [] | Some a \<Rightarrow> array_rows (normalized pystan_ver a))"

text \<open>
  \<^verbatim>\<open>df.loc[:, name]\<close>: the column of that name, \<^verbatim>\<open>KeyError\<close> when there is none. When several
  columns carry the name (two valid cells with one identifier), pandas returns a frame
  instead of a series and the arrays built from it no longer have the shapes of this
  model; the model stops there with \<^verbatim>\<open>ValueError\<close>, so that nothing is stated about such a
  run.
\<close>

definition loc_column :: "posterior_frame \<Rightarrow> string \<Rightarrow> py_error + real list" where
  "loc_column df name =
     (case filter (\<lambda>j. pf_columns df ! j = name) [0..<length (pf_columns df)] of
        [] \<Rightarrow> Inl KeyError
      | [j] \<Rightarrow> Inr (map (\<lambda>row. row ! j) (pf_values df))
      | j # k # js \<Rightarrow> Inl ValueError)"

section \<open>Statistics of a column\<close>

text \<open>
  \<^verbatim>\<open>Series.mean()\<close>, \<^verbatim>\<open>Series.median()\<close> and \<^verbatim>\<open>Series.std()\<close> (the sample standard deviation,
  with \<open>n - 1\<close> in the denominator): NaN for a column without values, and for the standard
  deviation of a single value.
\<close>

definition mean :: "real list \<Rightarrow> pyfloat" where
  "mean xs = (if xs = [] then None else Some (sum_list xs / real (length xs)))"

definition median :: "real list \<Rightarrow> pyfloat" where
  "median xs =
     (if xs = [] then None
      else if odd (length xs) then Some (sort xs ! (length xs div 2))
      else Some ((sort xs ! (length xs div 2 - 1) + sort xs ! (length xs div 2)) / 2))"

definition std :: "real list \<Rightarrow> pyfloat" where
  "std xs =
     (if length xs < 2 then None
      else Some (sqrt (sum_list (map (\<lambda>x. (x - sum_list xs / real (length xs))\<^sup>2) xs)
                       / real (length xs - 1))))"

definition column_stat :: "(real list \<Rightarrow> pyfloat) \<Rightarrow> posterior_frame \<Rightarrow> string \<Rightarrow> py_error + pyfloat" where
  "column_stat stat df name = map_sum id stat (loc_column df name)"

section \<open>Array arithmetic\<close>

text \<open>
  \<^verbatim>\<open>A @ v\<close> for a matrix with \<open>ncols\<close> columns, given by its rows, and a vector: the shapes
  must agree. The operators \<^verbatim>\<open>+\<close> and \<^verbatim>\<open>-\<close> on one-axis arrays work element by element, an
  array of length 1 being broadcast.
\<close>

definition fsum :: "pyfloat list \<Rightarrow> pyfloat" where
  "fsum xs = foldr fadd xs (Some 0)"

definition matvec :: "nat \<Rightarrow> pyfloat list list \<Rightarrow> pyfloat list \<Rightarrow> py_error + pyfloat list" where
  "matvec ncols A v =
     (if ncols = length v then Inr (map (\<lambda>r. fsum (map2 fmul r v)) A) else Inl ValueError)"

definition vec_op :: "('a \<Rightarrow> 'a \<Rightarrow> 'a) \<Rightarrow> 'a list \<Rightarrow> 'a list \<Rightarrow> py_error + 'a list" where
  "vec_op f xs ys =
     (if length xs = length ys then Inr (map2 f xs ys)
      else if length xs = 1 then Inr (map (f (hd xs)) ys)
      else if length ys = 1 then Inr (map (\<lambda>x. f x (hd ys)) xs)
      else Inl ValueError)"

section \<open>Coefficient Synthesizer\<close>

text \<open>
  Lines 271-273: \<^verbatim>\<open>[df.loc[:,'c_cap.%i'%(k)].mean() for k in cell_ids_valid]\<close> and the same
  with the median and the standard deviation.
\<close>

definition cell_stat :: "(real list \<Rightarrow> pyfloat) \<Rightarrow> posterior_frame \<Rightarrow> int list \<Rightarrow> py_error + pyfloat list" where
  "cell_stat stat df cell_ids_valid =
     traverse (\<lambda>k. column_stat stat df (''c_cap.'' @ fmt_i k)) cell_ids_valid"

text \<open>
  Lines 300-321 and 363-364, eleven times the same two lines: the statistic of the column
  of every group, \<^verbatim>\<open>[df.loc[:, f'dc_1e.{k}'].mean() for k in range(n_eq)]\<close>, then the value of
  its group for every record, \<^verbatim>\<open>coeff_1e_mu[eq_inv]\<close> (\<^verbatim>\<open>IndexError\<close> for an index that is no
  group).
\<close>

definition group_stat ::
  "(real list \<Rightarrow> pyfloat) \<Rightarrow> posterior_frame \<Rightarrow> string \<Rightarrow> nat \<Rightarrow> py_error + pyfloat list" where
  "group_stat stat df prefix n =
     traverse (\<lambda>k. column_stat stat df (prefix @ fmt_i (int k))) [0..<n]"

definition broadcast ::
  "(real list \<Rightarrow> pyfloat) \<Rightarrow> posterior_frame \<Rightarrow> string \<Rightarrow> nat \<Rightarrow> nat list \<Rightarrow> py_error + pyfloat list" where
  "broadcast stat df prefix n idx = on_success (group_stat stat df prefix n) (\<lambda>g. take_pos g idx)"

text \<open>Lines 295-297: \<^verbatim>\<open>df.loc[:,'dc_0'].mean() * np.ones(n_data)\<close>.\<close>

definition constant_coeff ::
  "(real list \<Rightarrow> pyfloat) \<Rightarrow> posterior_frame \<Rightarrow> nat \<Rightarrow> py_error + pyfloat list" where
  "constant_coeff stat df n =
     on_success (column_stat stat df ''dc_0'') (\<lambda>m. Inr (map (\<lambda>one. fmul m one) (replicate n (Some 1))))"

text \<open>Lines 271-278; \<^verbatim>\<open>celldist_valid.values\<close> has one row per record.\<close>

record cell_effects =
  ca_mu :: "pyfloat list"
  ca_med :: "pyfloat list"
  ca_sig :: "pyfloat list"
  LcA_mu :: "pyfloat list"
  LcA_med :: "pyfloat list"
  LcA_sig :: "pyfloat list"

definition attenuation :: "assembled \<Rightarrow> posterior_frame \<Rightarrow> py_error + cell_effects" where
  "attenuation a df =
     (let celldist_valid_values = to_numpy (n_data a) (cf_celldist_valid (cells a));
          ncols = cf_n_cell_valid (cells a);
          ids = cf_cell_ids_valid (cells a)
      in on_success (cell_stat mean df ids) (\<lambda>mu.
         on_success (cell_stat median df ids) (\<lambda>med.
         on_success (cell_stat std df ids) (\<lambda>sig.
         on_success (matvec ncols celldist_valid_values mu) (\<lambda>L_mu.
         on_success (matvec ncols celldist_valid_values med) (\<lambda>L_med.
         on_success (matvec ncols (map (map (\<lambda>x. fmul x x)) celldist_valid_values)
                            (map (\<lambda>s. fmul s s) sig)) (\<lambda>L_var.
           Inr \<lparr>ca_mu = mu, ca_med = med, ca_sig = sig,
                LcA_mu = L_mu, LcA_med = L_med, LcA_sig = map fsqrt L_var\<rparr>)))))))"

section \<open>Residual Decomposer and the whole function\<close>

text \<open>
  The arrays that lines 208-374 compute. The residuals of lines 361 and 365 are computed in
  double precision from the doubles that the observations, the mean prediction and the
  between-event terms stand for. The percentile tables of the hyperparameters
  (lines 248-258), the unused arrays of lines 324-325, the merged tables written to files
  and the plots are not modelled.
\<close>

record results =
  df_stan_posterior_raw :: posterior_frame
  cells_ca_mu :: "pyfloat list"
  cells_ca_med :: "pyfloat list"
  cells_ca_sig :: "pyfloat list"
  cells_LcA_mu :: "pyfloat list"
  cells_LcA_med :: "pyfloat list"
  cells_LcA_sig :: "pyfloat list"
  coeff_0_mu :: "pyfloat list"
  coeff_0_med :: "pyfloat list"
  coeff_0_sig :: "pyfloat list"
  coeff_1e_mu :: "pyfloat list"
  coeff_1e_med :: "pyfloat list"
  coeff_1e_sig :: "pyfloat list"
  coeff_1as_mu :: "pyfloat list"
  coeff_1as_med :: "pyfloat list"
  coeff_1as_sig :: "pyfloat list"
  coeff_1bs_mu :: "pyfloat list"
  coeff_1bs_med :: "pyfloat list"
  coeff_1bs_sig :: "pyfloat list"
  y_mu :: "pyfloat list"
  res_tot :: "float64 list"
  res_between :: "pyfloat list"
  res_within :: "float64 list"

definition postprocess :: "assembled \<Rightarrow> int \<Rightarrow> stan_fit \<Rightarrow> py_error + results" where
  "postprocess a pystan_ver fit =
     on_success (posterior_extract pystan_ver fit (n_eq a) (n_sta a) (cf_cell_ids_valid (cells a)))
       (\<lambda>df.
     on_success (attenuation a df) (\<lambda>att.
     on_success (constant_coeff mean df (n_data a)) (\<lambda>c0_mu.
     on_success (constant_coeff median df (n_data a)) (\<lambda>c0_med.
     on_success (constant_coeff std df (n_data a)) (\<lambda>c0_sig.
     on_success (broadcast mean df ''dc_1e.'' (n_eq a) (eq_inv a)) (\<lambda>c1e_mu.
     on_success (broadcast median df ''dc_1e.'' (n_eq a) (eq_inv a)) (\<lambda>c1e_med.
     on_success (broadcast std df ''dc_1e.'' (n_eq a) (eq_inv a)) (\<lambda>c1e_sig.
     on_success (broadcast mean df ''dc_1as.'' (n_sta a) (sta_inv a)) (\<lambda>c1as_mu.
     on_success (broadcast median df ''dc_1as.'' (n_sta a) (sta_inv a)) (\<lambda>c1as_med.
     on_success (broadcast std df ''dc_1as.'' (n_sta a) (sta_inv a)) (\<lambda>c1as_sig.
     on_success (broadcast mean df ''dc_1bs.'' (n_sta a) (sta_inv a)) (\<lambda>c1bs_mu.
     on_success (broadcast median df ''dc_1bs.'' (n_sta a) (sta_inv a)) (\<lambda>c1bs_med.
     on_success (broadcast std df ''dc_1bs.'' (n_sta a) (sta_inv a)) (\<lambda>c1bs_sig.
     on_success (vec_op fadd c0_mu c1e_mu) (\<lambda>s1.
     on_success (vec_op fadd s1 c1as_mu) (\<lambda>s2.
     on_success (vec_op fadd s2 c1bs_mu) (\<lambda>s3.
     on_success (vec_op fadd s3 (LcA_mu att)) (\<lambda>mu.
     on_success (vec_op sub64 (map round64 (y_data a)) (map float64_of mu)) (\<lambda>r_tot.
     on_success (broadcast mean df ''dB.'' (n_eq a) (eq_inv a)) (\<lambda>r_between.
     on_success (vec_op sub64 r_tot (map float64_of r_between)) (\<lambda>r_within.
       Inr \<lparr>df_stan_posterior_raw = df,
            cells_ca_mu = ca_mu att, cells_ca_med = ca_med att, cells_ca_sig = ca_sig att,
            cells_LcA_mu = LcA_mu att, cells_LcA_med = LcA_med att,
            cells_LcA_sig = LcA_sig att,
            coeff_0_mu = c0_mu, coeff_0_med = c0_med, coeff_0_sig = c0_sig,
            coeff_1e_mu = c1e_mu, coeff_1e_med = c1e_med, coeff_1e_sig = c1e_sig,
            coeff_1as_mu = c1as_mu, coeff_1as_med = c1as_med, coeff_1as_sig = c1as_sig,
            coeff_1bs_mu = c1bs_mu, coeff_1bs_med = c1bs_med, coeff_1bs_sig = c1bs_sig,
            y_mu = mu, res_tot = r_tot, res_between = r_between,
            res_within = r_within\<rparr>)))))))))))))))))))))"

text \<open>
  \<^verbatim>\<open>RunStan\<close> for a given fit object: the caller's tables as the function leaves them, and
  the arrays computed or the exception raised.
\<close>

definition RunStan :: "tables \<Rightarrow> real \<Rightarrow> int \<Rightarrow> stan_fit \<Rightarrow> tables \<times> (py_error + results)" where
  "RunStan tabs c_a_erg pystan_ver fit =
     (fst (assemble tabs c_a_erg),
      on_success (snd (assemble tabs c_a_erg)) (\<lambda>a. postprocess a pystan_ver fit))"

text \<open>
  The identity that the specification states for the residuals of a record, total =
  inter-event + intra-event, as a test in the program's arithmetic evaluates it. This
  definition follows the specification's words.
\<close>

definition residual_identity :: "float64 \<Rightarrow> float64 \<Rightarrow> float64 \<Rightarrow> bool" where
  "residual_identity r_tot r_between r_within = eq64 r_tot (add64 r_between r_within)"

text \<open>
  The order the specification gives for the list of group keys: every key once, in the
  order in which the keys first occur in the rows of the table. This definition follows the
  specification's words; the program's order is that of \<open>np_unique\<close>.
\<close>

definition first_occurrence_order :: "'a list \<Rightarrow> 'a list" where
  "first_occurrence_order xs = rev (remdups (rev xs))"

section \<open>Example inputs\<close>

text \<open>
  Three records of two earthquakes (7 and 3) and two stations (4 and 2), and three cells of
  which \<open>C\<close> is crossed by no path. The records table is not yet indexed by \<^verbatim>\<open>rsn\<close>; the
  distance table lists the records in another order.
\<close>

definition scenario_flatfile :: flatfile where
  "scenario_flatfile = \<lparr>ff_index_name = None, ff_rows =
     [\<lparr>rsn = 10, eqid = 7, mag = 6, eqX = 1, eqY = 2, ssn = 4, Vs30 = 300, staX = 5, staY = 6,
       res = 1 / 2\<rparr>,
      \<lparr>rsn = 11, eqid = 3, mag = 5, eqX = 3, eqY = 4, ssn = 4, Vs30 = 300, staX = 5, staY = 6,
       res = 1 / 4\<rparr>,
      \<lparr>rsn = 12, eqid = 7, mag = 6, eqX = 1, eqY = 2, ssn = 2, Vs30 = 500, staX = 7, staY = 8,
       res = 1\<rparr>]\<rparr>"

definition scenario_cellinfo :: cellinfo where
  "scenario_cellinfo = \<lparr>ci_index_name = Some ''cellid'', ci_rows =
     [\<lparr>cellid = 0, cellname = ''A'', mptX = 10, mptY = 11\<rparr>,
      \<lparr>cellid = 1, cellname = ''C'', mptX = 20, mptY = 21\<rparr>,
      \<lparr>cellid = 2, cellname = ''B'', mptX = 30, mptY = 31\<rparr>]\<rparr>"

definition scenario_celldist :: celldist where
  "scenario_celldist = \<lparr>cd_index_name = Some ''rsn'', cd_rsn = [12, 10, 11],
     cd_columns = [(''A'', [1, 2, 0]), (''B'', [3, 0, 4]), (''C'', [0, 0, 0])]\<rparr>"

definition scenario_tables :: tables where
  "scenario_tables = \<lparr>df_flatfile = scenario_flatfile, df_cellinfo = scenario_cellinfo,
     df_celldist = scenario_celldist\<rparr>"

text \<open>What lines 88-155 compute from them.\<close>

definition scenario_cells :: cell_filter where
  "scenario_cells =
     \<lparr>cf_i_cells_valid = [0, 2], cf_cell_ids_valid = [0, 2],
      cf_cell_names_valid = [''A'', ''B''],
      cf_celldist_valid = [(''A'', [Some 2, Some 0, Some 1]), (''B'', [Some 0, Some 4, Some 3])],
      cf_n_cell = 3, cf_n_cell_valid = 2,
      cf_X_cells_valid = [[10, 11], [30, 31]]\<rparr>"

definition scenario_payload :: stan_data where
  "scenario_payload =
     \<lparr>sd_N = 3, sd_NEQ = 2, sd_NSTAT = 2, sd_NCELL = 2,
      sd_eq = [2, 1, 2], sd_stat = [2, 2, 1],
      sd_X_e = [[3, 4], [1, 2]], sd_X_s = [[7, 8], [5, 6]],
      sd_X_c = [[10, 11], [30, 31]], sd_rec_mu = [0, 0, 0],
      sd_RC = [[Some 2, Some 0], [Some 0, Some 4], [Some 1, Some 3]],
      sd_c_a_erg = 0, sd_Y = [1 / 2, 1 / 4, 1]\<rparr>"

definition scenario_assembled :: assembled where
  "scenario_assembled =
     \<lparr>n_data = 3, data_eq = [[3, 5, 3, 4], [7, 6, 1, 2]], eq_idx = [1, 0],
      eq_inv = [1, 0, 1], n_eq = 2,
      data_sta = [[2, 500, 7, 8], [4, 300, 5, 6]], sta_idx = [2, 0],
      sta_inv = [1, 1, 0], n_sta = 2, y_data = [1 / 2, 1 / 4, 1],
      cells = scenario_cells, payload = scenario_payload\<rparr>"

text \<open>
  The first example with the cell identifiers 0, 5, 2: the cells are those of the first
  example in the same order, and only the identifier of the cell \<open>C\<close> that no path crosses
  differs from its position.
\<close>

definition gap_cellinfo :: cellinfo where
  "gap_cellinfo = \<lparr>ci_index_name = Some ''cellid'', ci_rows =
     [\<lparr>cellid = 0, cellname = ''A'', mptX = 10, mptY = 11\<rparr>,
      \<lparr>cellid = 5, cellname = ''C'', mptX = 20, mptY = 21\<rparr>,
      \<lparr>cellid = 2, cellname = ''B'', mptX = 30, mptY = 31\<rparr>]\<rparr>"

definition gap_tables :: tables where
  "gap_tables = \<lparr>df_flatfile = scenario_flatfile, df_cellinfo = gap_cellinfo,
     df_celldist = scenario_celldist\<rparr>"

text \<open>
  The first example with earthquake identifiers beyond \<open>2\<^sup>5\<^sup>3\<close>, namely \<open>2\<^sup>5\<^sup>3 + 1\<close>, \<open>2\<^sup>5\<^sup>3\<close> and
  \<open>2\<^sup>5\<^sup>3 + 1\<close>, and what lines 88-155 compute from it.
\<close>

definition large_key_flatfile :: flatfile where
  "large_key_flatfile = \<lparr>ff_index_name = None, ff_rows =
     [\<lparr>rsn = 10, eqid = 9007199254740993, mag = 6, eqX = 1, eqY = 2, ssn = 4, Vs30 = 300,
       staX = 5, staY = 6, res = 1 / 2\<rparr>,
      \<lparr>rsn = 11, eqid = 9007199254740992, mag = 5, eqX = 3, eqY = 4, ssn = 4, Vs30 = 300,
       staX = 5, staY = 6, res = 1 / 4\<rparr>,
      \<lparr>rsn = 12, eqid = 9007199254740993, mag = 6, eqX = 1, eqY = 2, ssn = 2, Vs30 = 500,
       staX = 7, staY = 8, res = 1\<rparr>]\<rparr>"

definition large_key_tables :: tables where
  "large_key_tables = \<lparr>df_flatfile = large_key_flatfile, df_cellinfo = scenario_cellinfo,
     df_celldist = scenario_celldist\<rparr>"

definition large_key_assembled :: assembled where
  "large_key_assembled =
     scenario_assembled\<lparr>data_eq := [[9007199254740992, 5, 3, 4], [9007199254740992, 6, 1, 2]]\<rparr>"

text \<open>
  A fit of three draws for the first example, as version 2 returns it and as version 3
  returns it, and the pooled posterior frame of both.
\<close>

definition scenario_fit :: stan_fit where
  "scenario_fit = map_of
     [(''dc_0'', Arr1 [1, 2, 3]), (''ell_1e'', Arr1 [0, 0, 0]), (''ell_1as'', Arr1 [0, 0, 0]),
      (''omega_1e'', Arr1 [0, 0, 0]), (''omega_1as'', Arr1 [0, 0, 0]),
      (''omega_1bs'', Arr1 [0, 0, 0]), (''mu_cap'', Arr1 [0, 0, 0]),
      (''ell_ca1p'', Arr1 [0, 0, 0]), (''omega_ca1p'', Arr1 [0, 0, 0]),
      (''omega_ca2p'', Arr1 [0, 0, 0]), (''phi_0'', Arr1 [0, 0, 0]), (''tau_0'', Arr1 [0, 0, 0]),
      (''dc_1e'', Arr2 2 [[1, 0], [2, 0], [3, 0]]),
      (''dc_1as'', Arr2 2 [[0, 1], [0, 1], [0, 1]]),
      (''dc_1bs'', Arr2 2 [[0, 0], [0, 0], [0, 0]]),
      (''c_cap'', Arr2 2 [[- 1, 0], [- 2, 1], [- 3, 2]]),
      (''dB'', Arr2 2 [[1, 2], [1, 3], [1, 4]])]"

definition scenario_fit3 :: stan_fit where
  "scenario_fit3 = map_of
     [(''dc_0'', Arr2 3 [[1, 2, 3]]), (''ell_1e'', Arr2 3 [[0, 0, 0]]),
      (''ell_1as'', Arr2 3 [[0, 0, 0]]), (''omega_1e'', Arr2 3 [[0, 0, 0]]),
      (''omega_1as'', Arr2 3 [[0, 0, 0]]), (''omega_1bs'', Arr2 3 [[0, 0, 0]]),
      (''mu_cap'', Arr2 3 [[0, 0, 0]]), (''ell_ca1p'', Arr2 3 [[0, 0, 0]]),
      (''omega_ca1p'', Arr2 3 [[0, 0, 0]]), (''omega_ca2p'', Arr2 3 [[0, 0, 0]]),
      (''phi_0'', Arr2 3 [[0, 0, 0]]), (''tau_0'', Arr2 3 [[0, 0, 0]]),
      (''dc_1e'', Arr2 3 [[1, 2, 3], [0, 0, 0]]),
      (''dc_1as'', Arr2 3 [[0, 0, 0], [1, 1, 1]]),
      (''dc_1bs'', Arr2 3 [[0, 0, 0], [0, 0, 0]]),
      (''c_cap'', Arr2 3 [[- 1, - 2, - 3], [0, 1, 2]]),
      (''dB'', Arr2 3 [[1, 1, 1], [2, 3, 4]])]"

definition scenario_posterior :: posterior_frame where
  "scenario_posterior =
     \<lparr>pf_columns = [''dc_0'', ''ell_1e'', ''ell_1as'', ''omega_1e'', ''omega_1as'', ''omega_1bs'',
                    ''mu_cap'', ''ell_ca1p'', ''omega_ca1p'', ''omega_ca2p'', ''phi_0'', ''tau_0'',
                    ''dc_1e.0'', ''dc_1e.1'', ''dc_1as.0'', ''dc_1as.1'', ''dc_1bs.0'', ''dc_1bs.1'',
                    ''c_cap.0'', ''c_cap.2'', ''dB.0'', ''dB.1''],
      pf_values =
        [[1, 0, 0, 0, 0, 0, 0, 0, 0, 0, 0, 0, 1, 0, 0, 1, 0, 0, - 1, 0, 1, 2],
         [2, 0, 0, 0, 0, 0, 0, 0, 0, 0, 0, 0, 2, 0, 0, 1, 0, 0, - 2, 1, 1, 3],
         [3, 0, 0, 0, 0, 0, 0, 0, 0, 0, 0, 0, 3, 0, 0, 1, 0, 0, - 3, 2, 1, 4]]\<rparr>"

text \<open>
  The same records and cells with a distance table that has no row for record 11, and what
  lines 88-155 compute from them.
\<close>

definition missing_celldist :: celldist where
  "missing_celldist = \<lparr>cd_index_name = Some ''rsn'', cd_rsn = [12, 10],
     cd_columns = [(''A'', [1, 2]), (''B'', [3, 0]), (''C'', [0, 0])]\<rparr>"

definition missing_tables :: tables where
  "missing_tables = \<lparr>df_flatfile = scenario_flatfile, df_cellinfo = scenario_cellinfo,
     df_celldist = missing_celldist\<rparr>"

definition missing_cells :: cell_filter where
  "missing_cells =
     \<lparr>cf_i_cells_valid = [0, 2], cf_cell_ids_valid = [0, 2],
      cf_cell_names_valid = [''A'', ''B''],
      cf_celldist_valid = [(''A'', [Some 2, None, Some 1]), (''B'', [Some 0, None, Some 3])],
      cf_n_cell = 3, cf_n_cell_valid = 2,
      cf_X_cells_valid = [[10, 11], [30, 31]]\<rparr>"

definition missing_assembled :: assembled where
  "missing_assembled =
     scenario_assembled\<lparr>cells := missing_cells,
       payload := scenario_payload\<lparr>sd_RC := [[Some 2, Some 0], [None, None], [Some 1, Some 3]]\<rparr>\<rparr>"

text \<open>
  The first example with another numbering of the cells: cell \<open>A\<close> has identifier 1 and the
  cell \<open>C\<close> that no path crosses has identifier 0. What lines 88-155 compute from it.
\<close>

definition swapped_cellinfo :: cellinfo where
  "swapped_cellinfo = \<lparr>ci_index_name = Some ''cellid'', ci_rows =
     [\<lparr>cellid = 1, cellname = ''A'', mptX = 10, mptY = 11\<rparr>,
      \<lparr>cellid = 0, cellname = ''C'', mptX = 20, mptY = 21\<rparr>,
      \<lparr>cellid = 2, cellname = ''B'', mptX = 30, mptY = 31\<rparr>]\<rparr>"

definition swapped_tables :: tables where
  "swapped_tables = \<lparr>df_flatfile = scenario_flatfile, df_cellinfo = swapped_cellinfo,
     df_celldist = scenario_celldist\<rparr>"

definition swapped_cells :: cell_filter where
  "swapped_cells =
     \<lparr>cf_i_cells_valid = [0, 2], cf_cell_ids_valid = [1, 2],
      cf_cell_names_valid = [''C'', ''B''],
      cf_celldist_valid = [(''C'', [Some 0, Some 0, Some 0]), (''B'', [Some 0, Some 4, Some 3])],
      cf_n_cell = 3, cf_n_cell_valid = 2,
      cf_X_cells_valid = [[20, 21], [30, 31]]\<rparr>"

definition swapped_assembled :: assembled where
  "swapped_assembled =
     scenario_assembled\<lparr>cells := swapped_cells,
       payload := scenario_payload\<lparr>sd_X_c := [[20, 21], [30, 31]],
                    sd_RC := [[Some 0, Some 0], [Some 0, Some 4], [Some 0, Some 3]]\<rparr>\<rparr>"



text \<open>
  The first example with the observation \<open>-(2\<^sup>4\<^sup>0 - 1 + 2\<^sup>-\<^sup>1\<^sup>3)\<close>, a double, for the first
  record, and what lines 88-155 compute from it.
\<close>

definition rounding_flatfile :: flatfile where
  "rounding_flatfile = \<lparr>ff_index_name = None, ff_rows =
     [\<lparr>rsn = 10, eqid = 7, mag = 6, eqX = 1, eqY = 2, ssn = 4, Vs30 = 300, staX = 5, staY = 6,
       res = - (2 ^ 40 - 1 + 1 / 2 ^ 13)\<rparr>,
      \<lparr>rsn = 11, eqid = 3, mag = 5, eqX = 3, eqY = 4, ssn = 4, Vs30 = 300, staX = 5, staY = 6,
       res = 1 / 4\<rparr>,
      \<lparr>rsn = 12, eqid = 7, mag = 6, eqX = 1, eqY = 2, ssn = 2, Vs30 = 500, staX = 7, staY = 8,
       res = 1\<rparr>]\<rparr>"

definition rounding_tables :: tables where
  "rounding_tables = \<lparr>df_flatfile = rounding_flatfile, df_cellinfo = scenario_cellinfo,
     df_celldist = scenario_celldist\<rparr>"

definition rounding_assembled :: assembled where
  "rounding_assembled =
     scenario_assembled\<lparr>y_data := [- (2 ^ 40 - 1 + 1 / 2 ^ 13), 1 / 4, 1],
       payload := scenario_payload\<lparr>sd_Y := [- (2 ^ 40 - 1 + 1 / 2 ^ 13), 1 / 4, 1]\<rparr>\<rparr>"

section \<open>The terms of a run, collected\<close>

text \<open>
  The group-level summaries that lines 295-321 and 362 read from the posterior table: the
  three statistics of \<^verbatim>\<open>dc_0\<close>, those of the \<^verbatim>\<open>dc_1e\<close>, \<^verbatim>\<open>dc_1as\<close> and \<^verbatim>\<open>dc_1bs\<close> columns, and the
  means of the \<^verbatim>\<open>dB\<close> columns; and the per-record arrays that the same lines build from them.
\<close>

definition term_summaries :: "assembled \<Rightarrow> posterior_frame \<Rightarrow> (py_error + pyfloat list) list" where
  "term_summaries a df =
     [map_sum id (\<lambda>m. [m]) (column_stat mean df ''dc_0''),
      map_sum id (\<lambda>m. [m]) (column_stat median df ''dc_0''),
      map_sum id (\<lambda>m. [m]) (column_stat std df ''dc_0''),
      group_stat mean df ''dc_1e.'' (n_eq a), group_stat median df ''dc_1e.'' (n_eq a),
      group_stat std df ''dc_1e.'' (n_eq a),
      group_stat mean df ''dc_1as.'' (n_sta a), group_stat median df ''dc_1as.'' (n_sta a),
      group_stat std df ''dc_1as.'' (n_sta a),
      group_stat mean df ''dc_1bs.'' (n_sta a), group_stat median df ''dc_1bs.'' (n_sta a),
      group_stat std df ''dc_1bs.'' (n_sta a),
      group_stat mean df ''dB.'' (n_eq a)]"

definition record_coefficients :: "results \<Rightarrow> pyfloat list list" where
  "record_coefficients out =
     [coeff_0_mu out, coeff_0_med out, coeff_0_sig out,
      coeff_1e_mu out, coeff_1e_med out, coeff_1e_sig out,
      coeff_1as_mu out, coeff_1as_med out, coeff_1as_sig out,
      coeff_1bs_mu out, coeff_1bs_med out, coeff_1bs_sig out,
      res_between out]"

text \<open>What lines 213-365 return for the first example, with either version of the sampler.\<close>

definition scenario_results :: results where
  "scenario_results =
     \<lparr>df_stan_posterior_raw = scenario_posterior,
      cells_ca_mu = [Some (- 2), Some 1], cells_ca_med = [Some (- 2), Some 1],
      cells_ca_sig = [Some 1, Some 1],
      cells_LcA_mu = [Some (- 4), Some 4, Some 1], cells_LcA_med = [Some (- 4), Some 4, Some 1],
      cells_LcA_sig = [Some 2, Some 4, Some (sqrt 10)],
      coeff_0_mu = [Some 2, Some 2, Some 2], coeff_0_med = [Some 2, Some 2, Some 2],
      coeff_0_sig = [Some 1, Some 1, Some 1],
      coeff_1e_mu = [Some 0, Some 2, Some 0], coeff_1e_med = [Some 0, Some 2, Some 0],
      coeff_1e_sig = [Some 0, Some 1, Some 0],
      coeff_1as_mu = [Some 1, Some 1, Some 0], coeff_1as_med = [Some 1, Some 1, Some 0],
      coeff_1as_sig = [Some 0, Some 0, Some 0],
      coeff_1bs_mu = [Some 0, Some 0, Some 0], coeff_1bs_med = [Some 0, Some 0, Some 0],
      coeff_1bs_sig = [Some 0, Some 0, Some 0],
      y_mu = [Some (- 1), Some 9, Some 3],
      res_tot = [Finite (3 / 2), Finite (- (35 / 4)), Finite (- 2)],
      res_between = [Some 3, Some 1, Some 3],
      res_within = [Finite (- (3 / 2)), Finite (- (39 / 4)), Finite (- 5)]\<rparr>"

text \<open>
  What lines 213-365 return for the example with the large observation, and for the
  example whose distance table has no row for record 11.
\<close>

definition rounding_results :: results where
  "rounding_results =
     scenario_results\<lparr>res_tot := [Finite (- (2 ^ 40 - 2 + 1 / 2 ^ 13)), Finite (- (35 / 4)),
                                   Finite (- 2)],
       res_within := [Finite (- (2 ^ 40 + 1)), Finite (- (39 / 4)), Finite (- 5)]\<rparr>"

definition missing_results :: results where
  "missing_results =
     scenario_results\<lparr>cells_LcA_mu := [Some (- 4), None, Some 1],
       cells_LcA_med := [Some (- 4), None, Some 1],
       cells_LcA_sig := [Some 2, None, Some (sqrt 10)],
       y_mu := [Some (- 1), None, Some 3],
       res_tot := [Finite (3 / 2), NaN, Finite (- 2)],
       res_within := [Finite (- (3 / 2)), NaN, Finite (- 5)]\<rparr>"

section \<open>Properties of the double precision operations\<close>

lemma round_even_int [simp]: "round_even (of_int k) = k"
  by (simp add: round_even_def)

lemma round_even_err: "\<bar>of_int (round_even x) - x\<bar> \<le> 1 / 2"
proof -
  have "of_int \<lfloor>x\<rfloor> \<le> x" "x < of_int \<lfloor>x\<rfloor> + 1" by linarith+
  then show ?thesis by (auto simp: round_even_def Let_def)
qed

lemma round_even_bounds: "\<lfloor>x\<rfloor> \<le> round_even x" "round_even x \<le> \<lfloor>x\<rfloor> + 1"
  by (auto simp: round_even_def Let_def)

lemma round_even_mono:
  assumes "x \<le> y"
  shows "round_even x \<le> round_even y"
proof (cases "\<lfloor>x\<rfloor> = \<lfloor>y\<rfloor>")
  case True
  then show ?thesis using assms by (auto simp: round_even_def Let_def)
next
  case False
  then have "\<lfloor>x\<rfloor> < \<lfloor>y\<rfloor>" using assms floor_mono[OF assms] by linarith
  then show ?thesis using round_even_bounds(2)[of x] round_even_bounds(1)[of y] by linarith
qed

lemma round_even_ge: "of_int k \<le> x \<Longrightarrow> k \<le> round_even x"
  using round_even_mono[of "of_int k" x] by simp

lemma round_even_le: "x \<le> of_int k \<Longrightarrow> round_even x \<le> k"
  using round_even_mono[of x "of_int k"] by simp

lemma binade_le0: "x < 2 \<Longrightarrow> binade n x \<le> 0"
proof (induction n arbitrary: x)
  case 0
  then show ?case by simp
next
  case (Suc n)
  show ?case
  proof (cases "x < 1")
    case True
    then have "binade n (2 * x) \<le> 0" using Suc.IH[of "2 * x"] by simp
    then show ?thesis using True by simp
  next
    case False
    then show ?thesis using Suc.prems by simp
  qed
qed

lemma binade_ge0: "1 \<le> x \<Longrightarrow> 0 \<le> binade n x"
proof (induction n arbitrary: x)
  case 0
  then show ?case by simp
next
  case (Suc n)
  show ?case
  proof (cases "2 \<le> x")
    case True
    then have "0 \<le> binade n (x / 2)" using Suc.IH[of "x / 2"] by simp
    then show ?thesis using True by simp
  next
    case False
    then show ?thesis using Suc.prems by simp
  qed
qed

lemma binade_lower: "0 < x \<Longrightarrow> 2 powi (binade n x) \<le> x \<or> binade n x = - int n"
proof (induction n arbitrary: x)
  case 0
  then show ?case by simp
next
  case (Suc n)
  consider "2 \<le> x" | "x < 1" | "1 \<le> x" "x < 2" by linarith
  then show ?case
  proof cases
    case 1
    have b: "0 \<le> binade n (x / 2)" using 1 by (intro binade_ge0) simp
    have "2 powi (binade n (x / 2)) \<le> x / 2 \<or> binade n (x / 2) = - int n"
      using Suc.IH[of "x / 2"] Suc.prems by simp
    then have "2 powi (binade n (x / 2)) \<le> x / 2"
    proof
      assume "binade n (x / 2) = - int n"
      then have "binade n (x / 2) = 0" using b by linarith
      then show ?thesis using 1 by simp
    qed simp
    then have "2 powi (binade n (x / 2) + 1) \<le> x" by (simp add: power_int_add)
    then show ?thesis using 1 by simp
  next
    case 2
    have "2 powi (binade n (2 * x)) \<le> 2 * x \<or> binade n (2 * x) = - int n"
      using Suc.IH[of "2 * x"] Suc.prems by simp
    then show ?thesis
    proof
      assume "2 powi (binade n (2 * x)) \<le> 2 * x"
      then have "2 powi (binade n (2 * x) - 1) \<le> x" by (simp add: power_int_diff)
      then show ?thesis using 2 by simp
    next
      assume "binade n (2 * x) = - int n"
      then show ?thesis using 2 by simp
    qed
  next
    case 3
    then show ?thesis by simp
  qed
qed

lemma binade_upper: "0 < x \<Longrightarrow> x < 2 powi (binade n x + 1) \<or> binade n x = int n"
proof (induction n arbitrary: x)
  case 0
  then show ?case by simp
next
  case (Suc n)
  consider "2 \<le> x" | "x < 1" | "1 \<le> x" "x < 2" by linarith
  then show ?case
  proof cases
    case 1
    have "x / 2 < 2 powi (binade n (x / 2) + 1) \<or> binade n (x / 2) = int n"
      using Suc.IH[of "x / 2"] Suc.prems by simp
    then show ?thesis
    proof
      assume "x / 2 < 2 powi (binade n (x / 2) + 1)"
      then have "x < 2 powi (binade n (x / 2) + 1 + 1)" by (simp add: power_int_add)
      then show ?thesis using 1 by simp
    next
      assume "binade n (x / 2) = int n"
      then show ?thesis using 1 by simp
    qed
  next
    case 2
    have b: "binade n (2 * x) \<le> 0" using 2 by (intro binade_le0) simp
    have "2 * x < 2 powi (binade n (2 * x) + 1) \<or> binade n (2 * x) = int n"
      using Suc.IH[of "2 * x"] Suc.prems by simp
    then have "2 * x < 2 powi (binade n (2 * x) + 1)"
    proof
      assume "binade n (2 * x) = int n"
      then have "binade n (2 * x) = 0" using b by linarith
      then show ?thesis using 2 by simp
    qed simp
    then have "x < 2 powi (binade n (2 * x) - 1 + 1)" by (simp add: power_int_add)
    then show ?thesis using 2 by simp
  next
    case 3
    then show ?thesis by simp
  qed
qed

lemma binade_mono: "0 < x \<Longrightarrow> x \<le> y \<Longrightarrow> binade n x \<le> binade n y"
proof (induction n arbitrary: x y)
  case 0
  then show ?case by simp
next
  case (Suc n)
  consider "2 \<le> x" | "x < 1" "y < 1" | "x < 1" "1 \<le> y" "y < 2" | "x < 1" "2 \<le> y"
    | "1 \<le> x" "x < 2" "y < 2" | "1 \<le> x" "x < 2" "2 \<le> y"
    using Suc.prems by linarith
  then show ?case
  proof cases
    case 1
    then have "binade n (x / 2) \<le> binade n (y / 2)" using Suc.prems by (intro Suc.IH) simp_all
    then show ?thesis using 1 Suc.prems by simp
  next
    case 2
    then have "binade n (2 * x) \<le> binade n (2 * y)" using Suc.prems by (intro Suc.IH) simp_all
    then show ?thesis using 2 by simp
  next
    case 3
    have "binade n (2 * x) \<le> 0" using 3 by (intro binade_le0) simp
    then show ?thesis using 3 by simp
  next
    case 4
    have "binade n (2 * x) \<le> 0" using 4 by (intro binade_le0) simp
    moreover have "0 \<le> binade n (y / 2)" using 4 by (intro binade_ge0) simp
    ultimately show ?thesis using 4 by simp
  next
    case 5
    then show ?thesis using Suc.prems by simp
  next
    case 6
    have "0 \<le> binade n (y / 2)" using 6 by (intro binade_ge0) simp
    then show ?thesis using 6 by simp
  qed
qed

lemma binade_range: "- int n \<le> binade n x" "binade n x \<le> int n"
proof -
  have "- int n \<le> binade n x \<and> binade n x \<le> int n"
  proof (induction n arbitrary: x)
    case 0
    then show ?case by simp
  next
    case (Suc n)
    show ?case using Suc.IH[of "x / 2"] Suc.IH[of "2 * x"] by auto
  qed
  then show "- int n \<le> binade n x" "binade n x \<le> int n" by simp_all
qed


lemma binade_zero: "binade n 0 = - int n"
  by (induction n) simp_all

lemma powi2_pos: "(0::real) < 2 powi a"
  by (rule zero_less_power_int) simp

lemma powi2_le_iff: "(2::real) powi a \<le> 2 powi b \<longleftrightarrow> a \<le> b"
proof
  assume h: "(2::real) powi a \<le> 2 powi b"
  show "a \<le> b"
  proof (rule ccontr)
    assume "\<not> a \<le> b"
    then have "(2::real) powi b < 2 powi a" by (intro power_int_strict_increasing) simp_all
    then show False using h by simp
  qed
next
  assume "a \<le> b"
  then show "(2::real) powi a \<le> 2 powi b" by (intro power_int_increasing) simp_all
qed

lemma powi2_add: "(2::real) powi a * 2 powi b = 2 powi (a + b)"
  by (rule power_int_add[symmetric]) simp

lemma powi2_less_iff: "(2::real) powi a < 2 powi b \<longleftrightarrow> a < b"
  using powi2_le_iff[of b a] by (simp add: not_le[symmetric])

lemma binade_small:
  assumes "\<bar>x\<bar> < 2 powi m" and "- int n \<le> m"
  shows "binade n \<bar>x\<bar> \<le> m"
proof (cases "x = 0")
  case True
  then show ?thesis using assms(2) by (simp add: binade_zero)
next
  case False
  then have pos: "0 < \<bar>x\<bar>" by simp
  from binade_lower[OF pos, of n] show ?thesis
  proof
    assume "2 powi binade n \<bar>x\<bar> \<le> \<bar>x\<bar>"
    then have "(2::real) powi binade n \<bar>x\<bar> < 2 powi m" using assms(1) by linarith
    then show ?thesis by (simp only: powi2_less_iff)
  next
    assume "binade n \<bar>x\<bar> = - int n"
    then show ?thesis using assms(2) by simp
  qed
qed

lemma binade_large:
  assumes "2 powi m \<le> \<bar>x\<bar>" and "m \<le> int n"
  shows "m \<le> binade n \<bar>x\<bar>"
proof -
  have pos: "0 < \<bar>x\<bar>" using assms(1) powi2_pos[of m] by linarith
  from binade_upper[OF pos, of n] show ?thesis
  proof
    assume "\<bar>x\<bar> < 2 powi (binade n \<bar>x\<bar> + 1)"
    then have "(2::real) powi m < 2 powi (binade n \<bar>x\<bar> + 1)" using assms(1) by linarith
    then have "m < binade n \<bar>x\<bar> + 1" by (simp only: powi2_less_iff)
    then show ?thesis by simp
  next
    assume "binade n \<bar>x\<bar> = int n"
    then show ?thesis using assms(2) by simp
  qed
qed

lemma exponent_eqI:
  assumes "2 powi e \<le> \<bar>x\<bar>" and "\<bar>x\<bar> < 2 powi (e + 1)" and "- 1022 \<le> e" and "e \<le> 2200"
  shows "exponent x = e"
proof -
  have "e \<le> binade 2200 \<bar>x\<bar>" using assms(1,4) by (intro binade_large) simp_all
  moreover have "binade 2200 \<bar>x\<bar> \<le> e + 1" using assms(2,3) by (intro binade_small) simp_all
  moreover have "binade 2200 \<bar>x\<bar> \<noteq> e + 1"
  proof
    assume h: "binade 2200 \<bar>x\<bar> = e + 1"
    have pos: "0 < \<bar>x\<bar>" using assms(1) powi2_pos[of e] by linarith
    from binade_lower[OF pos, of 2200] show False
    proof
      assume "2 powi binade 2200 \<bar>x\<bar> \<le> \<bar>x\<bar>"
      then show False using assms(2) h by simp
    next
      assume "binade 2200 \<bar>x\<bar> = - int 2200"
      then show False using h assms(3) by simp
    qed
  qed
  ultimately show ?thesis using assms(3) by (simp add: exponent_def)
qed

lemma exponent_ge: "- 1022 \<le> exponent x"
  by (simp add: exponent_def)

lemma exponent_le: "exponent x \<le> 2200"
  using binade_range(2)[of 2200 "\<bar>x\<bar>"] by (simp add: exponent_def)

lemma exponent_neg [simp]: "exponent (- x) = exponent x"
  by (simp add: exponent_def)

lemma exponent_abs [simp]: "exponent \<bar>x\<bar> = exponent x"
  by (simp add: exponent_def)

lemma exponent_mono:
  assumes "\<bar>x\<bar> \<le> \<bar>y\<bar>"
  shows "exponent x \<le> exponent y"
proof (cases "x = 0")
  case True
  then have "binade 2200 \<bar>x\<bar> \<le> binade 2200 \<bar>y\<bar>"
    using binade_range(1)[of 2200 "\<bar>y\<bar>"] by (simp add: binade_zero)
  then show ?thesis by (simp add: exponent_def)
next
  case False
  then have "binade 2200 \<bar>x\<bar> \<le> binade 2200 \<bar>y\<bar>" using assms by (intro binade_mono) simp_all
  then show ?thesis by (simp add: exponent_def)
qed

lemma exponent_subnormal:
  assumes "\<bar>x\<bar> < 2 powi (- 1022)"
  shows "exponent x = - 1022"
proof -
  have "binade 2200 \<bar>x\<bar> \<le> - 1022" using assms by (intro binade_small) simp_all
  then show ?thesis by (simp add: exponent_def)
qed

lemma exponent_lower:
  assumes "2 powi (- 1022) \<le> \<bar>x\<bar>"
  shows "2 powi (exponent x) \<le> \<bar>x\<bar>"
proof -
  let ?E = "binade 2200 \<bar>x\<bar>"
  have pos: "0 < \<bar>x\<bar>" using assms powi2_pos[of "- 1022"] by linarith
  have E: "- 1022 \<le> ?E" using assms by (intro binade_large) simp_all
  then have e: "exponent x = ?E" by (simp add: exponent_def)
  from binade_lower[OF pos, of 2200] show ?thesis
  proof
    assume "?E = - int 2200"
    then show ?thesis using E by simp
  qed (simp add: e)
qed

lemma exponent_upper:
  assumes "exponent x < 2200"
  shows "\<bar>x\<bar> < 2 powi (exponent x + 1)"
proof (cases "x = 0")
  case True
  then show ?thesis by (simp add: powi2_pos)
next
  case False
  let ?E = "binade 2200 \<bar>x\<bar>"
  have pos: "0 < \<bar>x\<bar>" using False by simp
  have le: "?E \<le> exponent x" by (simp add: exponent_def)
  from binade_upper[OF pos, of 2200] show ?thesis
  proof
    assume "\<bar>x\<bar> < 2 powi (?E + 1)"
    moreover have "(2::real) powi (?E + 1) \<le> 2 powi (exponent x + 1)"
      using le by (simp add: powi2_le_iff)
    ultimately show ?thesis by linarith
  next
    assume "?E = int 2200"
    then show ?thesis using assms le by simp
  qed
qed

lemma ulp_pos: "0 < ulp x"
  by (simp add: ulp_def powi2_pos)

lemma ulp_neg [simp]: "ulp (- x) = ulp x"
  by (simp add: ulp_def)

lemma ulp_abs [simp]: "ulp \<bar>x\<bar> = ulp x"
  by (simp add: ulp_def)

lemma powi2_half: "(2::real) powi a / 2 = 2 powi (a - 1)"
proof -
  have "(2::real) powi (a - 1) * 2 powi 1 = 2 powi (a - 1 + 1)" by (rule powi2_add)
  then show ?thesis by simp
qed

lemma ulp_scale: "ulp x * 2 ^ 52 = 2 powi (exponent x)" "ulp x * 2 ^ 53 = 2 powi (exponent x + 1)"
proof -
  have "(2::real) powi (exponent x - 52) * 2 powi 52 = 2 powi (exponent x - 52 + 52)"
    by (rule powi2_add)
  then show "ulp x * 2 ^ 52 = 2 powi (exponent x)" by (simp add: ulp_def)
  have "(2::real) powi (exponent x - 52) * 2 powi 53 = 2 powi (exponent x - 52 + 53)"
    by (rule powi2_add)
  moreover have "exponent x - 52 + 53 = exponent x + 1" by simp
  ultimately show "ulp x * 2 ^ 53 = 2 powi (exponent x + 1)" by (simp add: ulp_def)
qed

lemma round_even_zero [simp]: "round_even 0 = 0"
  using round_even_int[of 0] by simp

lemma round_nearest_zero [simp]: "round_nearest 0 = 0"
  by (simp add: round_nearest_def)

lemma round_nearest_neg: "round_nearest (- x) = - round_nearest x"
  by (simp add: round_nearest_def sgn_minus)

lemma round_nearest_pos: "0 \<le> x \<Longrightarrow> round_nearest x = ulp x * of_int (round_even (x / ulp x))"
  by (cases "x = 0") (simp_all add: round_nearest_def)

lemma round_nearest_nonneg:
  assumes "0 \<le> x"
  shows "0 \<le> round_nearest x"
proof -
  have "0 \<le> x / ulp x" using assms ulp_pos[of x] by simp
  then have "0 \<le> round_even (x / ulp x)" using round_even_ge[of 0] by simp
  then show ?thesis using ulp_pos[of x] by (simp add: round_nearest_pos[OF assms])
qed

lemma round_nearest_abs: "round_nearest \<bar>x\<bar> = \<bar>round_nearest x\<bar>"
proof (cases "0 \<le> x")
  case True
  then show ?thesis using round_nearest_nonneg[OF True] by simp
next
  case False
  then have "0 \<le> round_nearest (- x)" by (intro round_nearest_nonneg) simp
  then have "round_nearest x \<le> 0" by (simp add: round_nearest_neg)
  then show ?thesis using False by (simp add: round_nearest_neg abs_if)
qed

lemma round_nearest_err_pos:
  assumes "0 \<le> x"
  shows "\<bar>round_nearest x - x\<bar> \<le> ulp x / 2"
proof -
  let ?q = "ulp x"
  have q: "0 < ?q" by (rule ulp_pos)
  have "round_nearest x - x = ?q * (of_int (round_even (x / ?q)) - x / ?q)"
    using q by (simp add: round_nearest_pos[OF assms] algebra_simps)
  then have "\<bar>round_nearest x - x\<bar> = ?q * \<bar>of_int (round_even (x / ?q)) - x / ?q\<bar>"
    using q by (simp add: abs_mult)
  also have "\<dots> \<le> ?q * (1 / 2)"
    using round_even_err[of "x / ?q"] q by (intro mult_left_mono) simp_all
  finally show ?thesis by simp
qed

lemma round_nearest_err: "\<bar>round_nearest x - x\<bar> \<le> ulp x / 2"
proof (cases "0 \<le> x")
  case True
  then show ?thesis by (rule round_nearest_err_pos)
next
  case False
  then have "\<bar>round_nearest (- x) - (- x)\<bar> \<le> ulp (- x) / 2" by (intro round_nearest_err_pos) simp
  moreover have "round_nearest (- x) - (- x) = - (round_nearest x - x)"
    by (simp add: round_nearest_neg)
  ultimately show ?thesis by (simp only: abs_minus_cancel ulp_neg)
qed

lemma round_nearest_ge_pow:
  assumes "2 powi (- 1022) \<le> x"
  shows "2 powi (exponent x) \<le> round_nearest x"
proof -
  have x: "0 \<le> x" using assms powi2_pos[of "- 1022"] by linarith
  then have ax: "\<bar>x\<bar> = x" by simp
  have "2 powi (exponent x) \<le> x" using exponent_lower[of x] assms by (simp only: ax)
  then have "ulp x * 2 ^ 52 \<le> x" by (simp only: ulp_scale)
  then have "2 ^ 52 \<le> x / ulp x" using ulp_pos[of x] by (simp add: field_simps)
  then have "of_int (2 ^ 52) \<le> x / ulp x" by simp
  then have "2 ^ 52 \<le> round_even (x / ulp x)" by (rule round_even_ge)
  then have "of_int (2 ^ 52) \<le> (of_int (round_even (x / ulp x)) :: real)"
    by (simp only: of_int_le_iff)
  then have "ulp x * of_int (2 ^ 52) \<le> ulp x * of_int (round_even (x / ulp x))"
    using ulp_pos[of x] by (intro mult_left_mono) simp_all
  moreover have "ulp x * of_int (2 ^ 52) = 2 powi (exponent x)"
    using ulp_scale(1)[of x] by simp
  ultimately show ?thesis by (simp only: round_nearest_pos[OF x])
qed

lemma round_nearest_le_pow:
  assumes "0 \<le> x" and "exponent x < 2200"
  shows "round_nearest x \<le> 2 powi (exponent x + 1)"
proof -
  have "x < 2 powi (exponent x + 1)" using exponent_upper[OF assms(2)] assms(1) by simp
  then have "x < ulp x * 2 ^ 53" by (simp only: ulp_scale)
  then have "x / ulp x \<le> 2 ^ 53" using ulp_pos[of x] by (simp add: field_simps)
  then have "x / ulp x \<le> of_int (2 ^ 53)" by simp
  then have "round_even (x / ulp x) \<le> 2 ^ 53" by (rule round_even_le)
  then have "(of_int (round_even (x / ulp x)) :: real) \<le> of_int (2 ^ 53)"
    by (simp only: of_int_le_iff)
  then have "ulp x * of_int (round_even (x / ulp x)) \<le> ulp x * of_int (2 ^ 53)"
    using ulp_pos[of x] by (intro mult_left_mono) simp_all
  moreover have "ulp x * of_int (2 ^ 53) = 2 powi (exponent x + 1)"
    using ulp_scale(2)[of x] by simp
  ultimately show ?thesis by (simp only: round_nearest_pos[OF assms(1)])
qed

lemma round_nearest_mono_pos:
  assumes "0 \<le> x" and "x \<le> y"
  shows "round_nearest x \<le> round_nearest y"
proof -
  have y: "0 \<le> y" using assms by simp
  have le: "exponent x \<le> exponent y" using assms by (intro exponent_mono) simp
  show ?thesis
  proof (cases "exponent x = exponent y")
    case True
    then have u: "ulp x = ulp y" by (simp add: ulp_def)
    have "x / ulp y \<le> y / ulp y" using assms(2) ulp_pos[of y] by (simp add: divide_right_mono)
    then have "round_even (x / ulp y) \<le> round_even (y / ulp y)" by (rule round_even_mono)
    then have "ulp y * of_int (round_even (x / ulp y)) \<le> ulp y * of_int (round_even (y / ulp y))"
      using ulp_pos[of y] by (intro mult_left_mono) simp_all
    then show ?thesis by (simp add: round_nearest_pos[OF assms(1)] round_nearest_pos[OF y] u)
  next
    case False
    then have lt: "exponent x < exponent y" using le by simp
    then have "exponent x < 2200" using exponent_le[of y] by simp
    then have a: "round_nearest x \<le> 2 powi (exponent x + 1)"
      using assms(1) by (intro round_nearest_le_pow)
    have b: "(2::real) powi (exponent x + 1) \<le> 2 powi (exponent y)"
      using lt by (simp add: powi2_le_iff)
    have n: "exponent y \<noteq> - 1022" using lt exponent_ge[of x] by simp
    have "2 powi (- 1022) \<le> y"
    proof (rule ccontr)
      assume "\<not> 2 powi (- 1022) \<le> y"
      then have "\<bar>y\<bar> < 2 powi (- 1022)" using y by simp
      then show False using exponent_subnormal[of y] n by simp
    qed
    then have "2 powi (exponent y) \<le> round_nearest y" by (rule round_nearest_ge_pow)
    then show ?thesis using a b by linarith
  qed
qed

lemma round_nearest_mono:
  assumes "x \<le> y"
  shows "round_nearest x \<le> round_nearest y"
proof -
  consider "0 \<le> x" | "x < 0" "0 \<le> y" | "y < 0" using assms by linarith
  then show ?thesis
  proof cases
    case 1
    then show ?thesis using assms by (rule round_nearest_mono_pos)
  next
    case 2
    have "0 \<le> round_nearest (- x)" using 2 by (intro round_nearest_nonneg) simp
    then have "round_nearest x \<le> 0" by (simp add: round_nearest_neg)
    then show ?thesis using round_nearest_nonneg[OF 2(2)] by linarith
  next
    case 3
    have "round_nearest (- y) \<le> round_nearest (- x)"
      using 3 assms by (intro round_nearest_mono_pos) simp_all
    then show ?thesis by (simp add: round_nearest_neg)
  qed
qed

lemma round_nearest_bound:
  "\<bar>round_nearest x - x\<bar> \<le> \<bar>round_nearest x\<bar> * 2 powi (- 53) + 2 powi (- 1075)"
proof (cases "2 powi (- 1022) \<le> \<bar>x\<bar>")
  case True
  then have "2 powi (exponent \<bar>x\<bar>) \<le> round_nearest \<bar>x\<bar>" by (rule round_nearest_ge_pow)
  then have "2 powi (exponent x) \<le> \<bar>round_nearest x\<bar>" by (simp only: round_nearest_abs exponent_abs)
  then have "2 powi (exponent x) * 2 powi (- 53) \<le> \<bar>round_nearest x\<bar> * 2 powi (- 53)"
    using powi2_pos[of "- 53"] by (intro mult_right_mono) simp_all
  moreover have "ulp x / 2 = 2 powi (exponent x) * 2 powi (- 53)"
  proof -
    have "ulp x / 2 = 2 powi (exponent x - 52 - 1)" unfolding ulp_def by (rule powi2_half)
    also have "exponent x - 52 - 1 = exponent x + (- 53)" by simp
    finally show ?thesis by (simp only: powi2_add)
  qed
  ultimately show ?thesis using round_nearest_err[of x] powi2_pos[of "- 1075"] by linarith
next
  case False
  then have "exponent x = - 1022" by (intro exponent_subnormal) simp
  then have "ulp x = 2 powi (- 1074)" by (simp add: ulp_def)
  then have "ulp x / 2 = 2 powi (- 1074 - 1)" by (simp only: powi2_half)
  then have "ulp x / 2 = 2 powi (- 1075)" by simp
  moreover have "0 \<le> \<bar>round_nearest x\<bar> * 2 powi (- 53)"
    using powi2_pos[of "- 53"] by simp
  ultimately show ?thesis using round_nearest_err[of x] by linarith
qed

lemma round_nearest_grid:
  assumes "x = of_int k * ulp x"
  shows "round_nearest x = x"
proof -
  have q: "0 < ulp x" by (rule ulp_pos)
  have ax: "\<bar>x\<bar> = of_int \<bar>k\<bar> * ulp x" using q by (subst assms) (simp add: abs_mult)
  then have "\<bar>x\<bar> / ulp x = of_int \<bar>k\<bar>" using q by simp
  then have "round_nearest x = sgn x * (ulp x * of_int \<bar>k\<bar>)"
    unfolding round_nearest_def by (simp only: round_even_int)
  also have "ulp x * of_int \<bar>k\<bar> = \<bar>x\<bar>" by (simp only: ax mult.commute)
  finally show ?thesis by (simp add: sgn_mult_abs)
qed

lemma round_nearest_multiple:
  assumes "x = of_int k * 2 powi m" and "exponent x - 52 \<le> m"
  shows "round_nearest x = x"
proof -
  define d where "d = nat (m - (exponent x - 52))"
  have m: "m = exponent x - 52 + int d" using assms(2) by (simp add: d_def)
  have "(2::real) powi m = 2 powi (exponent x - 52) * 2 powi (int d)"
    by (subst m) (rule powi2_add[symmetric])
  then have "of_int k * 2 powi m = of_int (k * 2 ^ d) * ulp x" by (simp add: ulp_def)
  with assms(1) have "x = of_int (k * 2 ^ d) * ulp x" by (rule trans)
  then show ?thesis by (rule round_nearest_grid)
qed

lemma exponent_less:
  assumes "\<bar>x\<bar> < 2 powi m" and "- 1022 < m"
  shows "exponent x < m"
proof (cases "2 powi (- 1022) \<le> \<bar>x\<bar>")
  case True
  then have "2 powi (exponent x) \<le> \<bar>x\<bar>" by (rule exponent_lower)
  then have "(2::real) powi (exponent x) < 2 powi m" using assms(1) by linarith
  then show ?thesis by (simp only: powi2_less_iff)
next
  case False
  then have "exponent x = - 1022" by (intro exponent_subnormal) simp
  then show ?thesis using assms(2) by simp
qed

lemma to_float64_exact:
  assumes "\<bar>n\<bar> \<le> 2 ^ 53"
  shows "to_float64 n = real_of_int n"
proof (cases "\<bar>n\<bar> = 2 ^ 53")
  case True
  then have a: "\<bar>real_of_int n\<bar> = 2 powi 53"
    by (metis of_int_abs of_int_numeral of_int_power power_int_numeral)
  have "\<bar>real_of_int n\<bar> < 2 powi 54" unfolding a by (simp only: powi2_less_iff)
  then have e: "exponent (real_of_int n) < 54" by (rule exponent_less) simp
  obtain k where k: "n = k * 2"
  proof (cases "0 \<le> n")
    case True
    then have "n = 2 ^ 52 * 2" using \<open>\<bar>n\<bar> = 2 ^ 53\<close> by simp
    then show ?thesis using that by blast
  next
    case False
    then have "n = (- (2 ^ 52)) * 2" using \<open>\<bar>n\<bar> = 2 ^ 53\<close> by simp
    then show ?thesis using that by blast
  qed
  have h: "real_of_int n = of_int k * 2 powi 1" by (simp add: k)
  have "exponent (real_of_int n) - 52 \<le> 1" using e by simp
  with h show ?thesis unfolding to_float64_def by (rule round_nearest_multiple)
next
  case False
  then have "\<bar>n\<bar> < 2 ^ 53" using assms by simp
  then have "real_of_int \<bar>n\<bar> < real_of_int (2 ^ 53)" by (simp only: of_int_less_iff)
  then have "\<bar>real_of_int n\<bar> < 2 powi 53" by simp
  then have e: "exponent (real_of_int n) < 53" by (rule exponent_less) simp
  have h: "real_of_int n = of_int n * 2 powi 0" by simp
  have "exponent (real_of_int n) - 52 \<le> 0" using e by simp
  with h show ?thesis unfolding to_float64_def by (rule round_nearest_multiple)
qed

lemma to_float64_mono: "m \<le> n \<Longrightarrow> to_float64 m \<le> to_float64 n"
  unfolding to_float64_def by (intro round_nearest_mono) simp

lemma round_nearest_eval:
  assumes "2 powi e \<le> \<bar>x\<bar>" and "\<bar>x\<bar> < 2 powi (e + 1)" and "- 1022 \<le> e" and "e \<le> 2200"
  shows "round_nearest x = sgn x * (2 powi (e - 52) * of_int (round_even (\<bar>x\<bar> / 2 powi (e - 52))))"
  by (simp add: round_nearest_def ulp_def exponent_eqI[OF assms])

lemma sub_add_bound:
  assumes "sub64 (Finite t) (Finite b) = Finite w" and "add64 (Finite b) (Finite w) = Finite s"
  shows "\<bar>s - t\<bar> \<le> (\<bar>w\<bar> + \<bar>s\<bar>) * 2 powi (- 53) + 2 powi (- 1074)"
proof -
  have w: "w = round_nearest (t - b)"
    using assms(1) by (simp add: round64_def Let_def split: if_splits)
  have s: "s = round_nearest (b + w)"
    using assms(2) by (simp add: round64_def Let_def split: if_splits)
  have "\<bar>w - (t - b)\<bar> \<le> \<bar>w\<bar> * 2 powi (- 53) + 2 powi (- 1075)"
    unfolding w by (rule round_nearest_bound)
  moreover have "\<bar>s - (b + w)\<bar> \<le> \<bar>s\<bar> * 2 powi (- 53) + 2 powi (- 1075)"
    unfolding s by (rule round_nearest_bound)
  moreover have "(2::real) powi (- 1075) + 2 powi (- 1075) = 2 powi (- 1074)"
    using powi2_half[of "- 1074"] by simp
  ultimately show ?thesis by (simp add: algebra_simps)
qed

lemma round64_Finite:
  assumes "\<bar>round_nearest x\<bar> < 2 ^ 1024"
  shows "round64 x = Finite (round_nearest x)"
proof -
  have "\<not> 2 ^ 1024 \<le> round_nearest x" "\<not> round_nearest x \<le> - (2 ^ 1024)"
    using assms by linarith+
  then show ?thesis unfolding round64_def Let_def by (simp only: if_False)
qed

lemma round64_dyadic:
  assumes "x = of_int k * 2 powi m" and "\<bar>x\<bar> < 2 powi (m + 53)" and "- 1074 \<le> m" and "m \<le> 971"
  shows "round64 x = Finite x"
proof -
  have "exponent x < m + 53" using assms(2,3) by (intro exponent_less) simp_all
  then have "exponent x - 52 \<le> m" by simp
  with assms(1) have r: "round_nearest x = x" by (rule round_nearest_multiple)
  have "(2::real) powi (m + 53) \<le> 2 powi 1024" using assms(4) by (simp only: powi2_le_iff)
  also have "(2::real) powi 1024 = 2 ^ 1024" by (rule power_int_numeral)
  finally have "\<bar>x\<bar> < 2 ^ 1024" using assms(2) by linarith
  then show ?thesis using round64_Finite[of x] by (simp only: r)
qed

lemma round64_quarters:
  assumes "\<bar>k\<bar> < 2 ^ 53"
  shows "round64 (of_int k / 4) = Finite (of_int k / 4)"
proof -
  have q: "(2::real) powi (- 2) = 1 / 4"
    by (simp add: power_int_minus field_simps)
  have a: "real_of_int k / 4 = of_int k * 2 powi (- 2)" by (simp only: q)
  have "real_of_int \<bar>k\<bar> < real_of_int (2 ^ 53)" using assms by (simp only: of_int_less_iff)
  then have "\<bar>real_of_int k\<bar> < 2 powi 53" by simp
  then have "\<bar>real_of_int k\<bar> * 2 powi (- 2) < 2 powi 53 * 2 powi (- 2)"
    using powi2_pos[of "- 2"] by (intro mult_strict_right_mono)
  moreover have "(2::real) powi 53 * 2 powi (- 2) = 2 powi (- 2 + 53)"
    by (simp only: powi2_add) simp
  moreover have "\<bar>real_of_int k / 4\<bar> = \<bar>real_of_int k\<bar> * 2 powi (- 2)"
    by (simp only: q)
  ultimately have "\<bar>real_of_int k / 4\<bar> < 2 powi (- 2 + 53)" by (simp only:)
  with a show ?thesis by (rule round64_dyadic) simp_all
qed

lemma round_nearest_idem_pos:
  assumes "0 \<le> x"
  shows "round_nearest (round_nearest x) = round_nearest x"
proof -
  let ?r = "round_nearest x"
  let ?e = "exponent x"
  have r: "?r = of_int (round_even (x / ulp x)) * 2 powi (?e - 52)"
    by (simp add: round_nearest_pos[OF assms] ulp_def)
  have r0: "0 \<le> ?r" by (rule round_nearest_nonneg[OF assms])
  show ?thesis
  proof (cases "exponent ?r \<le> ?e")
    case True
    then have "exponent ?r - 52 \<le> ?e - 52" by simp
    with r show ?thesis by (rule round_nearest_multiple)
  next
    case False
    then have lt: "?e < exponent ?r" by simp
    then have e: "?e < 2200" using exponent_le[of ?r] by simp
    have le: "?r \<le> 2 powi (?e + 1)" by (rule round_nearest_le_pow[OF assms e])
    have "\<not> \<bar>?r\<bar> < 2 powi (?e + 1)"
    proof
      assume "\<bar>?r\<bar> < 2 powi (?e + 1)"
      then have "exponent ?r < ?e + 1" using exponent_ge[of x] by (intro exponent_less) simp_all
      then show False using lt by simp
    qed
    then have eq: "?r = of_int 1 * 2 powi (?e + 1)" using le r0 by simp
    have "(2::real) powi (?e + 1) < 2 powi (?e + 2)" by (simp only: powi2_less_iff)
    then have "\<bar>?r\<bar> < 2 powi (?e + 2)" using eq by simp
    then have "exponent ?r < ?e + 2" using exponent_ge[of x] by (intro exponent_less) simp_all
    then have "exponent ?r - 52 \<le> ?e + 1" by simp
    with eq show ?thesis by (rule round_nearest_multiple)
  qed
qed

lemma round_nearest_idem: "round_nearest (round_nearest x) = round_nearest x"
proof (cases "0 \<le> x")
  case True
  then show ?thesis by (rule round_nearest_idem_pos)
next
  case False
  then have "round_nearest (round_nearest (- x)) = round_nearest (- x)"
    by (intro round_nearest_idem_pos) simp
  then show ?thesis by (simp add: round_nearest_neg)
qed

lemma round64_idem:
  assumes "round64 x = Finite r"
  shows "round64 r = Finite r"
proof -
  have r: "r = round_nearest x" and b: "\<bar>round_nearest x\<bar> < 2 ^ 1024"
    using assms by (auto simp: round64_def Let_def split: if_splits)
  have "round_nearest r = r" unfolding r by (rule round_nearest_idem)
  then show ?thesis using round64_Finite[of r] b r by simp
qed

lemma sub64_Finite:
  assumes "sub64 a b = Finite w"
  shows "\<exists>x y. a = Finite x \<and> b = Finite y \<and> round64 (x - y) = Finite w"
  using assms by (cases a; cases b) simp_all

lemma add64_Finite:
  assumes "add64 a b = Finite w"
  shows "\<exists>x y. a = Finite x \<and> b = Finite y \<and> round64 (x + y) = Finite w"
  using assms by (cases a; cases b) simp_all

lemma sub64_NaN [simp]: "sub64 NaN b = NaN" "sub64 a NaN = NaN"
  by (cases b; simp) (cases a; simp)

lemma add64_NaN [simp]: "add64 NaN b = NaN" "add64 a NaN = NaN"
  by (cases b; simp) (cases a; simp)

lemma sub_add_exact:
  assumes "sub64 y m = Finite t" and "sub64 (Finite t) (Finite b) = Finite (t - b)"
  shows "add64 (Finite b) (Finite (t - b)) = Finite t"
proof -
  from sub64_Finite[OF assms(1)] obtain u v where "round64 (u - v) = Finite t" by blast
  then have "round64 t = Finite t" by (rule round64_idem)
  then show ?thesis by simp
qed

section \<open>Properties of the Index Builder\<close>

lemma first_index_le: "first_index xs x \<le> length xs"
  by (induction xs) auto

lemma first_index_less: "x \<in> set xs \<Longrightarrow> first_index xs x < length xs"
  by (induction xs) auto

lemma nth_first_index: "x \<in> set xs \<Longrightarrow> xs ! first_index xs x = x"
  by (induction xs) auto

lemma first_index_inj:
  "x \<in> set xs \<Longrightarrow> first_index xs x = first_index xs y \<Longrightarrow> x = y"
  by (induction xs) (auto split: if_splits)

lemma first_index_nth_distinct:
  "distinct xs \<Longrightarrow> i < length xs \<Longrightarrow> first_index xs (xs ! i) = i"
  by (induction xs arbitrary: i) (auto simp: nth_Cons split: nat.splits)

lemma np_unique_index_in_range:
  "i \<in> set (fst (snd (np_unique ar))) \<Longrightarrow> i < length ar"
  by (auto simp: np_unique_def Let_def first_index_less)

lemma np_unique_keys: "fst (np_unique ar) = sort (remdups ar)"
  by (simp add: np_unique_def Let_def)

lemma np_unique_lengths:
  "length (fst (snd (np_unique ar))) = length (fst (np_unique ar))"
  "length (snd (snd (np_unique ar))) = length ar"
  by (simp_all add: np_unique_def Let_def)

lemma np_unique_inverse_less:
  assumes "i < length ar"
  shows "snd (snd (np_unique ar)) ! i < length (fst (np_unique ar))"
proof -
  have "ar ! i \<in> set (sort (remdups ar))" using assms by simp
  then have "first_index (sort (remdups ar)) (ar ! i) < length (sort (remdups ar))"
    by (rule first_index_less)
  then show ?thesis using assms by (simp add: np_unique_def Let_def)
qed

lemma np_unique_inverse_key:
  "i < length ar \<Longrightarrow> fst (np_unique ar) ! (snd (snd (np_unique ar)) ! i) = ar ! i"
  by (simp add: np_unique_def Let_def nth_first_index)

lemma np_unique_inverse_eq_iff:
  assumes "i < length ar" "j < length ar"
  shows "(snd (snd (np_unique ar)) ! i = snd (snd (np_unique ar)) ! j) = (ar ! i = ar ! j)"
proof
  assume "snd (snd (np_unique ar)) ! i = snd (snd (np_unique ar)) ! j"
  then show "ar ! i = ar ! j"
    using np_unique_inverse_key[OF assms(1)] np_unique_inverse_key[OF assms(2)] by simp
next
  assume "ar ! i = ar ! j"
  then show "snd (snd (np_unique ar)) ! i = snd (snd (np_unique ar)) ! j"
    using assms by (simp add: np_unique_def Let_def)
qed

lemma np_unique_inverse_dense:
  "set (snd (snd (np_unique ar))) = {0..<length (fst (np_unique ar))}"
proof -
  let ?u = "sort (remdups ar)"
  have d: "distinct ?u" and s: "set ?u = set ar" by simp_all
  have "first_index ?u ` set ar = {0..<length ?u}"
  proof (intro equalityI subsetI)
    fix k assume "k \<in> first_index ?u ` set ar"
    then show "k \<in> {0..<length ?u}" using s first_index_less[of _ ?u] by auto
  next
    fix k assume "k \<in> {0..<length ?u}"
    then have k: "k < length ?u" by simp
    then have "?u ! k \<in> set ar" using s nth_mem by blast
    moreover have "first_index ?u (?u ! k) = k" using d k by (rule first_index_nth_distinct)
    ultimately show "k \<in> first_index ?u ` set ar" by force
  qed
  then show ?thesis by (simp add: np_unique_def Let_def)
qed

lemma np_unique_index_first:
  assumes "k < length (fst (np_unique ar))"
  shows "fst (snd (np_unique ar)) ! k < length ar"
    and "ar ! (fst (snd (np_unique ar)) ! k) = fst (np_unique ar) ! k"
    and "\<forall>j < fst (snd (np_unique ar)) ! k. ar ! j \<noteq> fst (np_unique ar) ! k"
proof -
  let ?u = "sort (remdups ar)"
  have k: "k < length ?u" using assms by (simp add: np_unique_def Let_def)
  then have m: "?u ! k \<in> set ar" using nth_mem[of k ?u] by simp
  show "fst (snd (np_unique ar)) ! k < length ar"
    using k m by (simp add: np_unique_def Let_def first_index_less)
  show "ar ! (fst (snd (np_unique ar)) ! k) = fst (np_unique ar) ! k"
    using k m by (simp add: np_unique_def Let_def nth_first_index)
  have "\<And>j x. j < first_index ar x \<Longrightarrow> ar ! j \<noteq> x"
  proof -
    fix j x show "j < first_index ar x \<Longrightarrow> ar ! j \<noteq> x"
      by (induction ar arbitrary: j) (auto simp: nth_Cons split: nat.splits if_splits)
  qed
  then show "\<forall>j < fst (snd (np_unique ar)) ! k. ar ! j \<noteq> fst (np_unique ar) ! k"
    using k by (simp add: np_unique_def Let_def)
qed

section \<open>The example, evaluated\<close>

lemma scenario_unique_eq: "np_unique [7, 3, 7] = ([3, 7], [1, 0], [1, 0, 1])"
  by (simp add: np_unique_def)

lemma scenario_unique_sta: "np_unique [4, 4, 2] = ([2, 4], [2, 0], [1, 1, 0])"
  by (simp add: np_unique_def)

lemma scenario_reindex:
  "reindex scenario_celldist [10, 11, 12] =
     Inr \<lparr>fr_index = [10, 11, 12],
          fr_columns = [(''A'', [Some 2, Some 0, Some 1]), (''B'', [Some 0, Some 4, Some 3]),
                        (''C'', [Some 0, Some 0, Some 0])]\<rparr>"
  by (simp add: reindex_def reindex_column_def scenario_celldist_def)

lemma scenario_filter:
  "cell_network_filter (ci_rows scenario_cellinfo)
     \<lparr>fr_index = [10, 11, 12],
      fr_columns = [(''A'', [Some 2, Some 0, Some 1]), (''B'', [Some 0, Some 4, Some 3]),
                    (''C'', [Some 0, Some 0, Some 0])]\<rparr> = Inr scenario_cells"
  by (simp add: cell_network_filter_def select_columns_def loc_rows_def take_pos_def nansum_def
      np_where_positive_def scenario_cellinfo_def scenario_cells_def Let_def upt_conv_Cons)

lemma scenario_keys:
  "to_float64 2 = 2" "to_float64 3 = 3" "to_float64 4 = 4" "to_float64 7 = 7"
  by (simp_all add: to_float64_exact)

lemma scenario_assemble: "snd (assemble scenario_tables 0) = Inr scenario_assembled"
proof -
  have r: "ff_rows (set_index_flatfile scenario_flatfile) = ff_rows scenario_flatfile"
    by (simp add: set_index_flatfile_def)
  have d: "reindex (set_index_celldist scenario_celldist) [10, 11, 12]
         = reindex scenario_celldist [10, 11, 12]"
    by (simp add: set_index_celldist_def reindex_def)
  have i: "ci_rows (set_index_cellinfo scenario_cellinfo) = ci_rows scenario_cellinfo"
    by (simp add: set_index_cellinfo_def)
  have k: "map rsn (ff_rows scenario_flatfile) = [10, 11, 12]"
    "map eqid (ff_rows scenario_flatfile) = [7, 3, 7]"
    "map ssn (ff_rows scenario_flatfile) = [4, 4, 2]"
    by (simp_all add: scenario_flatfile_def)
  show ?thesis
    unfolding assemble_def scenario_tables_def
    by (simp add: r d i k scenario_unique_eq scenario_unique_sta scenario_reindex
        scenario_filter to_numpy_def Let_def upt_conv_Cons scenario_assembled_def
        scenario_payload_def)
      (simp add: scenario_flatfile_def scenario_cells_def scenario_keys)
qed

section \<open>What the assembler returns\<close>

lemma assemble_fields:
  assumes "snd (assemble tabs c) = Inr a"
  shows "n_data a = length (ff_rows (df_flatfile tabs))"
    and "eq_inv a = snd (snd (np_unique (map eqid (ff_rows (df_flatfile tabs)))))"
    and "eq_idx a = fst (snd (np_unique (map eqid (ff_rows (df_flatfile tabs)))))"
    and "n_eq a = length (fst (np_unique (map eqid (ff_rows (df_flatfile tabs)))))"
    and "sta_inv a = snd (snd (np_unique (map ssn (ff_rows (df_flatfile tabs)))))"
    and "sta_idx a = fst (snd (np_unique (map ssn (ff_rows (df_flatfile tabs)))))"
    and "n_sta a = length (fst (np_unique (map ssn (ff_rows (df_flatfile tabs)))))"
    and "y_data a = map res (ff_rows (df_flatfile tabs))"
    and "sd_eq (payload a) = map (\<lambda>k. k + 1) (eq_inv a)"
    and "sd_stat (payload a) = map (\<lambda>k. k + 1) (sta_inv a)"
    and "sd_N (payload a) = n_data a"
    and "sd_NEQ (payload a) = n_eq a"
    and "sd_NSTAT (payload a) = n_sta a"
  using assms unfolding assemble_def Let_def
  by (auto simp: set_index_flatfile_def np_unique_lengths split: sum.splits)

section \<open>Group indices\<close>

text \<open>
  Claim C2. When the payload is assembled, the group indices \<^verbatim>\<open>eq_inv\<close> and \<^verbatim>\<open>sta_inv\<close>
  have one entry per record, every entry lies below the number of groups, two records
  have the same index exactly when they have the same key (\<^verbatim>\<open>eqid\<close>, \<^verbatim>\<open>ssn\<close>), and the
  indices used are exactly \<open>0, ..., n_groups - 1\<close>.
\<close>

theorem group_indices_consistent:
  assumes "snd (assemble tabs c) = Inr a" and "i < n_data a" and "j < n_data a"
  shows "length (eq_inv a) = n_data a \<and> length (sta_inv a) = n_data a
       \<and> eq_inv a ! i < n_eq a \<and> sta_inv a ! i < n_sta a
       \<and> ((eq_inv a ! i = eq_inv a ! j)
            = (eqid (ff_rows (df_flatfile tabs) ! i) = eqid (ff_rows (df_flatfile tabs) ! j)))
       \<and> ((sta_inv a ! i = sta_inv a ! j)
            = (ssn (ff_rows (df_flatfile tabs) ! i) = ssn (ff_rows (df_flatfile tabs) ! j)))
       \<and> set (eq_inv a) = {0..<n_eq a} \<and> set (sta_inv a) = {0..<n_sta a}"
proof -
  let ?rows = "ff_rows (df_flatfile tabs)"
  note f = assemble_fields[OF assms(1)]
  have i: "i < length ?rows" and j: "j < length ?rows" using assms(2,3) f(1) by simp_all
  have ie: "i < length (map eqid ?rows)" "j < length (map eqid ?rows)"
    and ks: "i < length (map ssn ?rows)" "j < length (map ssn ?rows)" using i j by simp_all
  have "length (eq_inv a) = n_data a" "length (sta_inv a) = n_data a"
    by (simp_all add: f np_unique_lengths)
  moreover have "eq_inv a ! i < n_eq a" using np_unique_inverse_less[OF ie(1)] by (simp add: f)
  moreover have "sta_inv a ! i < n_sta a" using np_unique_inverse_less[OF ks(1)] by (simp add: f)
  moreover have "(eq_inv a ! i = eq_inv a ! j) = (eqid (?rows ! i) = eqid (?rows ! j))"
    using np_unique_inverse_eq_iff[OF ie] i j by (simp add: f)
  moreover have "(sta_inv a ! i = sta_inv a ! j) = (ssn (?rows ! i) = ssn (?rows ! j))"
    using np_unique_inverse_eq_iff[OF ks] i j by (simp add: f)
  moreover have "set (eq_inv a) = {0..<n_eq a}" by (simp add: f np_unique_inverse_dense)
  moreover have "set (sta_inv a) = {0..<n_sta a}" by (simp add: f np_unique_inverse_dense)
  ultimately show ?thesis by blast
qed

theorem group_indices_consistent_witness:
  "snd (assemble scenario_tables 0) = Inr scenario_assembled
   \<and> (0::nat) < n_data scenario_assembled \<and> (2::nat) < n_data scenario_assembled
   \<and> eq_inv scenario_assembled ! 0 = 1 \<and> eq_inv scenario_assembled ! 2 = 1
   \<and> eq_inv scenario_assembled ! 0 < n_eq scenario_assembled
   \<and> sta_inv scenario_assembled ! 0 \<noteq> sta_inv scenario_assembled ! 2
   \<and> set (eq_inv scenario_assembled) = {0..<n_eq scenario_assembled}
   \<and> set (sta_inv scenario_assembled) = {0..<n_sta scenario_assembled}"
proof -
  have n: "(0::nat) < n_data scenario_assembled" "(2::nat) < n_data scenario_assembled"
    by (simp_all add: scenario_assembled_def)
  have "set (eq_inv scenario_assembled) = {0..<n_eq scenario_assembled}
      \<and> set (sta_inv scenario_assembled) = {0..<n_sta scenario_assembled}"
    using group_indices_consistent[OF scenario_assemble n] by blast
  moreover have "eq_inv scenario_assembled ! 0 = 1 \<and> eq_inv scenario_assembled ! 2 = 1
      \<and> eq_inv scenario_assembled ! 0 < n_eq scenario_assembled
      \<and> sta_inv scenario_assembled ! 0 \<noteq> sta_inv scenario_assembled ! 2"
    by (simp add: scenario_assembled_def)
  ultimately show ?thesis using n scenario_assemble by blast
qed

section \<open>Order of the group keys\<close>

text \<open>
  The group of position \<open>k\<close> is represented by the record at position \<^verbatim>\<open>eq_idx[k]\<close>; its
  integer key is the \<open>k\<close>-th of the sorted distinct keys (lemma \<open>keys_at_index\<close>), and the
  first column of its row in \<^verbatim>\<open>data_eq\<close> is that key converted to a double (lemma
  \<open>key_column\<close>). The conversion keeps the order but not the difference of keys beyond
  \<open>2\<^sup>5\<^sup>3\<close> (lemma \<open>keys_above_2_53\<close>).
\<close>

lemma np_unique_keys_strict: "sorted_wrt (<) (fst (np_unique ar))"
  by (simp add: np_unique_def Let_def strict_sorted_iff)

lemma np_unique_keys_set: "set (fst (np_unique ar)) = set ar"
  by (simp add: np_unique_def Let_def)

lemma first_index_first: "j < first_index xs x \<Longrightarrow> xs ! j \<noteq> x"
  by (induction xs arbitrary: j) (auto simp: nth_Cons split: nat.splits if_splits)

lemma assemble_groups:
  assumes "snd (assemble tabs c) = Inr a"
  shows "data_eq a = map (\<lambda>i. map (\<lambda>r. [to_float64 (eqid r), mag r, eqX r, eqY r])
                                   (ff_rows (df_flatfile tabs)) ! i) (eq_idx a)"
    and "data_sta a = map (\<lambda>i. map (\<lambda>r. [to_float64 (ssn r), Vs30 r, staX r, staY r])
                                   (ff_rows (df_flatfile tabs)) ! i) (sta_idx a)"
    and "sd_X_e (payload a) = map (\<lambda>d. [d ! 2, d ! 3]) (data_eq a)"
    and "sd_X_s (payload a) = map (\<lambda>d. [d ! 2, d ! 3]) (data_sta a)"
    and "n_eq a = length (data_eq a)"
    and "n_sta a = length (data_sta a)"
  using assms unfolding assemble_def Let_def
  by (auto simp: set_index_flatfile_def split: sum.splits)

lemma group_rows:
  fixes key :: "'r \<Rightarrow> int" and f :: "'r \<Rightarrow> real list"
  assumes "k < length (fst (np_unique (map key rows)))"
  defines "p \<equiv> fst (snd (np_unique (map key rows))) ! k"
  shows "p < length rows"
    and "key (rows ! p) = fst (np_unique (map key rows)) ! k"
    and "map f rows ! p = f (rows ! p)"
    and "\<forall>j<p. key (rows ! j) \<noteq> key (rows ! p)"
proof -
  note u = np_unique_index_first[OF assms(1)]
  show p: "p < length rows" using u(1) by (simp add: p_def)
  show kp: "key (rows ! p) = fst (np_unique (map key rows)) ! k"
    using u(2) p by (simp add: p_def)
  show "map f rows ! p = f (rows ! p)" using p by simp
  show "\<forall>j<p. key (rows ! j) \<noteq> key (rows ! p)"
  proof (intro allI impI)
    fix j assume j: "j < p"
    then have "map key rows ! j \<noteq> fst (np_unique (map key rows)) ! k"
      using u(3) by (simp add: p_def)
    then show "key (rows ! j) \<noteq> key (rows ! p)" using j p kp by simp
  qed
qed

lemma keys_at_index:
  fixes key :: "'r \<Rightarrow> int"
  shows "map (\<lambda>i. key (rows ! i)) (fst (snd (np_unique (map key rows))))
       = fst (np_unique (map key rows))"
proof (rule nth_equalityI)
  show "length (map (\<lambda>i. key (rows ! i)) (fst (snd (np_unique (map key rows)))))
      = length (fst (np_unique (map key rows)))"
    by (simp add: np_unique_lengths)
  fix k assume "k < length (map (\<lambda>i. key (rows ! i)) (fst (snd (np_unique (map key rows)))))"
  then have k: "k < length (fst (np_unique (map key rows)))" by (simp add: np_unique_lengths)
  then have "k < length (fst (snd (np_unique (map key rows))))" by (simp add: np_unique_lengths)
  then show "map (\<lambda>i. key (rows ! i)) (fst (snd (np_unique (map key rows)))) ! k
      = fst (np_unique (map key rows)) ! k"
    using group_rows(2)[OF k] by simp
qed

lemma key_column:
  fixes key :: "'r \<Rightarrow> int" and f :: "'r \<Rightarrow> real list"
  assumes "\<And>r. f r ! 0 = to_float64 (key r)"
  shows "map (\<lambda>d. d ! 0) (map (\<lambda>i. map f rows ! i) (fst (snd (np_unique (map key rows)))))
       = map (\<lambda>i. to_float64 (key (rows ! i))) (fst (snd (np_unique (map key rows))))"
proof (rule nth_equalityI)
  let ?idx = "fst (snd (np_unique (map key rows)))"
  show "length (map (\<lambda>d. d ! 0) (map (\<lambda>i. map f rows ! i) ?idx))
      = length (map (\<lambda>i. to_float64 (key (rows ! i))) ?idx)" by simp
  fix k assume "k < length (map (\<lambda>d. d ! 0) (map (\<lambda>i. map f rows ! i) ?idx))"
  then have kd: "k < length ?idx" by simp
  then have k: "k < length (fst (np_unique (map key rows)))" by (simp add: np_unique_lengths)
  show "map (\<lambda>d. d ! 0) (map (\<lambda>i. map f rows ! i) ?idx) ! k
      = map (\<lambda>i. to_float64 (key (rows ! i))) ?idx ! k"
    using kd group_rows(3)[OF k, of f] assms by simp
qed

lemma sorted_to_float64: "sorted_wrt (<) xs \<Longrightarrow> sorted (map to_float64 xs)"
proof -
  assume "sorted_wrt (<) xs"
  then have "sorted xs" by (simp add: strict_sorted_iff)
  then show ?thesis by (simp add: sorted_map sorted_wrt_mono_rel[of xs "(\<le>)"] to_float64_mono)
qed

lemma strict_sorted_to_float64:
  assumes "sorted_wrt (<) xs" and "\<forall>x \<in> set xs. \<bar>x\<bar> \<le> 2 ^ 53"
  shows "sorted_wrt (<) (map to_float64 xs)" and "map to_float64 xs = map real_of_int xs"
proof -
  show e: "map to_float64 xs = map real_of_int xs"
    using assms(2) by (intro map_cong refl to_float64_exact) blast
  show "sorted_wrt (<) (map to_float64 xs)"
    unfolding e using assms(1) by (simp add: sorted_wrt_map)
qed

lemma keys_above_2_53: "to_float64 (2 ^ 53 + 1) = 2 ^ 53" "to_float64 (2 ^ 53) = 2 ^ 53"
proof -
  show "to_float64 (2 ^ 53 + 1) = 2 ^ 53"
    unfolding to_float64_def
    by (subst round_nearest_eval[where e = 53])
       (simp_all add: round_even_def power_int_numeral_neg_numeral)
  show "to_float64 (2 ^ 53) = 2 ^ 53" using to_float64_exact[of "2 ^ 53"] by simp
qed

lemma large_key_unique:
  "np_unique [9007199254740993, 9007199254740992, 9007199254740993]
     = ([9007199254740992, 9007199254740993], [1, 0], [1, 0, 1])"
  by (simp add: np_unique_def)

lemma large_key_doubles:
  "to_float64 9007199254740992 = 9007199254740992"
  "to_float64 9007199254740993 = 9007199254740992"
  using keys_above_2_53 by simp_all

lemma large_key_assemble: "snd (assemble large_key_tables 0) = Inr large_key_assembled"
proof -
  have r: "ff_rows (set_index_flatfile large_key_flatfile) = ff_rows large_key_flatfile"
    by (simp add: set_index_flatfile_def)
  have d: "reindex (set_index_celldist scenario_celldist) [10, 11, 12]
         = reindex scenario_celldist [10, 11, 12]"
    by (simp add: set_index_celldist_def reindex_def)
  have i: "ci_rows (set_index_cellinfo scenario_cellinfo) = ci_rows scenario_cellinfo"
    by (simp add: set_index_cellinfo_def)
  have k: "map rsn (ff_rows large_key_flatfile) = [10, 11, 12]"
    "map eqid (ff_rows large_key_flatfile) = [9007199254740993, 9007199254740992, 9007199254740993]"
    "map ssn (ff_rows large_key_flatfile) = [4, 4, 2]"
    by (simp_all add: large_key_flatfile_def)
  show ?thesis
    unfolding assemble_def large_key_tables_def
    by (simp add: r d i k large_key_unique scenario_unique_sta
        scenario_reindex scenario_filter to_numpy_def Let_def upt_conv_Cons scenario_assembled_def
        scenario_payload_def large_key_assembled_def)
      (simp add: large_key_flatfile_def scenario_cells_def scenario_keys large_key_doubles)
qed

text \<open>
  Claim C3 says that the list of group keys, and with it the group indices and the rows of
  the coordinate matrices, is in the order in which the keys first occur in the table. In
  the example the records carry the earthquakes 7, 3, 7 and the stations 4, 4, 2: the
  program's lists are 3, 7 and 2, 4, and the first rows of \<^verbatim>\<open>X_e\<close> and \<^verbatim>\<open>X_s\<close> belong to the
  second and the third record.
\<close>

theorem group_keys_first_occurrence_counterexample:
  "map_sum id eq_keys (snd (assemble scenario_tables 0)) = Inr [3, 7]
   \<and> map real_of_int (first_occurrence_order (map eqid (ff_rows (df_flatfile scenario_tables))))
       = [7, 3]
   \<and> map_sum id sta_keys (snd (assemble scenario_tables 0)) = Inr [2, 4]
   \<and> map real_of_int (first_occurrence_order (map ssn (ff_rows (df_flatfile scenario_tables))))
       = [4, 2]
   \<and> map_sum id sd_X_e (assembled_payload scenario_tables 0) = Inr [[3, 4], [1, 2]]
   \<and> map_sum id sd_X_s (assembled_payload scenario_tables 0) = Inr [[7, 8], [5, 6]]"
proof -
  have "map eqid (ff_rows (df_flatfile scenario_tables)) = [7, 3, 7]"
    "map ssn (ff_rows (df_flatfile scenario_tables)) = [4, 4, 2]"
    by (simp_all add: scenario_tables_def scenario_flatfile_def)
  then show ?thesis
    by (simp add: scenario_assemble assembled_payload_def eq_keys_def sta_keys_def
        first_occurrence_order_def scenario_assembled_def scenario_payload_def)
qed

text \<open>
  Claim C3 as amended. The groups are numbered in strictly ascending order of the integer
  key, every key of the table once: the keys of the records at the positions \<^verbatim>\<open>eq_idx\<close>
  (\<^verbatim>\<open>sta_idx\<close>) ascend strictly, and the group index of a record is the position of its key
  among them. Group \<open>k\<close> takes its row of the coordinate matrix from the record at position
  \<^verbatim>\<open>eq_idx[k]\<close> (\<^verbatim>\<open>sta_idx[k]\<close>), which is the first record of the table with the group's key.
  The key column that the program keeps (the first column of \<^verbatim>\<open>data_eq\<close> and \<^verbatim>\<open>data_sta\<close>)
  holds these keys as doubles: it ascends, and it ascends strictly and holds the keys
  themselves when no key exceeds \<open>2\<^sup>5\<^sup>3\<close> in size.
\<close>

theorem group_keys_ascending:
  assumes "snd (assemble tabs c) = Inr a"
  shows "sorted_wrt (<) (map (\<lambda>i. eqid (ff_rows (df_flatfile tabs) ! i)) (eq_idx a))
       \<and> sorted_wrt (<) (map (\<lambda>i. ssn (ff_rows (df_flatfile tabs) ! i)) (sta_idx a))
       \<and> set (map (\<lambda>i. eqid (ff_rows (df_flatfile tabs) ! i)) (eq_idx a))
           = eqid ` set (ff_rows (df_flatfile tabs))
       \<and> set (map (\<lambda>i. ssn (ff_rows (df_flatfile tabs) ! i)) (sta_idx a))
           = ssn ` set (ff_rows (df_flatfile tabs))
       \<and> length (eq_idx a) = n_eq a \<and> length (sta_idx a) = n_sta a
       \<and> eq_keys a = map (\<lambda>i. to_float64 (eqid (ff_rows (df_flatfile tabs) ! i))) (eq_idx a)
       \<and> sta_keys a = map (\<lambda>i. to_float64 (ssn (ff_rows (df_flatfile tabs) ! i))) (sta_idx a)
       \<and> sorted (eq_keys a) \<and> sorted (sta_keys a)
       \<and> ((\<forall>r \<in> set (ff_rows (df_flatfile tabs)). \<bar>eqid r\<bar> \<le> 2 ^ 53)
            \<longrightarrow> sorted_wrt (<) (eq_keys a)
              \<and> eq_keys a = map (\<lambda>i. real_of_int (eqid (ff_rows (df_flatfile tabs) ! i))) (eq_idx a))
       \<and> ((\<forall>r \<in> set (ff_rows (df_flatfile tabs)). \<bar>ssn r\<bar> \<le> 2 ^ 53)
            \<longrightarrow> sorted_wrt (<) (sta_keys a)
              \<and> sta_keys a = map (\<lambda>i. real_of_int (ssn (ff_rows (df_flatfile tabs) ! i))) (sta_idx a))
       \<and> (\<forall>i<n_data a.
              eqid (ff_rows (df_flatfile tabs) ! (eq_idx a ! (eq_inv a ! i)))
                = eqid (ff_rows (df_flatfile tabs) ! i)
            \<and> ssn (ff_rows (df_flatfile tabs) ! (sta_idx a ! (sta_inv a ! i)))
                = ssn (ff_rows (df_flatfile tabs) ! i))
       \<and> (\<forall>k<n_eq a. eq_idx a ! k < n_data a
              \<and> (\<forall>j<eq_idx a ! k. eqid (ff_rows (df_flatfile tabs) ! j)
                                   \<noteq> eqid (ff_rows (df_flatfile tabs) ! (eq_idx a ! k)))
              \<and> sd_X_e (payload a) ! k = [eqX (ff_rows (df_flatfile tabs) ! (eq_idx a ! k)),
                                          eqY (ff_rows (df_flatfile tabs) ! (eq_idx a ! k))])
       \<and> (\<forall>k<n_sta a. sta_idx a ! k < n_data a
              \<and> (\<forall>j<sta_idx a ! k. ssn (ff_rows (df_flatfile tabs) ! j)
                                    \<noteq> ssn (ff_rows (df_flatfile tabs) ! (sta_idx a ! k)))
              \<and> sd_X_s (payload a) ! k = [staX (ff_rows (df_flatfile tabs) ! (sta_idx a ! k)),
                                          staY (ff_rows (df_flatfile tabs) ! (sta_idx a ! k))])"
proof -
  let ?rows = "ff_rows (df_flatfile tabs)"
  let ?ek = "map (\<lambda>i. eqid (?rows ! i)) (eq_idx a)"
  let ?sk = "map (\<lambda>i. ssn (?rows ! i)) (sta_idx a)"
  note f = assemble_fields[OF assms] and g = assemble_groups[OF assms]
  have ek: "?ek = fst (np_unique (map eqid ?rows))" unfolding f(3) by (rule keys_at_index)
  have sk: "?sk = fst (np_unique (map ssn ?rows))" unfolding f(6) by (rule keys_at_index)
  have s1: "sorted_wrt (<) ?ek" "sorted_wrt (<) ?sk"
    unfolding ek sk by (rule np_unique_keys_strict)+
  have s2: "set ?ek = eqid ` set ?rows" "set ?sk = ssn ` set ?rows"
    unfolding ek sk by (simp_all add: np_unique_keys_set)
  have l: "length (eq_idx a) = n_eq a" "length (sta_idx a) = n_sta a"
    by (simp_all add: f np_unique_lengths)
  have fk: "eq_keys a = map (\<lambda>i. to_float64 (eqid (?rows ! i))) (eq_idx a)"
    unfolding eq_keys_def g(1) f(3) by (rule key_column) simp
  have fs: "sta_keys a = map (\<lambda>i. to_float64 (ssn (?rows ! i))) (sta_idx a)"
    unfolding sta_keys_def g(2) f(6) by (rule key_column) simp
  have fk': "eq_keys a = map to_float64 ?ek" by (simp add: fk comp_def)
  have fs': "sta_keys a = map to_float64 ?sk" by (simp add: fs comp_def)
  have s3: "sorted (eq_keys a)" "sorted (sta_keys a)"
    unfolding fk' fs' by (rule sorted_to_float64[OF s1(1)], rule sorted_to_float64[OF s1(2)])
  have s4: "sorted_wrt (<) (eq_keys a)
          \<and> eq_keys a = map (\<lambda>i. real_of_int (eqid (?rows ! i))) (eq_idx a)"
    if "\<forall>r \<in> set ?rows. \<bar>eqid r\<bar> \<le> 2 ^ 53"
  proof -
    have b: "\<forall>x \<in> set ?ek. \<bar>x\<bar> \<le> 2 ^ 53" unfolding s2 using that by blast
    show ?thesis
      using strict_sorted_to_float64[OF s1(1) b] by (simp add: fk' comp_def)
  qed
  have s5: "sorted_wrt (<) (sta_keys a)
          \<and> sta_keys a = map (\<lambda>i. real_of_int (ssn (?rows ! i))) (sta_idx a)"
    if "\<forall>r \<in> set ?rows. \<bar>ssn r\<bar> \<le> 2 ^ 53"
  proof -
    have b: "\<forall>x \<in> set ?sk. \<bar>x\<bar> \<le> 2 ^ 53" unfolding s2 using that by blast
    show ?thesis
      using strict_sorted_to_float64[OF s1(2) b] by (simp add: fs' comp_def)
  qed
  have s6: "\<forall>i<n_data a. eqid (?rows ! (eq_idx a ! (eq_inv a ! i))) = eqid (?rows ! i)
                     \<and> ssn (?rows ! (sta_idx a ! (sta_inv a ! i))) = ssn (?rows ! i)"
  proof (intro allI impI)
    fix i assume "i < n_data a"
    then have i: "i < length (map eqid ?rows)" and i': "i < length (map ssn ?rows)"
      by (simp_all add: f(1))
    have ke: "eq_inv a ! i < length (fst (np_unique (map eqid ?rows)))"
      using np_unique_inverse_less[OF i] by (simp add: f(2))
    have ks: "sta_inv a ! i < length (fst (np_unique (map ssn ?rows)))"
      using np_unique_inverse_less[OF i'] by (simp add: f(5))
    have "eqid (?rows ! (eq_idx a ! (eq_inv a ! i))) = fst (np_unique (map eqid ?rows)) ! (eq_inv a ! i)"
      using group_rows(2)[OF ke] by (simp add: f(3))
    moreover have "fst (np_unique (map eqid ?rows)) ! (eq_inv a ! i) = eqid (?rows ! i)"
      using np_unique_inverse_key[OF i] i by (simp add: f(2))
    moreover have "ssn (?rows ! (sta_idx a ! (sta_inv a ! i))) = fst (np_unique (map ssn ?rows)) ! (sta_inv a ! i)"
      using group_rows(2)[OF ks] by (simp add: f(6))
    moreover have "fst (np_unique (map ssn ?rows)) ! (sta_inv a ! i) = ssn (?rows ! i)"
      using np_unique_inverse_key[OF i'] i' by (simp add: f(5))
    ultimately show "eqid (?rows ! (eq_idx a ! (eq_inv a ! i))) = eqid (?rows ! i)
                     \<and> ssn (?rows ! (sta_idx a ! (sta_inv a ! i))) = ssn (?rows ! i)"
      by simp
  qed
  have s7: "\<forall>k<n_eq a. eq_idx a ! k < n_data a
              \<and> (\<forall>j<eq_idx a ! k. eqid (?rows ! j) \<noteq> eqid (?rows ! (eq_idx a ! k)))
              \<and> sd_X_e (payload a) ! k = [eqX (?rows ! (eq_idx a ! k)), eqY (?rows ! (eq_idx a ! k))]"
  proof (intro allI impI)
    fix k assume "k < n_eq a"
    then have k: "k < length (fst (np_unique (map eqid ?rows)))" by (simp add: f(4))
    note r = group_rows(1,2,4)[OF k, folded f(3)]
    note r3 = group_rows(3)[OF k, of "\<lambda>r. [to_float64 (eqid r), mag r, eqX r, eqY r]", folded f(3)]
    have kd: "k < length (eq_idx a)" using k by (simp add: f(3) np_unique_lengths)
    have "sd_X_e (payload a) ! k = [eqX (?rows ! (eq_idx a ! k)), eqY (?rows ! (eq_idx a ! k))]"
      using kd r3 by (simp add: g(3) g(1))
    then show "eq_idx a ! k < n_data a
              \<and> (\<forall>j<eq_idx a ! k. eqid (?rows ! j) \<noteq> eqid (?rows ! (eq_idx a ! k)))
              \<and> sd_X_e (payload a) ! k = [eqX (?rows ! (eq_idx a ! k)), eqY (?rows ! (eq_idx a ! k))]"
      using r(1) r(3) by (simp add: f(1))
  qed
  have s8: "\<forall>k<n_sta a. sta_idx a ! k < n_data a
              \<and> (\<forall>j<sta_idx a ! k. ssn (?rows ! j) \<noteq> ssn (?rows ! (sta_idx a ! k)))
              \<and> sd_X_s (payload a) ! k = [staX (?rows ! (sta_idx a ! k)), staY (?rows ! (sta_idx a ! k))]"
  proof (intro allI impI)
    fix k assume "k < n_sta a"
    then have k: "k < length (fst (np_unique (map ssn ?rows)))" by (simp add: f(7))
    note r = group_rows(1,2,4)[OF k, folded f(6)]
    note r3 = group_rows(3)[OF k, of "\<lambda>r. [to_float64 (ssn r), Vs30 r, staX r, staY r]", folded f(6)]
    have kd: "k < length (sta_idx a)" using k by (simp add: f(6) np_unique_lengths)
    have "sd_X_s (payload a) ! k = [staX (?rows ! (sta_idx a ! k)), staY (?rows ! (sta_idx a ! k))]"
      using kd r3 by (simp add: g(4) g(2))
    then show "sta_idx a ! k < n_data a
              \<and> (\<forall>j<sta_idx a ! k. ssn (?rows ! j) \<noteq> ssn (?rows ! (sta_idx a ! k)))
              \<and> sd_X_s (payload a) ! k = [staX (?rows ! (sta_idx a ! k)), staY (?rows ! (sta_idx a ! k))]"
      using r(1) r(3) by (simp add: f(1))
  qed
  show ?thesis using s1 s2 l fk fs s3 s4 s5 s6 s7 s8 by blast
qed

theorem group_keys_ascending_witness:
  "snd (assemble scenario_tables 0) = Inr scenario_assembled
   \<and> map eqid (ff_rows (df_flatfile scenario_tables)) = [7, 3, 7]
   \<and> map ssn (ff_rows (df_flatfile scenario_tables)) = [4, 4, 2]
   \<and> eq_idx scenario_assembled = [1, 0] \<and> sta_idx scenario_assembled = [2, 0]
   \<and> sorted_wrt (<) (eq_keys scenario_assembled) \<and> sorted_wrt (<) (sta_keys scenario_assembled)
   \<and> eq_keys scenario_assembled = [3, 7] \<and> sta_keys scenario_assembled = [2, 4]
   \<and> snd (assemble large_key_tables 0) = Inr large_key_assembled
   \<and> map eqid (ff_rows (df_flatfile large_key_tables))
       = [9007199254740993, 9007199254740992, 9007199254740993]
   \<and> sorted (eq_keys large_key_assembled)
   \<and> eq_keys large_key_assembled = [9007199254740992, 9007199254740992]"
proof -
  have b: "\<forall>r \<in> set (ff_rows (df_flatfile scenario_tables)). \<bar>eqid r\<bar> \<le> 2 ^ 53"
    "\<forall>r \<in> set (ff_rows (df_flatfile scenario_tables)). \<bar>ssn r\<bar> \<le> 2 ^ 53"
    by (simp_all add: scenario_tables_def scenario_flatfile_def)
  have "sorted_wrt (<) (eq_keys scenario_assembled) \<and> sorted_wrt (<) (sta_keys scenario_assembled)"
    using group_keys_ascending[OF scenario_assemble] b by blast
  moreover have "sorted (eq_keys large_key_assembled)"
    using group_keys_ascending[OF large_key_assemble] by blast
  moreover have "eq_keys scenario_assembled = [3, 7] \<and> sta_keys scenario_assembled = [2, 4]
      \<and> eq_idx scenario_assembled = [1, 0] \<and> sta_idx scenario_assembled = [2, 0]"
    by (simp add: eq_keys_def sta_keys_def scenario_assembled_def)
  moreover have "eq_keys large_key_assembled = [9007199254740992, 9007199254740992]"
    by (simp add: eq_keys_def large_key_assembled_def scenario_assembled_def)
  moreover have "map eqid (ff_rows (df_flatfile scenario_tables)) = [7, 3, 7]
      \<and> map ssn (ff_rows (df_flatfile scenario_tables)) = [4, 4, 2]"
    by (simp add: scenario_tables_def scenario_flatfile_def)
  moreover have "map eqid (ff_rows (df_flatfile large_key_tables))
       = [9007199254740993, 9007199254740992, 9007199254740993]"
    by (simp add: large_key_tables_def large_key_flatfile_def)
  ultimately show ?thesis using scenario_assemble large_key_assemble b by blast
qed

section \<open>Records absent from the distance table\<close>

lemma set_index_keeps:
  "ff_rows (set_index_flatfile f) = ff_rows f"
  "cd_rsn (set_index_celldist d) = cd_rsn d"
  "cd_columns (set_index_celldist d) = cd_columns d"
  "ci_rows (set_index_cellinfo i) = ci_rows i"
  by (simp_all add: set_index_flatfile_def set_index_celldist_def set_index_cellinfo_def)

lemma reindex_set_index: "reindex (set_index_celldist d) target = reindex d target"
  by (simp add: reindex_def set_index_keeps)

lemma assemble_cells:
  assumes "snd (assemble tabs c) = Inr a"
  shows "\<exists>frame. reindex (df_celldist tabs) (map rsn (ff_rows (df_flatfile tabs))) = Inr frame
           \<and> cell_network_filter (ci_rows (df_cellinfo tabs)) frame = Inr (cells a)
           \<and> sd_RC (payload a) = to_numpy (length (fr_index frame)) (cf_celldist_valid (cells a))
           \<and> sd_NCELL (payload a) = cf_n_cell_valid (cells a)
           \<and> sd_X_c (payload a) = cf_X_cells_valid (cells a)"
  using assms unfolding assemble_def Let_def
  by (auto simp: set_index_keeps reindex_set_index split: sum.splits)

lemma reindex_fails_iff:
  "(\<exists>e. reindex d target = Inl e)
     = (cd_rsn d \<noteq> target \<and> \<not> distinct (cd_rsn d) \<and> target \<noteq> [])"
  by (auto simp: reindex_def)

lemma reindex_index: "reindex d target = Inr frame \<Longrightarrow> fr_index frame = target"
  by (auto simp: reindex_def split: if_splits)

lemma reindex_absent:
  assumes "reindex d target = Inr frame" and "i < length target"
    and "target ! i \<notin> set (cd_rsn d)" and "col \<in> set (fr_columns frame)"
  shows "snd col ! i = None"
proof -
  have "cd_rsn d \<noteq> target" using assms(2,3) nth_mem by fastforce
  then have "fr_columns frame
      = map (\<lambda>c. (fst c, reindex_column (cd_rsn d) target (snd c))) (cd_columns d)"
    using assms(1) by (auto simp: reindex_def split: if_splits)
  then obtain c0 where "col = (fst c0, reindex_column (cd_rsn d) target (snd c0))"
    using assms(4) by auto
  then show ?thesis using assms(2,3) by (simp add: reindex_column_def)
qed

lemma select_columns_subset: "select_columns cols names = Inr r \<Longrightarrow> set r \<subseteq> set cols"
  by (auto simp: select_columns_def split: if_splits)

lemma cell_network_filter_Inr:
  assumes "cell_network_filter info frame = Inr cf"
  shows "\<exists>celldist_all named.
           select_columns (fr_columns frame) (map cellname info) = Inr celldist_all
         \<and> cf_i_cells_valid cf = np_where_positive (map (\<lambda>c. nansum (snd c)) celldist_all)
         \<and> take_pos (map cellid info) (cf_i_cells_valid cf) = Inr (cf_cell_ids_valid cf)
         \<and> loc_rows info (map int (cf_i_cells_valid cf)) = Inr named
         \<and> cf_cell_names_valid cf = map cellname named
         \<and> select_columns celldist_all (cf_cell_names_valid cf) = Inr (cf_celldist_valid cf)
         \<and> cf_n_cell cf = length celldist_all
         \<and> cf_n_cell_valid cf = length (cf_celldist_valid cf)
         \<and> cf_X_cells_valid cf = map (\<lambda>r. [mptX r, mptY r]) named"
  using assms unfolding cell_network_filter_def Let_def
  by (auto split: sum.splits)

lemma filter_columns_subset:
  assumes "cell_network_filter info frame = Inr cf"
  shows "set (cf_celldist_valid cf) \<subseteq> set (fr_columns frame)"
    and "cf_n_cell_valid cf = length (cf_celldist_valid cf)"
proof -
  from cell_network_filter_Inr[OF assms] obtain celldist_all where
    a: "select_columns (fr_columns frame) (map cellname info) = Inr celldist_all" and
    v: "select_columns celldist_all (cf_cell_names_valid cf) = Inr (cf_celldist_valid cf)" and
    n: "cf_n_cell_valid cf = length (cf_celldist_valid cf)"
    by blast
  show "set (cf_celldist_valid cf) \<subseteq> set (fr_columns frame)"
    using select_columns_subset[OF a] select_columns_subset[OF v] by blast
  show "cf_n_cell_valid cf = length (cf_celldist_valid cf)" by (rule n)
qed

lemma missing_reindex:
  "reindex missing_celldist [10, 11, 12] =
     Inr \<lparr>fr_index = [10, 11, 12],
          fr_columns = [(''A'', [Some 2, None, Some 1]), (''B'', [Some 0, None, Some 3]),
                        (''C'', [Some 0, None, Some 0])]\<rparr>"
  by (simp add: reindex_def reindex_column_def missing_celldist_def)

lemma missing_filter:
  "cell_network_filter (ci_rows scenario_cellinfo)
     \<lparr>fr_index = [10, 11, 12],
      fr_columns = [(''A'', [Some 2, None, Some 1]), (''B'', [Some 0, None, Some 3]),
                    (''C'', [Some 0, None, Some 0])]\<rparr> = Inr missing_cells"
  by (simp add: cell_network_filter_def select_columns_def loc_rows_def take_pos_def nansum_def
      np_where_positive_def scenario_cellinfo_def missing_cells_def Let_def upt_conv_Cons)

lemma missing_assemble:
  "snd (assemble missing_tables 0) =
     Inr missing_assembled"
proof -
  have k: "map rsn (ff_rows scenario_flatfile) = [10, 11, 12]"
    "map eqid (ff_rows scenario_flatfile) = [7, 3, 7]"
    "map ssn (ff_rows scenario_flatfile) = [4, 4, 2]"
    by (simp_all add: scenario_flatfile_def)
  show ?thesis
    unfolding assemble_def missing_tables_def
    by (simp add: set_index_keeps reindex_set_index k scenario_unique_eq scenario_unique_sta
        missing_reindex missing_filter to_numpy_def Let_def upt_conv_Cons scenario_assembled_def
        scenario_payload_def missing_assembled_def)
      (simp add: scenario_flatfile_def missing_cells_def scenario_keys)
qed

text \<open>
  Claim C7 says that assembly fails, and builds no payload, when the key of some record is
  absent from the distance table. In the example record 11 has no row in the distance
  table; the payload is built, with \<^verbatim>\<open>N = 3\<close>, \<^verbatim>\<open>NCELL = 2\<close> and a row of NaN for that record
  in \<^verbatim>\<open>RC\<close>.
\<close>

theorem absent_record_counterexample:
  "rsn (ff_rows (df_flatfile missing_tables) ! 1) \<notin> set (cd_rsn (df_celldist missing_tables))
   \<and> map_sum id sd_N (assembled_payload missing_tables 0) = Inr 3
   \<and> map_sum id sd_NCELL (assembled_payload missing_tables 0) = Inr 2
   \<and> map_sum id sd_RC (assembled_payload missing_tables 0)
       = Inr [[Some 2, Some 0], [None, None], [Some 1, Some 3]]"
proof -
  have "rsn (ff_rows (df_flatfile missing_tables) ! 1) \<notin> set (cd_rsn (df_celldist missing_tables))"
    by (simp add: missing_tables_def missing_celldist_def scenario_flatfile_def)
  moreover have "assembled_payload missing_tables 0
      = Inr (scenario_payload\<lparr>sd_RC := [[Some 2, Some 0], [None, None], [Some 1, Some 3]]\<rparr>)"
    by (simp add: assembled_payload_def missing_assemble scenario_assembled_def
        missing_assembled_def)
  ultimately show ?thesis by (simp add: scenario_payload_def)
qed

text \<open>
  Claim C7 as amended. The alignment of line 122 raises only when the keys of the distance
  table repeat. A record whose key is absent from the distance table does not stop the
  assembly: whenever the payload is built, \<^verbatim>\<open>RC\<close> has one row per record and the row of such
  a record holds NaN in every column.
\<close>

theorem absent_record_gives_nan_row:
  "(\<forall>e. reindex (df_celldist tabs) (map rsn (ff_rows (df_flatfile tabs))) = Inl e
        \<longrightarrow> \<not> distinct (cd_rsn (df_celldist tabs)))
   \<and> (\<forall>a i. snd (assemble tabs c) = Inr a \<and> i < n_data a
          \<and> rsn (ff_rows (df_flatfile tabs) ! i) \<notin> set (cd_rsn (df_celldist tabs))
        \<longrightarrow> length (sd_RC (payload a)) = sd_N (payload a)
          \<and> sd_RC (payload a) ! i = replicate (sd_NCELL (payload a)) None)"
proof (intro conjI allI impI)
  fix e assume "reindex (df_celldist tabs) (map rsn (ff_rows (df_flatfile tabs))) = Inl e"
  then show "\<not> distinct (cd_rsn (df_celldist tabs))"
    using reindex_fails_iff[of "df_celldist tabs" "map rsn (ff_rows (df_flatfile tabs))"] by blast
next
  fix a i
  let ?rows = "ff_rows (df_flatfile tabs)"
  assume h: "snd (assemble tabs c) = Inr a \<and> i < n_data a
          \<and> rsn (?rows ! i) \<notin> set (cd_rsn (df_celldist tabs))"
  then have s: "snd (assemble tabs c) = Inr a" by blast
  note f = assemble_fields[OF s]
  from assemble_cells[OF s] obtain frame where
    r: "reindex (df_celldist tabs) (map rsn ?rows) = Inr frame" and
    cf: "cell_network_filter (ci_rows (df_cellinfo tabs)) frame = Inr (cells a)" and
    rc: "sd_RC (payload a) = to_numpy (length (fr_index frame)) (cf_celldist_valid (cells a))" and
    nc: "sd_NCELL (payload a) = cf_n_cell_valid (cells a)"
    by blast
  have i: "i < length (map rsn ?rows)" using h f(1) by simp
  have ab: "map rsn ?rows ! i \<notin> set (cd_rsn (df_celldist tabs))" using h i by simp
  have len: "length (fr_index frame) = length ?rows" using reindex_index[OF r] by simp
  have "\<forall>col \<in> set (cf_celldist_valid (cells a)). snd col ! i = None"
    using reindex_absent[OF r i ab] filter_columns_subset(1)[OF cf] by blast
  then have "map (\<lambda>col. snd col ! i) (cf_celldist_valid (cells a))
           = replicate (length (cf_celldist_valid (cells a))) None"
    by (simp add: map_replicate_const[symmetric] cong: map_cong)
  then have row: "sd_RC (payload a) ! i = replicate (sd_NCELL (payload a)) None"
    using i len by (simp add: rc to_numpy_def nc filter_columns_subset(2)[OF cf])
  have "length (sd_RC (payload a)) = sd_N (payload a)"
    using len by (simp add: rc to_numpy_def f)
  then show "length (sd_RC (payload a)) = sd_N (payload a)" .
  show "sd_RC (payload a) ! i = replicate (sd_NCELL (payload a)) None" by (rule row)
qed

theorem absent_record_gives_nan_row_witness:
  "snd (assemble missing_tables 0) =
     Inr missing_assembled
   \<and> rsn (ff_rows (df_flatfile missing_tables) ! 1) \<notin> set (cd_rsn (df_celldist missing_tables))
   \<and> sd_RC (payload missing_assembled) ! 1
       = replicate 2 None"
proof -
  let ?a = "missing_assembled"
  have n: "(1::nat) < n_data ?a" by (simp add: scenario_assembled_def missing_assembled_def)
  have ab: "rsn (ff_rows (df_flatfile missing_tables) ! 1) \<notin> set (cd_rsn (df_celldist missing_tables))"
    by (simp add: missing_tables_def missing_celldist_def scenario_flatfile_def)
  have "sd_RC (payload ?a) ! 1 = replicate (sd_NCELL (payload ?a)) None"
    using absent_record_gives_nan_row[of missing_tables 0] missing_assemble n ab by blast
  then have "sd_RC (payload ?a) ! 1 = replicate 2 None"
    by (simp add: scenario_payload_def missing_assembled_def)
  then show ?thesis using missing_assemble ab by blast
qed

section \<open>Cell Network Filter\<close>

text \<open>
  When the cell identifiers are the positions of the cells, and no cell name and no column
  name of the distance table occurs twice, the filter keeps exactly the columns with a
  positive total, in their order (lemma \<open>cell_filter_columns\<close>).
\<close>

lemma filter_key_distinct:
  "distinct (map f xs) \<Longrightarrow> i < length xs \<Longrightarrow> filter (\<lambda>x. f x = f (xs ! i)) xs = [xs ! i]"
proof (induction xs arbitrary: i)
  case Nil
  then show ?case by simp
next
  case (Cons x xs)
  show ?case
  proof (cases i)
    case 0
    have "f x \<notin> f ` set xs" using Cons.prems(1) by simp
    then have "\<forall>y \<in> set xs. f y \<noteq> f x" by (metis imageI)
    then have "filter (\<lambda>y. f y = f x) xs = []" by (simp add: filter_empty_conv)
    then show ?thesis using 0 by simp
  next
    case (Suc k)
    then have k: "k < length xs" using Cons.prems(2) by simp
    then have "f x \<noteq> f (xs ! k)" using Cons.prems(1) by auto
    then show ?thesis using Suc Cons.IH[of k] Cons.prems(1) k by simp
  qed
qed

lemma concat_map_single: "\<forall>x \<in> set xs. g x = [h x] \<Longrightarrow> concat (map g xs) = map h xs"
  by (induction xs) auto

lemma select_columns_distinct:
  assumes "distinct (map fst cols)" and "select_columns cols names = Inr r"
  shows "r = map (\<lambda>n. cols ! first_index (map fst cols) n) names"
proof -
  have all: "\<forall>n \<in> set names. n \<in> set (map fst cols)"
    and r: "r = concat (map (\<lambda>n. filter (\<lambda>c. fst c = n) cols) names)"
    using assms(2) by (auto simp: select_columns_def list_all_iff split: if_splits)
  have one: "filter (\<lambda>c. fst c = n) cols = [cols ! first_index (map fst cols) n]"
    if "n \<in> set names" for n
  proof -
    let ?i = "first_index (map fst cols) n"
    have m: "n \<in> set (map fst cols)" using all that by blast
    then have i: "?i < length cols" using first_index_less[OF m] by simp
    have "map fst cols ! ?i = n" using m by (rule nth_first_index)
    then have "fst (cols ! ?i) = n" using i by simp
    then show ?thesis using filter_key_distinct[OF assms(1) i] by simp
  qed
  have "concat (map (\<lambda>n. filter (\<lambda>c. fst c = n) cols) names)
      = map (\<lambda>n. cols ! first_index (map fst cols) n) names"
    by (rule concat_map_single) (use one in blast)
  then show ?thesis using r by simp
qed

lemma select_columns_names:
  assumes "distinct (map fst cols)" and "select_columns cols names = Inr r"
  shows "map fst r = names"
proof -
  have all: "\<forall>n \<in> set names. n \<in> set (map fst cols)"
    using assms(2) by (auto simp: select_columns_def list_all_iff split: if_splits)
  have "fst (cols ! first_index (map fst cols) n) = n" if "n \<in> set names" for n
  proof -
    have m: "n \<in> set (map fst cols)" using all that by blast
    have "map fst cols ! first_index (map fst cols) n = n" using m by (rule nth_first_index)
    then show ?thesis using first_index_less[OF m] by simp
  qed
  then show ?thesis
    unfolding select_columns_distinct[OF assms] by (simp add: map_idI cong: map_cong)
qed

lemma loc_rows_positions:
  assumes "ids_are_positions info" and "\<forall>p \<in> set ps. p < length info"
  shows "loc_rows info (map int ps) = Inr (map (\<lambda>p. info ! p) ps)"
proof -
  have ids: "map cellid info = map int [0..<length info]"
    using assms(1) by (simp add: ids_are_positions_def)
  have d: "distinct (map cellid info)" unfolding ids by (simp add: distinct_map inj_on_def)
  have at: "cellid (info ! p) = int p" if "p < length info" for p
  proof -
    have "map cellid info ! p = map int [0..<length info] ! p" using ids by simp
    then show ?thesis using that by simp
  qed
  have mem: "list_all (\<lambda>l. l \<in> set (map cellid info)) (map int ps)"
    unfolding ids using assms(2) by (auto simp: list_all_iff)
  have "filter (\<lambda>r. cellid r = int p) info = [info ! p]" if "p \<in> set ps" for p
  proof -
    have p: "p < length info" using assms(2) that by blast
    show ?thesis using filter_key_distinct[OF d p] at[OF p] by simp
  qed
  then have "\<forall>p \<in> set ps. filter (\<lambda>r. cellid r = int p) info = [info ! p]" by blast
  then have "concat (map (\<lambda>p. filter (\<lambda>r. cellid r = int p) info) ps) = map (\<lambda>p. info ! p) ps"
    by (rule concat_map_single)
  then show ?thesis using mem by (simp add: loc_rows_def comp_def)
qed

lemma cell_filter_by_position:
  assumes cf: "cell_network_filter info frame = Inr cf" and P: "ids_are_positions info"
  shows "\<forall>p \<in> set (cf_i_cells_valid cf). p < length info"
    and "cf_cell_ids_valid cf = map int (cf_i_cells_valid cf)"
    and "cf_cell_names_valid cf = map (\<lambda>p. cellname (info ! p)) (cf_i_cells_valid cf)"
    and "cf_X_cells_valid cf = map (\<lambda>p. [mptX (info ! p), mptY (info ! p)]) (cf_i_cells_valid cf)"
proof -
  from cell_network_filter_Inr[OF cf] obtain named where
    t: "take_pos (map cellid info) (cf_i_cells_valid cf) = Inr (cf_cell_ids_valid cf)" and
    l: "loc_rows info (map int (cf_i_cells_valid cf)) = Inr named" and
    n: "cf_cell_names_valid cf = map cellname named" and
    x: "cf_X_cells_valid cf = map (\<lambda>r. [mptX r, mptY r]) named"
    by blast
  show r: "\<forall>p \<in> set (cf_i_cells_valid cf). p < length info"
    using t by (auto simp: take_pos_def list_all_iff split: if_splits)
  have ids: "map cellid info = map int [0..<length info]"
    using P by (simp add: ids_are_positions_def)
  have "cf_cell_ids_valid cf = map (\<lambda>p. map cellid info ! p) (cf_i_cells_valid cf)"
    using t by (auto simp: take_pos_def split: if_splits)
  also have "\<dots> = map int (cf_i_cells_valid cf)"
    unfolding ids using r by (simp cong: map_cong)
  finally show "cf_cell_ids_valid cf = map int (cf_i_cells_valid cf)" .
  have named: "named = map (\<lambda>p. info ! p) (cf_i_cells_valid cf)"
    using l loc_rows_positions[OF P r] by simp
  show "cf_cell_names_valid cf = map (\<lambda>p. cellname (info ! p)) (cf_i_cells_valid cf)"
    by (simp add: n named comp_def)
  show "cf_X_cells_valid cf = map (\<lambda>p. [mptX (info ! p), mptY (info ! p)]) (cf_i_cells_valid cf)"
    by (simp add: x named comp_def)
qed

lemma cell_filter_columns:
  assumes cf: "cell_network_filter info frame = Inr cf" and P: "ids_are_positions info"
    and dn: "distinct (map cellname info)" and dc: "distinct (map fst (fr_columns frame))"
  shows "\<exists>celldist_all.
           select_columns (fr_columns frame) (map cellname info) = Inr celldist_all
         \<and> map fst celldist_all = map cellname info
         \<and> cf_i_cells_valid cf
             = filter (\<lambda>j. 0 < nansum (snd (celldist_all ! j))) [0..<length info]
         \<and> cf_celldist_valid cf = map (\<lambda>p. celldist_all ! p) (cf_i_cells_valid cf)
         \<and> cf_n_cell cf = length info
         \<and> cf_n_cell_valid cf = length (cf_i_cells_valid cf)"
proof -
  from cell_network_filter_Inr[OF cf] obtain celldist_all where
    a: "select_columns (fr_columns frame) (map cellname info) = Inr celldist_all" and
    i: "cf_i_cells_valid cf = np_where_positive (map (\<lambda>c. nansum (snd c)) celldist_all)" and
    v: "select_columns celldist_all (cf_cell_names_valid cf) = Inr (cf_celldist_valid cf)" and
    n: "cf_n_cell cf = length celldist_all" and
    nv: "cf_n_cell_valid cf = length (cf_celldist_valid cf)"
    by blast
  note pos = cell_filter_by_position[OF cf P]
  have names: "map fst celldist_all = map cellname info" by (rule select_columns_names[OF dc a])
  then have len: "length celldist_all = length info" using length_map by metis
  have da: "distinct (map fst celldist_all)" using names dn by simp
  have iv: "cf_i_cells_valid cf = filter (\<lambda>j. 0 < nansum (snd (celldist_all ! j))) [0..<length info]"
    unfolding i np_where_positive_def using len by (auto intro: filter_cong)
  have "cf_celldist_valid cf
      = map (\<lambda>n. celldist_all ! first_index (map fst celldist_all) n) (cf_cell_names_valid cf)"
    by (rule select_columns_distinct[OF da v])
  also have "\<dots> = map (\<lambda>p. celldist_all ! first_index (map cellname info) (cellname (info ! p)))
                       (cf_i_cells_valid cf)"
    by (simp add: names pos(3) comp_def)
  also have "\<dots> = map (\<lambda>p. celldist_all ! p) (cf_i_cells_valid cf)"
  proof (rule map_cong[OF refl])
    fix p assume "p \<in> set (cf_i_cells_valid cf)"
    then have p: "p < length (map cellname info)" using pos(1) by simp
    have "first_index (map cellname info) (map cellname info ! p) = p"
      using dn p by (rule first_index_nth_distinct)
    then show "celldist_all ! first_index (map cellname info) (cellname (info ! p)) = celldist_all ! p"
      using p by simp
  qed
  finally have cv: "cf_celldist_valid cf = map (\<lambda>p. celldist_all ! p) (cf_i_cells_valid cf)" .
  show ?thesis using a names iv cv n nv len by auto
qed

lemma swapped_filter:
  "cell_network_filter (ci_rows swapped_cellinfo)
     \<lparr>fr_index = [10, 11, 12],
      fr_columns = [(''A'', [Some 2, Some 0, Some 1]), (''B'', [Some 0, Some 4, Some 3]),
                    (''C'', [Some 0, Some 0, Some 0])]\<rparr> = Inr swapped_cells"
  by (simp add: cell_network_filter_def select_columns_def loc_rows_def take_pos_def nansum_def
      np_where_positive_def swapped_cellinfo_def swapped_cells_def Let_def upt_conv_Cons)

lemma swapped_assemble: "snd (assemble swapped_tables 0) = Inr swapped_assembled"
proof -
  have k: "map rsn (ff_rows scenario_flatfile) = [10, 11, 12]"
    "map eqid (ff_rows scenario_flatfile) = [7, 3, 7]"
    "map ssn (ff_rows scenario_flatfile) = [4, 4, 2]"
    by (simp_all add: scenario_flatfile_def)
  show ?thesis
    unfolding assemble_def swapped_tables_def
    by (simp add: set_index_keeps reindex_set_index k scenario_unique_eq scenario_unique_sta
        scenario_reindex swapped_filter to_numpy_def Let_def upt_conv_Cons scenario_assembled_def
        scenario_payload_def swapped_assembled_def)
      (simp add: scenario_flatfile_def swapped_cells_def scenario_keys)
qed

lemma assemble_info:
  assumes "snd (assemble tabs c) = Inr a"
  shows "\<exists>frame. reindex (df_celldist tabs) (map rsn (ff_rows (df_flatfile tabs))) = Inr frame
           \<and> cell_network_filter (ci_rows (df_cellinfo tabs)) frame = Inr (cells a)"
  using assemble_cells[OF assms] by blast

lemma reindex_column_names:
  "reindex d target = Inr frame \<Longrightarrow> map fst (fr_columns frame) = map fst (cd_columns d)"
  by (auto simp: reindex_def split: if_splits)

text \<open>
  Claim C4, at an input on which the program departs from it. The distance table gives the
  cells \<open>A\<close>, \<open>B\<close>, \<open>C\<close> the totals 3, 7 and 0. The positions with a positive total are found
  as they should be (0 and 2, the cells \<open>A\<close> and \<open>B\<close>), but line 132 reads them as labels of
  the cell table's index: with the identifiers 1, 0, 2 the column of \<open>C\<close>, whose total is 0,
  is kept, and the column of \<open>A\<close> is dropped. \<^verbatim>\<open>cell_ids_valid\<close>, taken by position, still names
  the cells 1 and 2.
\<close>

theorem filter_keeps_zero_cell:
  "map (\<lambda>c. (fst c, sum_list (snd c))) (cd_columns (df_celldist swapped_tables))
     = [(''A'', 3), (''B'', 7), (''C'', 0)]
   \<and> snd (assemble swapped_tables 0) = Inr swapped_assembled
   \<and> map fst (cf_celldist_valid (cells swapped_assembled)) = [''C'', ''B'']
   \<and> map (\<lambda>c. nansum (snd c)) (cf_celldist_valid (cells swapped_assembled)) = [0, 7]
   \<and> sd_NCELL (payload swapped_assembled) = 2
   \<and> sd_RC (payload swapped_assembled) = [[Some 0, Some 0], [Some 0, Some 4], [Some 0, Some 3]]
   \<and> cf_cell_ids_valid (cells swapped_assembled) = [1, 2]"
proof -
  have "map (\<lambda>c. (fst c, sum_list (snd c))) (cd_columns (df_celldist swapped_tables))
     = [(''A'', 3), (''B'', 7), (''C'', 0)]"
    by (simp add: swapped_tables_def scenario_celldist_def)
  moreover have "map fst (cf_celldist_valid (cells swapped_assembled)) = [''C'', ''B'']
   \<and> map (\<lambda>c. nansum (snd c)) (cf_celldist_valid (cells swapped_assembled)) = [0, 7]
   \<and> sd_NCELL (payload swapped_assembled) = 2
   \<and> sd_RC (payload swapped_assembled) = [[Some 0, Some 0], [Some 0, Some 4], [Some 0, Some 3]]
   \<and> cf_cell_ids_valid (cells swapped_assembled) = [1, 2]"
    by (simp add: swapped_assembled_def swapped_cells_def scenario_payload_def nansum_def)
  ultimately show ?thesis using swapped_assemble by blast
qed

lemma gap_filter:
  "cell_network_filter (ci_rows gap_cellinfo)
     \<lparr>fr_index = [10, 11, 12],
      fr_columns = [(''A'', [Some 2, Some 0, Some 1]), (''B'', [Some 0, Some 4, Some 3]),
                    (''C'', [Some 0, Some 0, Some 0])]\<rparr> = Inr scenario_cells"
  by (simp add: cell_network_filter_def select_columns_def loc_rows_def take_pos_def nansum_def
      np_where_positive_def gap_cellinfo_def scenario_cells_def Let_def upt_conv_Cons)

lemma gap_assemble: "snd (assemble gap_tables 0) = Inr scenario_assembled"
proof -
  have k: "map rsn (ff_rows scenario_flatfile) = [10, 11, 12]"
    "map eqid (ff_rows scenario_flatfile) = [7, 3, 7]"
    "map ssn (ff_rows scenario_flatfile) = [4, 4, 2]"
    by (simp_all add: scenario_flatfile_def)
  show ?thesis
    unfolding assemble_def gap_tables_def
    by (simp add: set_index_keeps reindex_set_index k scenario_unique_eq scenario_unique_sta
        scenario_reindex gap_filter to_numpy_def Let_def upt_conv_Cons scenario_assembled_def
        scenario_payload_def)
      (simp add: scenario_flatfile_def scenario_cells_def scenario_keys)
qed

lemma loc_rows_subset: "loc_rows rows labels = Inr r \<Longrightarrow> set r \<subseteq> set rows"
  by (auto simp: loc_rows_def split: if_splits)

lemma to_numpy_nth:
  "i < n \<Longrightarrow> j < length cols \<Longrightarrow> to_numpy n cols ! i ! j = snd (cols ! j) ! i"
  by (simp add: to_numpy_def)

lemma kept_cells:
  assumes s: "snd (assemble tabs c) = Inr a"
    and dn: "distinct (map cellname (ci_rows (df_cellinfo tabs)))"
    and dc: "distinct (map fst (cd_columns (df_celldist tabs)))"
  shows "\<exists>kept frame.
           loc_rows (ci_rows (df_cellinfo tabs)) (map int (cf_i_cells_valid (cells a))) = Inr kept
         \<and> reindex (df_celldist tabs) (map rsn (ff_rows (df_flatfile tabs))) = Inr frame
         \<and> set kept \<subseteq> set (ci_rows (df_cellinfo tabs))
         \<and> set (cf_celldist_valid (cells a)) \<subseteq> set (fr_columns frame)
         \<and> length kept = sd_NCELL (payload a)
         \<and> sd_X_c (payload a) = map (\<lambda>r. [mptX r, mptY r]) kept
         \<and> map fst (cf_celldist_valid (cells a)) = map cellname kept
         \<and> sd_RC (payload a) = to_numpy (sd_N (payload a)) (cf_celldist_valid (cells a))"
proof -
  let ?info = "ci_rows (df_cellinfo tabs)"
  from assemble_cells[OF s] obtain frame where
    r: "reindex (df_celldist tabs) (map rsn (ff_rows (df_flatfile tabs))) = Inr frame" and
    cf: "cell_network_filter ?info frame = Inr (cells a)" and
    rc: "sd_RC (payload a) = to_numpy (length (fr_index frame)) (cf_celldist_valid (cells a))" and
    nc: "sd_NCELL (payload a) = cf_n_cell_valid (cells a)" and
    xc: "sd_X_c (payload a) = cf_X_cells_valid (cells a)"
    by blast
  from cell_network_filter_Inr[OF cf] obtain celldist_all kept where
    al: "select_columns (fr_columns frame) (map cellname ?info) = Inr celldist_all" and
    l: "loc_rows ?info (map int (cf_i_cells_valid (cells a))) = Inr kept" and
    n: "cf_cell_names_valid (cells a) = map cellname kept" and
    v: "select_columns celldist_all (cf_cell_names_valid (cells a)) = Inr (cf_celldist_valid (cells a))" and
    nv: "cf_n_cell_valid (cells a) = length (cf_celldist_valid (cells a))" and
    x: "cf_X_cells_valid (cells a) = map (\<lambda>r. [mptX r, mptY r]) kept"
    by blast
  have dcf: "distinct (map fst (fr_columns frame))" using reindex_column_names[OF r] dc by simp
  have names: "map fst celldist_all = map cellname ?info" by (rule select_columns_names[OF dcf al])
  then have da: "distinct (map fst celldist_all)" using dn by simp
  have vn: "map fst (cf_celldist_valid (cells a)) = map cellname kept"
    using select_columns_names[OF da v] n by simp
  then have len: "length (cf_celldist_valid (cells a)) = length kept" using length_map by metis
  have nd: "length (fr_index frame) = sd_N (payload a)"
    using reindex_index[OF r] assemble_fields(1,11)[OF s] by simp
  have "set (cf_celldist_valid (cells a)) \<subseteq> set (fr_columns frame)"
    by (rule filter_columns_subset(1)[OF cf])
  then show ?thesis
    using l r loc_rows_subset[OF l] len nc nv xc x vn rc nd by auto
qed

text \<open>
  Claim C10 says that the rows of \<^verbatim>\<open>X_c\<close> belong to the columns of the valid-cell distance
  matrix only when the cell identifiers are the positions of the cells. Two inputs whose
  identifiers are not the positions: with the identifiers 0, 5, 2 the program builds the
  payload of the first example, the columns of \<open>A\<close> and \<open>B\<close> with the midpoints of \<open>A\<close> and
  \<open>B\<close>; with the identifiers 1, 0, 2 it keeps the columns of \<open>C\<close> and \<open>B\<close>, and the rows of
  \<^verbatim>\<open>X_c\<close> are the midpoints of \<open>C\<close> and \<open>B\<close>. In both, row \<open>j\<close> of \<^verbatim>\<open>X_c\<close> is the midpoint of the
  cell of column \<open>j\<close> of \<^verbatim>\<open>RC\<close>.
\<close>

theorem aligned_without_precondition_counterexample:
  "\<not> ids_are_positions (ci_rows (df_cellinfo gap_tables))
   \<and> snd (assemble gap_tables 0) = Inr scenario_assembled
   \<and> map (\<lambda>r. (cellname r, [mptX r, mptY r])) (ci_rows (df_cellinfo gap_tables))
       = [(''A'', [10, 11]), (''C'', [20, 21]), (''B'', [30, 31])]
   \<and> map fst (cf_celldist_valid (cells scenario_assembled)) = [''A'', ''B'']
   \<and> sd_RC (payload scenario_assembled) = to_numpy 3 (cf_celldist_valid (cells scenario_assembled))
   \<and> sd_X_c (payload scenario_assembled) = [[10, 11], [30, 31]]
   \<and> \<not> ids_are_positions (ci_rows (df_cellinfo swapped_tables))
   \<and> snd (assemble swapped_tables 0) = Inr swapped_assembled
   \<and> map (\<lambda>r. (cellname r, [mptX r, mptY r])) (ci_rows (df_cellinfo swapped_tables))
       = [(''A'', [10, 11]), (''C'', [20, 21]), (''B'', [30, 31])]
   \<and> map fst (cf_celldist_valid (cells swapped_assembled)) = [''C'', ''B'']
   \<and> sd_RC (payload swapped_assembled) = to_numpy 3 (cf_celldist_valid (cells swapped_assembled))
   \<and> sd_X_c (payload swapped_assembled) = [[20, 21], [30, 31]]"
proof -
  have "\<not> ids_are_positions (ci_rows (df_cellinfo gap_tables))"
    "\<not> ids_are_positions (ci_rows (df_cellinfo swapped_tables))"
    by (simp_all add: ids_are_positions_def gap_tables_def gap_cellinfo_def swapped_tables_def
        swapped_cellinfo_def upt_conv_Cons)
  moreover have "map (\<lambda>r. (cellname r, [mptX r, mptY r])) (ci_rows (df_cellinfo gap_tables))
       = [(''A'', [10, 11]), (''C'', [20, 21]), (''B'', [30, 31])]"
    "map (\<lambda>r. (cellname r, [mptX r, mptY r])) (ci_rows (df_cellinfo swapped_tables))
       = [(''A'', [10, 11]), (''C'', [20, 21]), (''B'', [30, 31])]"
    by (simp_all add: gap_tables_def gap_cellinfo_def swapped_tables_def swapped_cellinfo_def)
  moreover have "map fst (cf_celldist_valid (cells scenario_assembled)) = [''A'', ''B'']"
    "sd_RC (payload scenario_assembled) = to_numpy 3 (cf_celldist_valid (cells scenario_assembled))"
    "sd_X_c (payload scenario_assembled) = [[10, 11], [30, 31]]"
    by (simp_all add: scenario_assembled_def scenario_cells_def scenario_payload_def to_numpy_def
        upt_conv_Cons)
  moreover have "map fst (cf_celldist_valid (cells swapped_assembled)) = [''C'', ''B'']"
    "sd_RC (payload swapped_assembled) = to_numpy 3 (cf_celldist_valid (cells swapped_assembled))"
    "sd_X_c (payload swapped_assembled) = [[20, 21], [30, 31]]"
    by (simp_all add: swapped_assembled_def swapped_cells_def scenario_payload_def to_numpy_def
        upt_conv_Cons)
  ultimately show ?thesis using gap_assemble swapped_assemble by blast
qed

text \<open>
  Claim C10 as amended. The names of the kept columns and the rows of \<^verbatim>\<open>X_c\<close> are read from
  the same rows of the cell table, the rows \<open>kept\<close> that carry the positions with a positive
  total as labels (lines 132 and 138). When no cell name and no column name of the distance
  table repeats, row \<open>j\<close> of \<^verbatim>\<open>X_c\<close> is therefore the midpoint of the cell whose name heads
  column \<open>j\<close> of the valid-cell distance matrix, and column \<open>j\<close> of \<^verbatim>\<open>RC\<close> holds the distances of
  that column of the aligned distance table, for every input for which the payload is
  built. What the precondition adds is that the rows kept are those at the positions with a
  positive total, which are the cells that \<^verbatim>\<open>cell_ids_valid\<close> names.
\<close>

theorem cell_coordinates_follow_columns:
  assumes "snd (assemble tabs c) = Inr a"
    and "distinct (map cellname (ci_rows (df_cellinfo tabs)))"
    and "distinct (map fst (cd_columns (df_celldist tabs)))"
  shows "\<exists>kept frame.
           loc_rows (ci_rows (df_cellinfo tabs)) (map int (cf_i_cells_valid (cells a))) = Inr kept
         \<and> reindex (df_celldist tabs) (map rsn (ff_rows (df_flatfile tabs))) = Inr frame
         \<and> set kept \<subseteq> set (ci_rows (df_cellinfo tabs))
         \<and> length kept = sd_NCELL (payload a)
         \<and> length (sd_X_c (payload a)) = sd_NCELL (payload a)
         \<and> length (cf_celldist_valid (cells a)) = sd_NCELL (payload a)
         \<and> (\<forall>j<sd_NCELL (payload a).
               sd_X_c (payload a) ! j = [mptX (kept ! j), mptY (kept ! j)]
             \<and> fst (cf_celldist_valid (cells a) ! j) = cellname (kept ! j)
             \<and> cf_celldist_valid (cells a) ! j \<in> set (fr_columns frame)
             \<and> (\<forall>i<sd_N (payload a).
                   sd_RC (payload a) ! i ! j = snd (cf_celldist_valid (cells a) ! j) ! i))
         \<and> (ids_are_positions (ci_rows (df_cellinfo tabs)) \<longrightarrow>
               kept = map (\<lambda>p. ci_rows (df_cellinfo tabs) ! p) (cf_i_cells_valid (cells a))
             \<and> cf_cell_ids_valid (cells a) = map cellid kept)"
proof -
  let ?info = "ci_rows (df_cellinfo tabs)"
  let ?n = "sd_NCELL (payload a)"
  from kept_cells[OF assms] obtain kept frame where
    l: "loc_rows ?info (map int (cf_i_cells_valid (cells a))) = Inr kept" and
    r: "reindex (df_celldist tabs) (map rsn (ff_rows (df_flatfile tabs))) = Inr frame" and
    sub: "set kept \<subseteq> set ?info" and
    cols: "set (cf_celldist_valid (cells a)) \<subseteq> set (fr_columns frame)" and
    len: "length kept = ?n" and
    x: "sd_X_c (payload a) = map (\<lambda>r. [mptX r, mptY r]) kept" and
    nm: "map fst (cf_celldist_valid (cells a)) = map cellname kept" and
    rc: "sd_RC (payload a) = to_numpy (sd_N (payload a)) (cf_celldist_valid (cells a))"
    by blast
  have lx: "length (sd_X_c (payload a)) = ?n" by (simp add: x len)
  have lc: "length (cf_celldist_valid (cells a)) = ?n" using nm len length_map by metis
  have col: "sd_X_c (payload a) ! j = [mptX (kept ! j), mptY (kept ! j)]
             \<and> fst (cf_celldist_valid (cells a) ! j) = cellname (kept ! j)
             \<and> cf_celldist_valid (cells a) ! j \<in> set (fr_columns frame)
             \<and> (\<forall>i<sd_N (payload a).
                   sd_RC (payload a) ! i ! j = snd (cf_celldist_valid (cells a) ! j) ! i)"
    if j: "j < ?n" for j
  proof -
    have "sd_X_c (payload a) ! j = [mptX (kept ! j), mptY (kept ! j)]"
      using j len by (simp add: x)
    moreover have "fst (cf_celldist_valid (cells a) ! j) = cellname (kept ! j)"
    proof -
      have "map fst (cf_celldist_valid (cells a)) ! j = map cellname kept ! j" by (simp only: nm)
      then show ?thesis using j len lc by simp
    qed
    moreover have "cf_celldist_valid (cells a) ! j \<in> set (fr_columns frame)"
      using cols j lc nth_mem by (metis subsetD)
    moreover have "\<forall>i<sd_N (payload a).
                   sd_RC (payload a) ! i ! j = snd (cf_celldist_valid (cells a) ! j) ! i"
      using j lc by (simp add: rc to_numpy_nth)
    ultimately show ?thesis by blast
  qed
  have pre: "kept = map (\<lambda>p. ?info ! p) (cf_i_cells_valid (cells a))
             \<and> cf_cell_ids_valid (cells a) = map cellid kept"
    if P: "ids_are_positions ?info"
  proof -
    from assemble_cells[OF assms(1)] obtain frame' where
      cf: "cell_network_filter ?info frame' = Inr (cells a)" by blast
    note pos = cell_filter_by_position[OF cf P]
    have k: "kept = map (\<lambda>p. ?info ! p) (cf_i_cells_valid (cells a))"
      using l loc_rows_positions[OF P pos(1)] by simp
    have ids: "map cellid ?info = map int [0..<length ?info]"
      using P by (simp add: ids_are_positions_def)
    have "map cellid kept = map (\<lambda>p. map cellid ?info ! p) (cf_i_cells_valid (cells a))"
      unfolding k using pos(1) by (simp cong: map_cong)
    also have "\<dots> = map int (cf_i_cells_valid (cells a))"
      unfolding ids using pos(1) by (simp cong: map_cong)
    finally show ?thesis using k pos(2) by simp
  qed
  show ?thesis using l r sub len lx lc col pre by blast
qed

theorem cell_coordinates_follow_columns_witness:
  "snd (assemble scenario_tables 0) = Inr scenario_assembled
   \<and> distinct (map cellname (ci_rows (df_cellinfo scenario_tables)))
   \<and> distinct (map fst (cd_columns (df_celldist scenario_tables)))
   \<and> ids_are_positions (ci_rows (df_cellinfo scenario_tables))
   \<and> sd_NCELL (payload scenario_assembled) = 2
   \<and> (\<exists>kept. loc_rows (ci_rows (df_cellinfo scenario_tables))
                 (map int (cf_i_cells_valid (cells scenario_assembled))) = Inr kept
         \<and> length kept = 2
         \<and> sd_X_c (payload scenario_assembled) ! 1 = [mptX (kept ! 1), mptY (kept ! 1)]
         \<and> fst (cf_celldist_valid (cells scenario_assembled) ! 1) = cellname (kept ! 1)
         \<and> cf_cell_ids_valid (cells scenario_assembled) = map cellid kept)
   \<and> sd_X_c (payload scenario_assembled) ! 1 = [30, 31]
   \<and> fst (cf_celldist_valid (cells scenario_assembled) ! 1) = ''B''"
proof -
  have d: "distinct (map cellname (ci_rows (df_cellinfo scenario_tables)))"
    "distinct (map fst (cd_columns (df_celldist scenario_tables)))"
    by (simp_all add: scenario_tables_def scenario_cellinfo_def scenario_celldist_def)
  have P: "ids_are_positions (ci_rows (df_cellinfo scenario_tables))"
    by (simp add: ids_are_positions_def scenario_tables_def scenario_cellinfo_def upt_conv_Cons)
  have n: "sd_NCELL (payload scenario_assembled) = 2"
    "sd_X_c (payload scenario_assembled) ! 1 = [30, 31]"
    "fst (cf_celldist_valid (cells scenario_assembled) ! 1) = ''B''"
    by (simp_all add: scenario_assembled_def scenario_payload_def scenario_cells_def)
  have one: "(1::nat) < sd_NCELL (payload scenario_assembled)" by (simp add: n)
  from cell_coordinates_follow_columns[OF scenario_assemble d] P one
  have "\<exists>kept. loc_rows (ci_rows (df_cellinfo scenario_tables))
                 (map int (cf_i_cells_valid (cells scenario_assembled))) = Inr kept
         \<and> length kept = sd_NCELL (payload scenario_assembled)
         \<and> sd_X_c (payload scenario_assembled) ! 1 = [mptX (kept ! 1), mptY (kept ! 1)]
         \<and> fst (cf_celldist_valid (cells scenario_assembled) ! 1) = cellname (kept ! 1)
         \<and> cf_cell_ids_valid (cells scenario_assembled) = map cellid kept"
    by blast
  then show ?thesis using scenario_assemble d P n by (simp only:)
qed

section \<open>The example fit, extracted\<close>

lemma fmt_small:
  "fmt_i 0 = ''0''" "fmt_i 1 = ''1''" "fmt_i 2 = ''2''"
  by (simp_all add: fmt_i_def digits.simps)

lemma scenario_names:
  "col_names_all 2 2 [0, 2] = pf_columns scenario_posterior"
  by (simp add: col_names_all_def col_names_hyp_def col_names_range_def col_names_cap_def
      fmt_small scenario_posterior_def upt_conv_Cons)

lemma replicate_eleven: "replicate 11 x = [x, x, x, x, x, x, x, x, x, x, x]"
  by (simp add: eval_nat_numeral)

lemma scenario_hyp:
  "traverse (\<lambda>c_n. map_sum id flatten (fit_getitem scenario_fit c_n)) col_names_hyp
     = Inr ([1, 2, 3] # replicate 11 [0, 0, 0])"
  by (simp add: col_names_hyp_def fit_getitem_def scenario_fit_def replicate_eleven)

lemma scenario_hyp3:
  "traverse (\<lambda>c_n. map_sum id flatten (fit_getitem scenario_fit3 c_n)) col_names_hyp
     = Inr ([1, 2, 3] # replicate 11 [0, 0, 0])"
  by (simp add: col_names_hyp_def fit_getitem_def scenario_fit3_def replicate_eleven)

lemma scenario_extract:
  "posterior_extract 2 scenario_fit 2 2 [0, 2] = Inr scenario_posterior"
  unfolding posterior_extract_def scenario_hyp scenario_names replicate_eleven
  by (simp add: np_stack_axis1_def concatenate_param_def fit_getitem_def normalized_def
      scenario_fit_def data_frame_def scenario_posterior_def upt_conv_Cons)

lemma scenario_extract3:
  "posterior_extract 3 scenario_fit3 2 2 [0, 2] = Inr scenario_posterior"
  unfolding posterior_extract_def scenario_hyp3 scenario_names replicate_eleven
  by (simp add: np_stack_axis1_def concatenate_param_def fit_getitem_def normalized_def
      scenario_fit3_def data_frame_def scenario_posterior_def upt_conv_Cons)

section \<open>What the function does to the caller's tables\<close>




section \<open>Posterior Extractor\<close>

lemma on_success_Inr:
  "(on_success r f = Inr y) = (\<exists>x. r = Inr x \<and> f x = Inr y)"
  by (cases r) (simp_all add: on_success_def)

lemma traverse_Inr:
  "traverse f xs = Inr ys \<Longrightarrow> length ys = length xs \<and> (\<forall>i<length xs. f (xs ! i) = Inr (ys ! i))"
proof (induction xs arbitrary: ys)
  case Nil
  then show ?case by simp
next
  case (Cons x xs)
  from Cons.prems obtain y ys' where y: "f x = Inr y" and t: "traverse f xs = Inr ys'"
    and ys: "ys = y # ys'"
    by (auto split: sum.splits)
  from Cons.IH[OF t] have l: "length ys' = length xs"
    and n: "\<forall>i<length xs. f (xs ! i) = Inr (ys' ! i)" by blast+
  show ?case
  proof (intro conjI allI impI)
    show "length ys = length (x # xs)" using l ys by simp
    fix i assume "i < length (x # xs)"
    then show "f ((x # xs) ! i) = Inr (ys ! i)" using y n ys by (cases i) simp_all
  qed
qed

lemma hyp_traverse:
  assumes "traverse (\<lambda>c_n. map_sum id flatten (fit_getitem fit c_n)) names = Inr hyp"
  shows "hyp = map (hyp_draws fit) names"
proof (rule nth_equalityI)
  note t = traverse_Inr[OF assms]
  show "length hyp = length (map (hyp_draws fit) names)" using t by simp
  fix i assume "i < length hyp"
  then have i: "i < length names" using t by simp
  then have "map_sum id flatten (fit_getitem fit (names ! i)) = Inr (hyp ! i)" using t by blast
  then have "hyp ! i = hyp_draws fit (names ! i)"
    by (auto simp: fit_getitem_def hyp_draws_def split: option.splits)
  then show "hyp ! i = map (hyp_draws fit) names ! i" using i by simp
qed

lemma np_stack_axis1_Inr:
  assumes "np_stack_axis1 arrs = Inr p"
  shows "arrs \<noteq> [] \<and> p = Arr2 (length arrs) (map (\<lambda>d. map (\<lambda>b. b ! d) arrs) [0..<length (hd arrs)])"
  using assms by (auto simp: np_stack_axis1_def split: list.splits if_splits)

lemma concatenate_param_Inr:
  assumes "concatenate_param ver fit (Arr2 c0 r0) name = Inr p"
  shows "\<exists>c. p = Arr2 (c0 + c) (map2 (@) r0 (param_rows ver fit name))
            \<and> length (param_rows ver fit name) = length r0"
proof -
  from assms obtain arr where f: "fit name = Some arr"
    and c: "np_concatenate_axis1 (Arr2 c0 r0) (normalized ver arr) = Inr p"
    by (auto simp: concatenate_param_def fit_getitem_def split: option.splits sum.splits)
  from c obtain c1 r1 where n: "normalized ver arr = Arr2 c1 r1"
    by (cases "normalized ver arr") auto
  have pr: "param_rows ver fit name = r1" by (simp add: param_rows_def f n array_rows_def)
  from c n have "length r0 = length r1" and "p = Arr2 (c0 + c1) (map2 (@) r0 r1)"
    by (auto split: if_splits)
  then show ?thesis using pr by auto
qed

lemma data_frame_Inr:
  "data_frame (Arr2 c rows) names = Inr df \<Longrightarrow> pf_columns df = names \<and> pf_values df = rows \<and> c = length names"
  by (auto simp: data_frame_def split: if_splits)

lemma map2_append_nth:
  "d < length xs \<Longrightarrow> length ys = length xs \<Longrightarrow> map2 (@) xs ys ! d = xs ! d @ ys ! d"
  by simp

text \<open>
  Claim C5. When the extraction succeeds, the columns of the pooled posterior frame are
  named, in this order, by the 12 hyperparameters, \<^verbatim>\<open>dc_1e.k\<close>, \<^verbatim>\<open>dc_1as.k\<close>, \<^verbatim>\<open>dc_1bs.k\<close>,
  \<^verbatim>\<open>c_cap.id\<close> for the valid cells and \<^verbatim>\<open>dB.k\<close>; the frame has one row per draw, and row \<open>d\<close>
  is draw \<open>d\<close> of the hyperparameters followed by row \<open>d\<close> of the arrays of \<^verbatim>\<open>dc_1e\<close>,
  \<^verbatim>\<open>dc_1as\<close>, \<^verbatim>\<open>dc_1bs\<close>, \<^verbatim>\<open>c_cap\<close> and \<^verbatim>\<open>dB\<close>, each read with draws as rows: as the fit
  gives it for version 2, transposed for any other version.
\<close>

theorem posterior_column_order:
  assumes "posterior_extract ver fit neq nsta ids = Inr df"
  shows "pf_columns df
           = col_names_hyp @ map (\<lambda>k. ''dc_1e.'' @ fmt_i (int k)) [0..<neq]
             @ map (\<lambda>k. ''dc_1as.'' @ fmt_i (int k)) [0..<nsta]
             @ map (\<lambda>k. ''dc_1bs.'' @ fmt_i (int k)) [0..<nsta]
             @ map (\<lambda>c_id. ''c_cap.'' @ fmt_i c_id) ids
             @ map (\<lambda>k. ''dB.'' @ fmt_i (int k)) [0..<neq]
       \<and> length (pf_values df) = length (hyp_draws fit ''dc_0'')
       \<and> (\<forall>d<length (pf_values df).
             pf_values df ! d
               = map (\<lambda>name. hyp_draws fit name ! d) col_names_hyp
                 @ param_rows ver fit ''dc_1e'' ! d @ param_rows ver fit ''dc_1as'' ! d
                 @ param_rows ver fit ''dc_1bs'' ! d @ param_rows ver fit ''c_cap'' ! d
                 @ param_rows ver fit ''dB'' ! d)
       \<and> (\<forall>name c rows. fit name = Some (Arr2 c rows) \<longrightarrow>
             (ver = 2 \<longrightarrow> param_rows ver fit name = rows)
           \<and> (ver \<noteq> 2 \<longrightarrow> param_rows ver fit name = map (\<lambda>d. map (\<lambda>r. r ! d) rows) [0..<c]))"
proof -
  from assms obtain hyp p0 p1 p2 p3 p4 p5 where
    h: "traverse (\<lambda>c_n. map_sum id flatten (fit_getitem fit c_n)) col_names_hyp = Inr hyp" and
    s: "np_stack_axis1 hyp = Inr p0" and
    c1: "concatenate_param ver fit p0 ''dc_1e'' = Inr p1" and
    c2: "concatenate_param ver fit p1 ''dc_1as'' = Inr p2" and
    c3: "concatenate_param ver fit p2 ''dc_1bs'' = Inr p3" and
    c4: "concatenate_param ver fit p3 ''c_cap'' = Inr p4" and
    c5: "concatenate_param ver fit p4 ''dB'' = Inr p5" and
    f: "data_frame p5 (col_names_all neq nsta ids) = Inr df"
    unfolding posterior_extract_def by (auto split: sum.splits)
  let ?L = "length (hyp_draws fit ''dc_0'')"
  let ?r0 = "map (\<lambda>d. map (\<lambda>name. hyp_draws fit name ! d) col_names_hyp) [0..<?L]"
  let ?R = "\<lambda>name. param_rows ver fit name"
  have hyp: "hyp = map (hyp_draws fit) col_names_hyp" by (rule hyp_traverse[OF h])
  have hd: "hd hyp = hyp_draws fit ''dc_0''" by (simp add: hyp col_names_hyp_def)
  have p0: "p0 = Arr2 (length hyp) ?r0"
    using np_stack_axis1_Inr[OF s] by (simp add: hd) (simp add: hyp comp_def)
  from concatenate_param_Inr[OF c1[unfolded p0]] obtain k1 where
    p1: "p1 = Arr2 (length hyp + k1) (map2 (@) ?r0 (?R ''dc_1e''))" and l1: "length (?R ''dc_1e'') = ?L"
    by auto
  from concatenate_param_Inr[OF c2[unfolded p1]] obtain k2 where
    p2: "p2 = Arr2 (length hyp + k1 + k2) (map2 (@) (map2 (@) ?r0 (?R ''dc_1e'')) (?R ''dc_1as''))"
    and l2: "length (?R ''dc_1as'') = ?L"
    using l1 by auto
  from concatenate_param_Inr[OF c3[unfolded p2]] obtain k3 where
    p3: "p3 = Arr2 (length hyp + k1 + k2 + k3)
                 (map2 (@) (map2 (@) (map2 (@) ?r0 (?R ''dc_1e'')) (?R ''dc_1as'')) (?R ''dc_1bs''))"
    and l3: "length (?R ''dc_1bs'') = ?L"
    using l1 l2 by auto
  from concatenate_param_Inr[OF c4[unfolded p3]] obtain k4 where
    p4: "p4 = Arr2 (length hyp + k1 + k2 + k3 + k4)
                 (map2 (@) (map2 (@) (map2 (@) (map2 (@) ?r0 (?R ''dc_1e'')) (?R ''dc_1as''))
                    (?R ''dc_1bs'')) (?R ''c_cap''))"
    and l4: "length (?R ''c_cap'') = ?L"
    using l1 l2 l3 by auto
  from concatenate_param_Inr[OF c5[unfolded p4]] obtain k5 where
    p5: "p5 = Arr2 (length hyp + k1 + k2 + k3 + k4 + k5)
                 (map2 (@) (map2 (@) (map2 (@) (map2 (@) (map2 (@) ?r0 (?R ''dc_1e''))
                    (?R ''dc_1as'')) (?R ''dc_1bs'')) (?R ''c_cap'')) (?R ''dB''))"
    and l5: "length (?R ''dB'') = ?L"
    using l1 l2 l3 l4 by auto
  note df = data_frame_Inr[OF f[unfolded p5]]
  have cols: "pf_columns df
           = col_names_hyp @ map (\<lambda>k. ''dc_1e.'' @ fmt_i (int k)) [0..<neq]
             @ map (\<lambda>k. ''dc_1as.'' @ fmt_i (int k)) [0..<nsta]
             @ map (\<lambda>k. ''dc_1bs.'' @ fmt_i (int k)) [0..<nsta]
             @ map (\<lambda>c_id. ''c_cap.'' @ fmt_i c_id) ids
             @ map (\<lambda>k. ''dB.'' @ fmt_i (int k)) [0..<neq]"
    using df by (simp add: col_names_all_def col_names_range_def col_names_cap_def)
  have len: "length (pf_values df) = ?L" using df l1 l2 l3 l4 l5 by simp
  have rows: "\<forall>d<length (pf_values df).
             pf_values df ! d
               = map (\<lambda>name. hyp_draws fit name ! d) col_names_hyp
                 @ ?R ''dc_1e'' ! d @ ?R ''dc_1as'' ! d @ ?R ''dc_1bs'' ! d @ ?R ''c_cap'' ! d
                 @ ?R ''dB'' ! d"
  proof (intro allI impI)
    fix d assume "d < length (pf_values df)"
    then have d: "d < ?L" using len by simp
    show "pf_values df ! d
               = map (\<lambda>name. hyp_draws fit name ! d) col_names_hyp
                 @ ?R ''dc_1e'' ! d @ ?R ''dc_1as'' ! d @ ?R ''dc_1bs'' ! d @ ?R ''c_cap'' ! d
                 @ ?R ''dB'' ! d"
      using df d l1 l2 l3 l4 l5 by simp
  qed
  have norm: "\<forall>name c rows. fit name = Some (Arr2 c rows) \<longrightarrow>
             (ver = 2 \<longrightarrow> param_rows ver fit name = rows)
           \<and> (ver \<noteq> 2 \<longrightarrow> param_rows ver fit name = map (\<lambda>d. map (\<lambda>r. r ! d) rows) [0..<c])"
    by (simp add: param_rows_def normalized_def array_rows_def)
  show ?thesis using cols len rows norm by blast
qed

theorem posterior_column_order_witness:
  "posterior_extract 2 scenario_fit 2 2 [0, 2] = Inr scenario_posterior
   \<and> posterior_extract 3 scenario_fit3 2 2 [0, 2] = Inr scenario_posterior
   \<and> pf_values scenario_posterior ! 1
       = map (\<lambda>name. hyp_draws scenario_fit name ! 1) col_names_hyp
         @ param_rows 2 scenario_fit ''dc_1e'' ! 1 @ param_rows 2 scenario_fit ''dc_1as'' ! 1
         @ param_rows 2 scenario_fit ''dc_1bs'' ! 1 @ param_rows 2 scenario_fit ''c_cap'' ! 1
         @ param_rows 2 scenario_fit ''dB'' ! 1
   \<and> param_rows 2 scenario_fit ''c_cap'' = [[- 1, 0], [- 2, 1], [- 3, 2]]
   \<and> param_rows 3 scenario_fit3 ''c_cap'' = [[- 1, 0], [- 2, 1], [- 3, 2]]"
proof -
  have l: "1 < length (pf_values scenario_posterior)" by (simp add: scenario_posterior_def)
  have "pf_values scenario_posterior ! 1
       = map (\<lambda>name. hyp_draws scenario_fit name ! 1) col_names_hyp
         @ param_rows 2 scenario_fit ''dc_1e'' ! 1 @ param_rows 2 scenario_fit ''dc_1as'' ! 1
         @ param_rows 2 scenario_fit ''dc_1bs'' ! 1 @ param_rows 2 scenario_fit ''c_cap'' ! 1
         @ param_rows 2 scenario_fit ''dB'' ! 1"
    using posterior_column_order[OF scenario_extract] l by blast
  moreover have "param_rows 2 scenario_fit ''c_cap'' = [[- 1, 0], [- 2, 1], [- 3, 2]]"
    by (simp add: param_rows_def scenario_fit_def normalized_def array_rows_def)
  moreover have "param_rows 3 scenario_fit3 ''c_cap'' = [[- 1, 0], [- 2, 1], [- 3, 2]]"
    by (simp add: param_rows_def scenario_fit3_def normalized_def array_rows_def upt_conv_Cons)
  ultimately show ?thesis using scenario_extract scenario_extract3 by blast
qed

section \<open>What a successful run has computed\<close>

text \<open>
  Every step of lines 213-365 either raises or yields the value that the next step reads, so
  the fields of a returned result satisfy the equations of the steps that produced them.
\<close>

lemma RunStan_Inr:
  assumes "snd (RunStan tabs c ver fit) = Inr out"
  shows "\<exists>a. snd (assemble tabs c) = Inr a \<and> postprocess a ver fit = Inr out"
  using assms by (simp add: RunStan_def on_success_Inr)

lemma postprocess_Inr:
  assumes "postprocess a ver fit = Inr out"
  shows "posterior_extract ver fit (n_eq a) (n_sta a) (cf_cell_ids_valid (cells a))
           = Inr (df_stan_posterior_raw out)"
    and "attenuation a (df_stan_posterior_raw out)
           = Inr \<lparr>ca_mu = cells_ca_mu out, ca_med = cells_ca_med out, ca_sig = cells_ca_sig out,
                  LcA_mu = cells_LcA_mu out, LcA_med = cells_LcA_med out,
                  LcA_sig = cells_LcA_sig out\<rparr>"
    and "constant_coeff mean (df_stan_posterior_raw out) (n_data a) = Inr (coeff_0_mu out)"
    and "broadcast mean (df_stan_posterior_raw out) ''dc_1e.'' (n_eq a) (eq_inv a) = Inr (coeff_1e_mu out)"
    and "broadcast mean (df_stan_posterior_raw out) ''dc_1as.'' (n_sta a) (sta_inv a) = Inr (coeff_1as_mu out)"
    and "broadcast mean (df_stan_posterior_raw out) ''dc_1bs.'' (n_sta a) (sta_inv a) = Inr (coeff_1bs_mu out)"
    and "\<exists>s1 s2 s3. vec_op fadd (coeff_0_mu out) (coeff_1e_mu out) = Inr s1
           \<and> vec_op fadd s1 (coeff_1as_mu out) = Inr s2
           \<and> vec_op fadd s2 (coeff_1bs_mu out) = Inr s3
           \<and> vec_op fadd s3 (cells_LcA_mu out) = Inr (y_mu out)"
    and "vec_op sub64 (map round64 (y_data a)) (map float64_of (y_mu out)) = Inr (res_tot out)"
    and "broadcast mean (df_stan_posterior_raw out) ''dB.'' (n_eq a) (eq_inv a) = Inr (res_between out)"
    and "vec_op sub64 (res_tot out) (map float64_of (res_between out)) = Inr (res_within out)"
  using assms unfolding postprocess_def by (auto simp: on_success_Inr)

lemma postprocess_Inr_spread:
  assumes "postprocess a ver fit = Inr out"
  shows "constant_coeff median (df_stan_posterior_raw out) (n_data a) = Inr (coeff_0_med out)"
    and "constant_coeff std (df_stan_posterior_raw out) (n_data a) = Inr (coeff_0_sig out)"
    and "broadcast median (df_stan_posterior_raw out) ''dc_1e.'' (n_eq a) (eq_inv a) = Inr (coeff_1e_med out)"
    and "broadcast std (df_stan_posterior_raw out) ''dc_1e.'' (n_eq a) (eq_inv a) = Inr (coeff_1e_sig out)"
    and "broadcast median (df_stan_posterior_raw out) ''dc_1as.'' (n_sta a) (sta_inv a) = Inr (coeff_1as_med out)"
    and "broadcast std (df_stan_posterior_raw out) ''dc_1as.'' (n_sta a) (sta_inv a) = Inr (coeff_1as_sig out)"
    and "broadcast median (df_stan_posterior_raw out) ''dc_1bs.'' (n_sta a) (sta_inv a) = Inr (coeff_1bs_med out)"
    and "broadcast std (df_stan_posterior_raw out) ''dc_1bs.'' (n_sta a) (sta_inv a) = Inr (coeff_1bs_sig out)"
  using assms unfolding postprocess_def by (auto simp: on_success_Inr)

lemma take_pos_Inr:
  "take_pos g idx = Inr xs \<Longrightarrow> xs = map (\<lambda>k. g ! k) idx \<and> (\<forall>k \<in> set idx. k < length g)"
  by (auto simp: take_pos_def list_all_iff split: if_splits)

lemma group_stat_Inr:
  assumes "group_stat stat df prefix n = Inr g"
  shows "length g = n"
    and "\<forall>k<n. column_stat stat df (prefix @ fmt_i (int k)) = Inr (g ! k)"
  using traverse_Inr[OF assms[unfolded group_stat_def]] by simp_all

lemma broadcast_Inr:
  assumes "broadcast stat df prefix n idx = Inr xs"
  shows "\<exists>g. group_stat stat df prefix n = Inr g \<and> length g = n
           \<and> xs = map (\<lambda>k. g ! k) idx \<and> (\<forall>k \<in> set idx. k < n)"
proof -
  from assms obtain g where g: "group_stat stat df prefix n = Inr g" and t: "take_pos g idx = Inr xs"
    by (auto simp: broadcast_def on_success_Inr)
  show ?thesis using g group_stat_Inr(1)[OF g] take_pos_Inr[OF t] by auto
qed

lemma broadcast_nth:
  assumes "broadcast stat df prefix n idx = Inr xs" and "i < length idx"
  shows "length xs = length idx"
    and "column_stat stat df (prefix @ fmt_i (int (idx ! i))) = Inr (xs ! i)"
proof -
  from broadcast_Inr[OF assms(1)] obtain g where
    g: "group_stat stat df prefix n = Inr g" and xs: "xs = map (\<lambda>k. g ! k) idx"
    and r: "\<forall>k \<in> set idx. k < n" by blast
  show "length xs = length idx" by (simp add: xs)
  have "idx ! i < n" using r assms(2) by simp
  then show "column_stat stat df (prefix @ fmt_i (int (idx ! i))) = Inr (xs ! i)"
    using group_stat_Inr(2)[OF g] assms(2) by (simp add: xs)
qed

lemma constant_coeff_Inr:
  assumes "constant_coeff stat df n = Inr xs"
  shows "\<exists>m. column_stat stat df ''dc_0'' = Inr m \<and> xs = replicate n (fmul m (Some 1))"
  using assms by (auto simp: constant_coeff_def on_success_Inr)

lemma vec_op_same_length:
  assumes "vec_op f xs ys = Inr zs" and "length xs = length ys"
  shows "zs = map2 f xs ys"
  using assms by (simp add: vec_op_def)

lemma map2_nth: "i < length xs \<Longrightarrow> length ys = length xs \<Longrightarrow> map2 f xs ys ! i = f (xs ! i) (ys ! i)"
  by simp

lemma matvec_Inr:
  assumes "matvec ncols A v = Inr w"
  shows "ncols = length v" and "w = map (\<lambda>r. fsum (map2 fmul r v)) A"
  using assms by (auto simp: matvec_def split: if_splits)

lemma attenuation_Inr:
  assumes "attenuation a df = Inr att"
  shows "cell_stat mean df (cf_cell_ids_valid (cells a)) = Inr (ca_mu att)"
    and "cell_stat median df (cf_cell_ids_valid (cells a)) = Inr (ca_med att)"
    and "cell_stat std df (cf_cell_ids_valid (cells a)) = Inr (ca_sig att)"
    and "matvec (cf_n_cell_valid (cells a)) (to_numpy (n_data a) (cf_celldist_valid (cells a)))
           (ca_mu att) = Inr (LcA_mu att)"
    and "matvec (cf_n_cell_valid (cells a)) (to_numpy (n_data a) (cf_celldist_valid (cells a)))
           (ca_med att) = Inr (LcA_med att)"
    and "\<exists>v. matvec (cf_n_cell_valid (cells a))
                (map (map (\<lambda>x. fmul x x)) (to_numpy (n_data a) (cf_celldist_valid (cells a))))
                (map (\<lambda>s. fmul s s) (ca_sig att)) = Inr v \<and> LcA_sig att = map fsqrt v"
  using assms unfolding attenuation_def Let_def by (auto simp: on_success_Inr)

lemma cell_stat_Inr:
  assumes "cell_stat stat df ids = Inr xs"
  shows "length xs = length ids"
    and "\<forall>j<length ids. column_stat stat df (''c_cap.'' @ fmt_i (ids ! j)) = Inr (xs ! j)"
  using traverse_Inr[OF assms[unfolded cell_stat_def]] by simp_all

lemma fsum_Some: "fsum (map Some xs) = Some (sum_list xs)"
  by (induction xs) (simp_all add: fsum_def fadd_def)

lemma map2_fmul_Some: "map2 fmul (map Some xs) (map Some ys) = map Some (map2 (*) xs ys)"
proof (induction xs arbitrary: ys)
  case Nil
  then show ?case by simp
next
  case (Cons x xs)
  then show ?case by (cases ys) (simp_all add: fmul_def)
qed

lemma sum_list_map2_nth:
  "length ys = length xs \<Longrightarrow> sum_list (map2 f xs ys) = (\<Sum>j<length xs. f (xs ! j) (ys ! j))"
proof -
  assume l: "length ys = length xs"
  have "sum_list (map2 f xs ys) = (\<Sum>j = 0..<length (map2 f xs ys). map2 f xs ys ! j)"
    by (rule sum_list_sum_nth)
  also have "\<dots> = (\<Sum>j = 0..<length xs. f (xs ! j) (ys ! j))"
    using l by (intro sum.cong) simp_all
  finally show ?thesis by (simp add: lessThan_atLeast0)
qed

lemma weighted_sum_Some:
  assumes "length ms = length ds"
  shows "fsum (map2 fmul (map Some ds) (map Some ms)) = Some (\<Sum>j<length ds. ds ! j * ms ! j)"
proof -
  have "fsum (map2 fmul (map Some ds) (map Some ms)) = fsum (map Some (map2 (*) ds ms))"
    by (simp only: map2_fmul_Some)
  also have "\<dots> = Some (sum_list (map2 (*) ds ms))" by (rule fsum_Some)
  also have "\<dots> = Some (\<Sum>j<length ds. ds ! j * ms ! j)"
    by (simp only: sum_list_map2_nth[OF assms])
  finally show ?thesis .
qed

lemma squares_Some: "map (\<lambda>x. fmul x x) (map Some xs) = map Some (map (\<lambda>x. x * x) xs)"
  by (simp add: fmul_def)

lemma root_sum_squares_Some:
  assumes "length ss = length ds"
  shows "fsqrt (fsum (map2 fmul (map (\<lambda>x. fmul x x) (map Some ds))
                              (map (\<lambda>s. fmul s s) (map Some ss))))
       = Some (sqrt (\<Sum>j<length ds. (ds ! j)\<^sup>2 * (ss ! j)\<^sup>2))"
proof -
  have l: "length (map (\<lambda>s. s * s) ss) = length (map (\<lambda>x. x * x) ds)" using assms by simp
  have "fsum (map2 fmul (map (\<lambda>x. fmul x x) (map Some ds)) (map (\<lambda>s. fmul s s) (map Some ss)))
      = Some (\<Sum>j<length ds. (ds ! j * ds ! j) * (ss ! j * ss ! j))"
    unfolding squares_Some using weighted_sum_Some[OF l] assms
    by simp
  moreover have "0 \<le> (\<Sum>j<length ds. (ds ! j * ds ! j) * (ss ! j * ss ! j))"
    by (intro sum_nonneg) simp
  ultimately show ?thesis by (simp add: fsqrt_def power2_eq_square)
qed

lemma assemble_RC:
  assumes "snd (assemble tabs c) = Inr a"
  shows "sd_RC (payload a) = to_numpy (n_data a) (cf_celldist_valid (cells a))"
    and "sd_NCELL (payload a) = cf_n_cell_valid (cells a)"
    and "length (sd_RC (payload a)) = n_data a"
proof -
  from assemble_cells[OF assms] obtain frame where
    r: "reindex (df_celldist tabs) (map rsn (ff_rows (df_flatfile tabs))) = Inr frame" and
    rc: "sd_RC (payload a) = to_numpy (length (fr_index frame)) (cf_celldist_valid (cells a))" and
    nc: "sd_NCELL (payload a) = cf_n_cell_valid (cells a)"
    by blast
  have "length (fr_index frame) = n_data a"
    using reindex_index[OF r] assemble_fields(1)[OF assms] by simp
  then show "sd_RC (payload a) = to_numpy (n_data a) (cf_celldist_valid (cells a))"
    using rc by simp
  then show "length (sd_RC (payload a)) = n_data a" by (simp add: to_numpy_def)
  show "sd_NCELL (payload a) = cf_n_cell_valid (cells a)" by (rule nc)
qed

section \<open>The example run, evaluated\<close>

lemma scenario_columns:
  "loc_column scenario_posterior ''dc_0'' = Inr [1, 2, 3]"
  "loc_column scenario_posterior ''dc_1e.0'' = Inr [1, 2, 3]"
  "loc_column scenario_posterior ''dc_1e.1'' = Inr [0, 0, 0]"
  "loc_column scenario_posterior ''dc_1as.0'' = Inr [0, 0, 0]"
  "loc_column scenario_posterior ''dc_1as.1'' = Inr [1, 1, 1]"
  "loc_column scenario_posterior ''dc_1bs.0'' = Inr [0, 0, 0]"
  "loc_column scenario_posterior ''dc_1bs.1'' = Inr [0, 0, 0]"
  "loc_column scenario_posterior ''c_cap.0'' = Inr [- 1, - 2, - 3]"
  "loc_column scenario_posterior ''c_cap.2'' = Inr [0, 1, 2]"
  "loc_column scenario_posterior ''dB.0'' = Inr [1, 1, 1]"
  "loc_column scenario_posterior ''dB.1'' = Inr [2, 3, 4]"
  by (simp_all add: loc_column_def scenario_posterior_def upt_conv_Cons)

lemma scenario_stats:
  "mean [1, 2, 3] = Some 2" "median [1, 2, 3] = Some 2" "std [1, 2, 3] = Some 1"
  "mean [0, 0, 0] = Some 0" "median [0, 0, 0] = Some 0" "std [0, 0, 0] = Some 0"
  "mean [1, 1, 1] = Some 1" "median [1, 1, 1] = Some 1" "std [1, 1, 1] = Some 0"
  "mean [- 1, - 2, - 3] = Some (- 2)" "median [- 1, - 2, - 3] = Some (- 2)"
  "std [- 1, - 2, - 3] = Some 1"
  "mean [0, 1, 2] = Some 1" "median [0, 1, 2] = Some 1" "std [0, 1, 2] = Some 1"
  "mean [2, 3, 4] = Some 3"
  by (simp_all add: mean_def median_def std_def)

lemma scenario_constant:
  "constant_coeff mean scenario_posterior 3 = Inr [Some 2, Some 2, Some 2]"
  "constant_coeff median scenario_posterior 3 = Inr [Some 2, Some 2, Some 2]"
  "constant_coeff std scenario_posterior 3 = Inr [Some 1, Some 1, Some 1]"
  by (simp_all add: constant_coeff_def on_success_def column_stat_def scenario_columns
      scenario_stats fmul_def numeral_3_eq_3)

lemma scenario_broadcast:
  "broadcast mean scenario_posterior ''dc_1e.'' 2 [1, 0, 1] = Inr [Some 0, Some 2, Some 0]"
  "broadcast median scenario_posterior ''dc_1e.'' 2 [1, 0, 1] = Inr [Some 0, Some 2, Some 0]"
  "broadcast std scenario_posterior ''dc_1e.'' 2 [1, 0, 1] = Inr [Some 0, Some 1, Some 0]"
  "broadcast mean scenario_posterior ''dc_1as.'' 2 [1, 1, 0] = Inr [Some 1, Some 1, Some 0]"
  "broadcast median scenario_posterior ''dc_1as.'' 2 [1, 1, 0] = Inr [Some 1, Some 1, Some 0]"
  "broadcast std scenario_posterior ''dc_1as.'' 2 [1, 1, 0] = Inr [Some 0, Some 0, Some 0]"
  "broadcast mean scenario_posterior ''dc_1bs.'' 2 [1, 1, 0] = Inr [Some 0, Some 0, Some 0]"
  "broadcast median scenario_posterior ''dc_1bs.'' 2 [1, 1, 0] = Inr [Some 0, Some 0, Some 0]"
  "broadcast std scenario_posterior ''dc_1bs.'' 2 [1, 1, 0] = Inr [Some 0, Some 0, Some 0]"
  "broadcast mean scenario_posterior ''dB.'' 2 [1, 0, 1] = Inr [Some 3, Some 1, Some 3]"
  by (simp_all add: broadcast_def group_stat_def on_success_def column_stat_def take_pos_def
      fmt_small scenario_columns scenario_stats upt_conv_Cons)

lemma scenario_attenuation:
  "attenuation scenario_assembled scenario_posterior =
     Inr \<lparr>ca_mu = [Some (- 2), Some 1], ca_med = [Some (- 2), Some 1], ca_sig = [Some 1, Some 1],
          LcA_mu = [Some (- 4), Some 4, Some 1], LcA_med = [Some (- 4), Some 4, Some 1],
          LcA_sig = [Some 2, Some 4, Some (sqrt 10)]\<rparr>"
proof -
  have s: "cell_stat mean scenario_posterior [0, 2] = Inr [Some (- 2), Some 1]"
    "cell_stat median scenario_posterior [0, 2] = Inr [Some (- 2), Some 1]"
    "cell_stat std scenario_posterior [0, 2] = Inr [Some 1, Some 1]"
    by (simp_all add: cell_stat_def column_stat_def fmt_small scenario_columns scenario_stats)
  have a: "to_numpy (n_data scenario_assembled) (cf_celldist_valid (cells scenario_assembled))
         = [[Some 2, Some 0], [Some 0, Some 4], [Some 1, Some 3]]"
    "cf_n_cell_valid (cells scenario_assembled) = 2"
    "cf_cell_ids_valid (cells scenario_assembled) = [0, 2]"
    by (simp_all add: scenario_assembled_def scenario_cells_def to_numpy_def upt_conv_Cons)
  show ?thesis
    unfolding attenuation_def a Let_def
    by (simp add: s on_success_def matvec_def fsum_def fmul_def fadd_def fsqrt_def)
qed

lemma scenario_doubles:
  "map round64 [1 / 2, 1 / 4, 1] = [Finite (1 / 2), Finite (1 / 4), Finite 1]"
  "map float64_of [Some (- 1), Some 9, Some 3] = [Finite (- 1), Finite 9, Finite 3]"
  "map float64_of [Some 3, Some 1, Some 3] = [Finite 3, Finite 1, Finite 3]"
  using round64_quarters[of 2] round64_quarters[of 1] round64_quarters[of 4]
    round64_quarters[of "- 4"] round64_quarters[of 36] round64_quarters[of 12]
  by (simp_all add: float64_of_def)

lemma scenario_sums:
  "vec_op fadd [Some 2, Some 2, Some 2] [Some 0, Some 2, Some 0] = Inr [Some 2, Some 4, Some 2]"
  "vec_op fadd [Some 2, Some 4, Some 2] [Some 1, Some 1, Some 0] = Inr [Some 3, Some 5, Some 2]"
  "vec_op fadd [Some 3, Some 5, Some 2] [Some 0, Some 0, Some 0] = Inr [Some 3, Some 5, Some 2]"
  "vec_op fadd [Some 3, Some 5, Some 2] [Some (- 4), Some 4, Some 1] = Inr [Some (- 1), Some 9, Some 3]"
  by (simp_all add: vec_op_def fadd_def)

lemma scenario_residuals:
  "vec_op sub64 [Finite (1 / 2), Finite (1 / 4), Finite 1] [Finite (- 1), Finite 9, Finite 3]
     = Inr [Finite (3 / 2), Finite (- (35 / 4)), Finite (- 2)]"
  "vec_op sub64 [Finite (3 / 2), Finite (- (35 / 4)), Finite (- 2)] [Finite 3, Finite 1, Finite 3]
     = Inr [Finite (- (3 / 2)), Finite (- (39 / 4)), Finite (- 5)]"
  using round64_quarters[of 6] round64_quarters[of "- 35"] round64_quarters[of "- 8"]
    round64_quarters[of "- 6"] round64_quarters[of "- 39"] round64_quarters[of "- 20"]
  by (simp_all add: vec_op_def)

lemma scenario_postprocess: "postprocess scenario_assembled 2 scenario_fit = Inr scenario_results"
proof -
  have a: "n_eq scenario_assembled = 2" "n_sta scenario_assembled = 2"
    "n_data scenario_assembled = 3" "eq_inv scenario_assembled = [1, 0, 1]"
    "sta_inv scenario_assembled = [1, 1, 0]"
    "cf_cell_ids_valid (cells scenario_assembled) = [0, 2]"
    "y_data scenario_assembled = [1 / 2, 1 / 4, 1]"
    by (simp_all add: scenario_assembled_def scenario_cells_def)
  show ?thesis
    unfolding postprocess_def a scenario_extract
    by (simp only: on_success_def sum.case scenario_attenuation scenario_constant
        scenario_broadcast scenario_sums scenario_doubles scenario_residuals
        cell_effects.select_convs scenario_results_def)
qed

lemma scenario_postprocess3: "postprocess scenario_assembled 3 scenario_fit3 = Inr scenario_results"
proof -
  have a: "n_eq scenario_assembled = 2" "n_sta scenario_assembled = 2"
    "n_data scenario_assembled = 3" "eq_inv scenario_assembled = [1, 0, 1]"
    "sta_inv scenario_assembled = [1, 1, 0]"
    "cf_cell_ids_valid (cells scenario_assembled) = [0, 2]"
    "y_data scenario_assembled = [1 / 2, 1 / 4, 1]"
    by (simp_all add: scenario_assembled_def scenario_cells_def)
  show ?thesis
    unfolding postprocess_def a scenario_extract3
    by (simp only: on_success_def sum.case scenario_attenuation scenario_constant
        scenario_broadcast scenario_sums scenario_doubles scenario_residuals
        cell_effects.select_convs scenario_results_def)
qed

lemma scenario_run: "snd (RunStan scenario_tables 0 2 scenario_fit) = Inr scenario_results"
  by (simp add: RunStan_def scenario_assemble on_success_def scenario_postprocess)

lemma scenario_run3: "snd (RunStan scenario_tables 0 3 scenario_fit3) = Inr scenario_results"
  by (simp add: RunStan_def scenario_assemble on_success_def scenario_postprocess3)

section \<open>Anelastic Attenuation Calculator\<close>

text \<open>
  Claim C6. In a run that returns, the arrays of cell statistics have one entry per kept
  cell, the \<open>j\<close>-th being the mean, median and standard deviation of the column \<^verbatim>\<open>c_cap.<id>\<close>
  of the \<open>j\<close>-th kept cell identifier. For every record \<open>i\<close> the mean and the median
  effect are the sums over the kept cells of the path length in the cell times the mean and
  the median cell coefficient, and the effect's standard deviation is the square root of
  the sum of the squared path lengths times the squared cell standard deviations (lines
  271-278). With numbers in place of floats, the three are the sums
  \<open>\<Sum>j. d\<^sub>i\<^sub>j * m\<^sub>j\<close> and \<open>sqrt (\<Sum>j. d\<^sub>i\<^sub>j\<^sup>2 * s\<^sub>j\<^sup>2)\<close>; a NaN among the terms makes the result NaN.
\<close>

theorem attenuation_effect:
  assumes "snd (RunStan tabs c ver fit) = Inr out" and "snd (assemble tabs c) = Inr a"
    and "i < sd_N (payload a)"
  shows "length (cells_ca_mu out) = sd_NCELL (payload a)
       \<and> length (cells_ca_med out) = sd_NCELL (payload a)
       \<and> length (cells_ca_sig out) = sd_NCELL (payload a)
       \<and> (\<forall>j<sd_NCELL (payload a).
             column_stat mean (df_stan_posterior_raw out)
                (''c_cap.'' @ fmt_i (cf_cell_ids_valid (cells a) ! j)) = Inr (cells_ca_mu out ! j)
           \<and> column_stat median (df_stan_posterior_raw out)
                (''c_cap.'' @ fmt_i (cf_cell_ids_valid (cells a) ! j)) = Inr (cells_ca_med out ! j)
           \<and> column_stat std (df_stan_posterior_raw out)
                (''c_cap.'' @ fmt_i (cf_cell_ids_valid (cells a) ! j)) = Inr (cells_ca_sig out ! j))
       \<and> cells_LcA_mu out ! i = fsum (map2 fmul (sd_RC (payload a) ! i) (cells_ca_mu out))
       \<and> cells_LcA_med out ! i = fsum (map2 fmul (sd_RC (payload a) ! i) (cells_ca_med out))
       \<and> cells_LcA_sig out ! i
           = fsqrt (fsum (map2 fmul (map (\<lambda>x. fmul x x) (sd_RC (payload a) ! i))
                                    (map (\<lambda>s. fmul s s) (cells_ca_sig out))))
       \<and> (\<forall>ds. sd_RC (payload a) ! i = map Some ds \<longrightarrow>
             (\<forall>ms. cells_ca_mu out = map Some ms \<longrightarrow>
                cells_LcA_mu out ! i = Some (\<Sum>j<sd_NCELL (payload a). ds ! j * ms ! j))
           \<and> (\<forall>ms. cells_ca_med out = map Some ms \<longrightarrow>
                cells_LcA_med out ! i = Some (\<Sum>j<sd_NCELL (payload a). ds ! j * ms ! j))
           \<and> (\<forall>ss. cells_ca_sig out = map Some ss \<longrightarrow>
                cells_LcA_sig out ! i
                  = Some (sqrt (\<Sum>j<sd_NCELL (payload a). (ds ! j)\<^sup>2 * (ss ! j)\<^sup>2))))"
proof -
  from RunStan_Inr[OF assms(1)] assms(2) have p: "postprocess a ver fit = Inr out" by simp
  let ?df = "df_stan_posterior_raw out"
  let ?RC = "sd_RC (payload a)"
  let ?m = "sd_NCELL (payload a)"
  note rc = assemble_RC[OF assms(2)]
  note att = attenuation_Inr[OF postprocess_Inr(2)[OF p], simplified, folded rc(1) rc(2)]
  from att(6) obtain v where
    v: "matvec ?m (map (map (\<lambda>x. fmul x x)) ?RC) (map (\<lambda>s. fmul s s) (cells_ca_sig out)) = Inr v"
    and sig: "cells_LcA_sig out = map fsqrt v" by blast
  have i: "i < length ?RC" using assms(3) rc(3) assemble_fields(11)[OF assms(2)] by simp
  have lm: "length (cells_ca_mu out) = ?m" using matvec_Inr(1)[OF att(4)] by simp
  have lmed: "length (cells_ca_med out) = ?m" using matvec_Inr(1)[OF att(5)] by simp
  have ls: "length (cells_ca_sig out) = ?m" using matvec_Inr(1)[OF v] by simp
  have ids: "length (cf_cell_ids_valid (cells a)) = ?m"
    using cell_stat_Inr(1)[OF att(1)] lm by simp
  have stats: "\<forall>j<?m.
             column_stat mean ?df (''c_cap.'' @ fmt_i (cf_cell_ids_valid (cells a) ! j))
               = Inr (cells_ca_mu out ! j)
           \<and> column_stat median ?df (''c_cap.'' @ fmt_i (cf_cell_ids_valid (cells a) ! j))
               = Inr (cells_ca_med out ! j)
           \<and> column_stat std ?df (''c_cap.'' @ fmt_i (cf_cell_ids_valid (cells a) ! j))
               = Inr (cells_ca_sig out ! j)"
    using cell_stat_Inr(2)[OF att(1)] cell_stat_Inr(2)[OF att(2)] cell_stat_Inr(2)[OF att(3)] ids
    by simp
  have mu: "cells_LcA_mu out ! i = fsum (map2 fmul (?RC ! i) (cells_ca_mu out))"
    using matvec_Inr(2)[OF att(4)] i by simp
  have med: "cells_LcA_med out ! i = fsum (map2 fmul (?RC ! i) (cells_ca_med out))"
    using matvec_Inr(2)[OF att(5)] i by simp
  have sg: "cells_LcA_sig out ! i
           = fsqrt (fsum (map2 fmul (map (\<lambda>x. fmul x x) (?RC ! i))
                                    (map (\<lambda>s. fmul s s) (cells_ca_sig out))))"
    using matvec_Inr(2)[OF v] i by (simp add: sig)
  have row: "length (?RC ! i) = length (cf_celldist_valid (cells a))"
    using i by (simp add: rc(1) to_numpy_def)
  have ncv: "length (cf_celldist_valid (cells a)) = ?m"
  proof -
    from assemble_cells[OF assms(2)] obtain frame where
      "cell_network_filter (ci_rows (df_cellinfo tabs)) frame = Inr (cells a)" by blast
    then show ?thesis using filter_columns_subset(2) rc(2) by simp
  qed
  have real: "\<forall>ds. ?RC ! i = map Some ds \<longrightarrow>
             (\<forall>ms. cells_ca_mu out = map Some ms \<longrightarrow>
                cells_LcA_mu out ! i = Some (\<Sum>j<?m. ds ! j * ms ! j))
           \<and> (\<forall>ms. cells_ca_med out = map Some ms \<longrightarrow>
                cells_LcA_med out ! i = Some (\<Sum>j<?m. ds ! j * ms ! j))
           \<and> (\<forall>ss. cells_ca_sig out = map Some ss \<longrightarrow>
                cells_LcA_sig out ! i = Some (sqrt (\<Sum>j<?m. (ds ! j)\<^sup>2 * (ss ! j)\<^sup>2)))"
  proof (intro allI impI conjI)
    fix ds ms
    assume d: "?RC ! i = map Some ds" and m: "cells_ca_mu out = map Some ms"
    have ld: "length ds = ?m" using d row ncv by (metis length_map)
    have "length ms = length ds" using m lm ld by (metis length_map)
    then show "cells_LcA_mu out ! i = Some (\<Sum>j<?m. ds ! j * ms ! j)"
      using weighted_sum_Some[of ms ds] ld by (simp add: mu d m)
  next
    fix ds ms
    assume d: "?RC ! i = map Some ds" and m: "cells_ca_med out = map Some ms"
    have ld: "length ds = ?m" using d row ncv by (metis length_map)
    have "length ms = length ds" using m lmed ld by (metis length_map)
    then show "cells_LcA_med out ! i = Some (\<Sum>j<?m. ds ! j * ms ! j)"
      using weighted_sum_Some[of ms ds] ld by (simp add: med d m)
  next
    fix ds ss
    assume d: "?RC ! i = map Some ds" and s: "cells_ca_sig out = map Some ss"
    have ld: "length ds = ?m" using d row ncv by (metis length_map)
    have "length ss = length ds" using s ls ld by (metis length_map)
    then show "cells_LcA_sig out ! i = Some (sqrt (\<Sum>j<?m. (ds ! j)\<^sup>2 * (ss ! j)\<^sup>2))"
      using root_sum_squares_Some[of ss ds] ld by (simp add: sg d s)
  qed
  show ?thesis using lm lmed ls stats mu med sg real by blast
qed

theorem attenuation_effect_witness:
  "snd (RunStan scenario_tables 0 2 scenario_fit) = Inr scenario_results
   \<and> snd (assemble scenario_tables 0) = Inr scenario_assembled
   \<and> (2::nat) < sd_N (payload scenario_assembled)
   \<and> sd_NCELL (payload scenario_assembled) = 2
   \<and> sd_RC (payload scenario_assembled) ! 2 = map Some [1, 3]
   \<and> cells_ca_mu scenario_results = map Some [- 2, 1]
   \<and> cells_ca_sig scenario_results = map Some [1, 1]
   \<and> cells_LcA_mu scenario_results ! 2
       = Some (\<Sum>j<sd_NCELL (payload scenario_assembled). [1, 3] ! j * [- 2, 1] ! j)
   \<and> cells_LcA_mu scenario_results ! 2 = Some 1
   \<and> cells_LcA_sig scenario_results ! 2
       = Some (sqrt (\<Sum>j<sd_NCELL (payload scenario_assembled). ([1, 3] ! j)\<^sup>2 * ([1, 1] ! j)\<^sup>2))
   \<and> cells_LcA_sig scenario_results ! 2 = Some (sqrt 10)"
proof -
  have n: "(2::nat) < sd_N (payload scenario_assembled)"
    and m: "sd_NCELL (payload scenario_assembled) = 2"
    and d: "sd_RC (payload scenario_assembled) ! 2 = map Some [1, 3]"
    by (simp_all add: scenario_assembled_def scenario_payload_def)
  have mu: "cells_ca_mu scenario_results = map Some [- 2, 1]"
    and sg: "cells_ca_sig scenario_results = map Some [1, 1]"
    and v: "cells_LcA_mu scenario_results ! 2 = Some 1"
      "cells_LcA_sig scenario_results ! 2 = Some (sqrt 10)"
    by (simp_all add: scenario_results_def)
  note t = attenuation_effect[OF scenario_run scenario_assemble n]
  have "cells_LcA_mu scenario_results ! 2
       = Some (\<Sum>j<sd_NCELL (payload scenario_assembled). [1, 3] ! j * [- 2, 1] ! j)"
    using t d mu by blast
  moreover have "cells_LcA_sig scenario_results ! 2
       = Some (sqrt (\<Sum>j<sd_NCELL (payload scenario_assembled). ([1, 3] ! j)\<^sup>2 * ([1, 1] ! j)\<^sup>2))"
    using t d sg by blast
  ultimately show ?thesis using scenario_run scenario_assemble n m d mu sg v by blast
qed

section \<open>Residual Decomposer\<close>

text \<open>The two examples of this section, evaluated.\<close>

lemma vec_op3: "vec_op f [a, b, c] [x, y, z] = Inr [f a x, f b y, f c z]"
  by (simp add: vec_op_def)

lemma rounding_assemble: "snd (assemble rounding_tables 0) = Inr rounding_assembled"
proof -
  have k: "map rsn (ff_rows rounding_flatfile) = [10, 11, 12]"
    "map eqid (ff_rows rounding_flatfile) = [7, 3, 7]"
    "map ssn (ff_rows rounding_flatfile) = [4, 4, 2]"
    by (simp_all add: rounding_flatfile_def)
  show ?thesis
    unfolding assemble_def rounding_tables_def
    by (simp add: set_index_keeps reindex_set_index k scenario_unique_eq scenario_unique_sta
        scenario_reindex scenario_filter to_numpy_def Let_def upt_conv_Cons scenario_assembled_def
        scenario_payload_def rounding_assembled_def)
      (simp add: rounding_flatfile_def scenario_cells_def scenario_keys)
qed

lemma rounding_values:
  "round64 (- (2 ^ 40 - 1 + 1 / 2 ^ 13)) = Finite (- (2 ^ 40 - 1 + 1 / 2 ^ 13))"
  "round64 (- (2 ^ 40 - 1 + 1 / 2 ^ 13) - (- 1)) = Finite (- (2 ^ 40 - 2 + 1 / 2 ^ 13))"
  "round64 (- (2 ^ 40 - 2 + 1 / 2 ^ 13) - 3) = Finite (- (2 ^ 40 + 1))"
  "round64 (3 + - (2 ^ 40 + 1)) = Finite (- (2 ^ 40 - 2))"
proof -
  have q: "(2::real) powi (- 13) = 1 / 2 ^ 13" by (simp add: power_int_minus field_simps)
  have "round64 (- (2 ^ 40 - 1 + 1 / 2 ^ 13)) = Finite (- (2 ^ 40 - 1 + 1 / 2 ^ 13))"
    by (rule round64_dyadic[where k = "- (2 ^ 53 - 2 ^ 13 + 1)" and m = "- 13"])
       (simp_all add: q)
  then show "round64 (- (2 ^ 40 - 1 + 1 / 2 ^ 13)) = Finite (- (2 ^ 40 - 1 + 1 / 2 ^ 13))" .
  have "round64 (- (2 ^ 40 - 2 + 1 / 2 ^ 13)) = Finite (- (2 ^ 40 - 2 + 1 / 2 ^ 13))"
    by (rule round64_dyadic[where k = "- (2 ^ 53 - 2 ^ 14 + 1)" and m = "- 13"])
       (simp_all add: q)
  then show "round64 (- (2 ^ 40 - 1 + 1 / 2 ^ 13) - (- 1)) = Finite (- (2 ^ 40 - 2 + 1 / 2 ^ 13))"
    by simp
  have r: "round_nearest (- (2 ^ 40 + 1 + 1 / 2 ^ 13)) = - (2 ^ 40 + 1)"
    by (subst round_nearest_eval[where e = 40])
       (simp_all add: round_even_def power_int_numeral_neg_numeral)
  have "\<bar>round_nearest (- (2 ^ 40 + 1 + 1 / 2 ^ 13))\<bar> < 2 ^ 1024" unfolding r by simp
  then have "round64 (- (2 ^ 40 + 1 + 1 / 2 ^ 13)) = Finite (round_nearest (- (2 ^ 40 + 1 + 1 / 2 ^ 13)))"
    by (rule round64_Finite)
  then have "round64 (- (2 ^ 40 + 1 + 1 / 2 ^ 13)) = Finite (- (2 ^ 40 + 1))" unfolding r .
  then show "round64 (- (2 ^ 40 - 2 + 1 / 2 ^ 13) - 3) = Finite (- (2 ^ 40 + 1))"
    by simp
  have "round64 (of_int (- (4 * (2 ^ 40 - 2))) / 4) = Finite (of_int (- (4 * (2 ^ 40 - 2))) / 4)"
    by (rule round64_quarters) simp
  then show "round64 (3 + - (2 ^ 40 + 1)) = Finite (- (2 ^ 40 - 2))" by simp
qed


lemma rounding_residuals:
  "map round64 [- (2 ^ 40 - 1 + 1 / 2 ^ 13), 1 / 4, 1]
     = [Finite (- (2 ^ 40 - 1 + 1 / 2 ^ 13)), Finite (1 / 4), Finite 1]"
  "vec_op sub64 [Finite (- (2 ^ 40 - 1 + 1 / 2 ^ 13)), Finite (1 / 4), Finite 1]
                [Finite (- 1), Finite 9, Finite 3]
     = Inr [Finite (- (2 ^ 40 - 2 + 1 / 2 ^ 13)), Finite (- (35 / 4)), Finite (- 2)]"
  "vec_op sub64 [Finite (- (2 ^ 40 - 2 + 1 / 2 ^ 13)), Finite (- (35 / 4)), Finite (- 2)]
                [Finite 3, Finite 1, Finite 3]
     = Inr [Finite (- (2 ^ 40 + 1)), Finite (- (39 / 4)), Finite (- 5)]"
proof -
  have a: "round64 (1 / 4) = Finite (1 / 4)" "round64 1 = Finite 1"
    using round64_quarters[of 1] round64_quarters[of 4] by simp_all
  show "map round64 [- (2 ^ 40 - 1 + 1 / 2 ^ 13), 1 / 4, 1]
     = [Finite (- (2 ^ 40 - 1 + 1 / 2 ^ 13)), Finite (1 / 4), Finite 1]"
    by (simp only: list.map rounding_values(1) a)
  have b: "sub64 (Finite (1 / 4)) (Finite 9) = Finite (- (35 / 4))"
    "sub64 (Finite 1) (Finite 3) = Finite (- 2)"
    "sub64 (Finite (- (35 / 4))) (Finite 1) = Finite (- (39 / 4))"
    "sub64 (Finite (- 2)) (Finite 3) = Finite (- 5)"
    using round64_quarters[of "- 35"] round64_quarters[of "- 8"] round64_quarters[of "- 39"]
      round64_quarters[of "- 20"]
    by simp_all
  show "vec_op sub64 [Finite (- (2 ^ 40 - 1 + 1 / 2 ^ 13)), Finite (1 / 4), Finite 1]
                [Finite (- 1), Finite 9, Finite 3]
     = Inr [Finite (- (2 ^ 40 - 2 + 1 / 2 ^ 13)), Finite (- (35 / 4)), Finite (- 2)]"
    by (simp only: vec_op3 sub64.simps(1)[of "- (2 ^ 40 - 1 + 1 / 2 ^ 13)" "- 1"]
        rounding_values(2) b)
  show "vec_op sub64 [Finite (- (2 ^ 40 - 2 + 1 / 2 ^ 13)), Finite (- (35 / 4)), Finite (- 2)]
                [Finite 3, Finite 1, Finite 3]
     = Inr [Finite (- (2 ^ 40 + 1)), Finite (- (39 / 4)), Finite (- 5)]"
    by (simp only: vec_op3 sub64.simps(1)[of "- (2 ^ 40 - 2 + 1 / 2 ^ 13)" 3]
        rounding_values(3) b)
qed

lemma rounding_postprocess: "postprocess rounding_assembled 2 scenario_fit = Inr rounding_results"
proof -
  have a: "n_eq rounding_assembled = 2" "n_sta rounding_assembled = 2"
    "n_data rounding_assembled = 3" "eq_inv rounding_assembled = [1, 0, 1]"
    "sta_inv rounding_assembled = [1, 1, 0]"
    "cf_cell_ids_valid (cells rounding_assembled) = [0, 2]"
    "y_data rounding_assembled = [- (2 ^ 40 - 1 + 1 / 2 ^ 13), 1 / 4, 1]"
    by (simp_all add: rounding_assembled_def scenario_assembled_def scenario_cells_def)
  have att: "attenuation rounding_assembled scenario_posterior
           = attenuation scenario_assembled scenario_posterior"
    by (simp add: attenuation_def rounding_assembled_def)
  have res: "scenario_results\<lparr>res_tot := [Finite (- (2 ^ 40 - 2 + 1 / 2 ^ 13)), Finite (- (35 / 4)),
                                   Finite (- 2)],
       res_within := [Finite (- (2 ^ 40 + 1)), Finite (- (39 / 4)), Finite (- 5)]\<rparr>
     = \<lparr>df_stan_posterior_raw = scenario_posterior,
      cells_ca_mu = [Some (- 2), Some 1], cells_ca_med = [Some (- 2), Some 1],
      cells_ca_sig = [Some 1, Some 1],
      cells_LcA_mu = [Some (- 4), Some 4, Some 1], cells_LcA_med = [Some (- 4), Some 4, Some 1],
      cells_LcA_sig = [Some 2, Some 4, Some (sqrt 10)],
      coeff_0_mu = [Some 2, Some 2, Some 2], coeff_0_med = [Some 2, Some 2, Some 2],
      coeff_0_sig = [Some 1, Some 1, Some 1],
      coeff_1e_mu = [Some 0, Some 2, Some 0], coeff_1e_med = [Some 0, Some 2, Some 0],
      coeff_1e_sig = [Some 0, Some 1, Some 0],
      coeff_1as_mu = [Some 1, Some 1, Some 0], coeff_1as_med = [Some 1, Some 1, Some 0],
      coeff_1as_sig = [Some 0, Some 0, Some 0],
      coeff_1bs_mu = [Some 0, Some 0, Some 0], coeff_1bs_med = [Some 0, Some 0, Some 0],
      coeff_1bs_sig = [Some 0, Some 0, Some 0],
      y_mu = [Some (- 1), Some 9, Some 3],
      res_tot = [Finite (- (2 ^ 40 - 2 + 1 / 2 ^ 13)), Finite (- (35 / 4)), Finite (- 2)],
      res_between = [Some 3, Some 1, Some 3],
      res_within = [Finite (- (2 ^ 40 + 1)), Finite (- (39 / 4)), Finite (- 5)]\<rparr>"
    unfolding scenario_results_def by (simp only: results.update_convs)
  show ?thesis
    unfolding postprocess_def a scenario_extract rounding_results_def res
    by (simp only: on_success_def sum.case att scenario_attenuation scenario_constant
        scenario_broadcast scenario_sums scenario_doubles rounding_residuals
        cell_effects.select_convs)
qed

lemma rounding_run: "snd (RunStan rounding_tables 0 2 scenario_fit) = Inr rounding_results"
  by (simp add: RunStan_def rounding_assemble on_success_def rounding_postprocess)

lemma missing_attenuation:
  "attenuation missing_assembled scenario_posterior =
     Inr \<lparr>ca_mu = [Some (- 2), Some 1], ca_med = [Some (- 2), Some 1], ca_sig = [Some 1, Some 1],
          LcA_mu = [Some (- 4), None, Some 1], LcA_med = [Some (- 4), None, Some 1],
          LcA_sig = [Some 2, None, Some (sqrt 10)]\<rparr>"
proof -
  have s: "cell_stat mean scenario_posterior [0, 2] = Inr [Some (- 2), Some 1]"
    "cell_stat median scenario_posterior [0, 2] = Inr [Some (- 2), Some 1]"
    "cell_stat std scenario_posterior [0, 2] = Inr [Some 1, Some 1]"
    by (simp_all add: cell_stat_def column_stat_def fmt_small scenario_columns scenario_stats)
  have a: "to_numpy (n_data missing_assembled) (cf_celldist_valid (cells missing_assembled))
         = [[Some 2, Some 0], [None, None], [Some 1, Some 3]]"
    "cf_n_cell_valid (cells missing_assembled) = 2"
    "cf_cell_ids_valid (cells missing_assembled) = [0, 2]"
    by (simp_all add: missing_assembled_def scenario_assembled_def missing_cells_def to_numpy_def
        upt_conv_Cons)
  show ?thesis
    unfolding attenuation_def a Let_def
    by (simp add: s on_success_def matvec_def fsum_def fmul_def fadd_def fsqrt_def)
qed

lemma missing_residuals:
  "vec_op fadd [Some 3, Some 5, Some 2] [Some (- 4), None, Some 1] = Inr [Some (- 1), None, Some 3]"
  "map float64_of [Some (- 1), None, Some 3] = [Finite (- 1), NaN, Finite 3]"
  "vec_op sub64 [Finite (1 / 2), Finite (1 / 4), Finite 1] [Finite (- 1), NaN, Finite 3]
     = Inr [Finite (3 / 2), NaN, Finite (- 2)]"
  "vec_op sub64 [Finite (3 / 2), NaN, Finite (- 2)] [Finite 3, Finite 1, Finite 3]
     = Inr [Finite (- (3 / 2)), NaN, Finite (- 5)]"
  using round64_quarters[of "- 4"] round64_quarters[of 12] round64_quarters[of 6]
    round64_quarters[of "- 8"] round64_quarters[of "- 6"] round64_quarters[of "- 20"]
  by (simp_all add: vec_op_def fadd_def float64_of_def)

lemma missing_postprocess: "postprocess missing_assembled 2 scenario_fit = Inr missing_results"
proof -
  have a: "n_eq missing_assembled = 2" "n_sta missing_assembled = 2"
    "n_data missing_assembled = 3" "eq_inv missing_assembled = [1, 0, 1]"
    "sta_inv missing_assembled = [1, 1, 0]"
    "cf_cell_ids_valid (cells missing_assembled) = [0, 2]"
    "y_data missing_assembled = [1 / 2, 1 / 4, 1]"
    by (simp_all add: missing_assembled_def scenario_assembled_def missing_cells_def)
  have res: "missing_results
     = \<lparr>df_stan_posterior_raw = scenario_posterior,
      cells_ca_mu = [Some (- 2), Some 1], cells_ca_med = [Some (- 2), Some 1],
      cells_ca_sig = [Some 1, Some 1],
      cells_LcA_mu = [Some (- 4), None, Some 1], cells_LcA_med = [Some (- 4), None, Some 1],
      cells_LcA_sig = [Some 2, None, Some (sqrt 10)],
      coeff_0_mu = [Some 2, Some 2, Some 2], coeff_0_med = [Some 2, Some 2, Some 2],
      coeff_0_sig = [Some 1, Some 1, Some 1],
      coeff_1e_mu = [Some 0, Some 2, Some 0], coeff_1e_med = [Some 0, Some 2, Some 0],
      coeff_1e_sig = [Some 0, Some 1, Some 0],
      coeff_1as_mu = [Some 1, Some 1, Some 0], coeff_1as_med = [Some 1, Some 1, Some 0],
      coeff_1as_sig = [Some 0, Some 0, Some 0],
      coeff_1bs_mu = [Some 0, Some 0, Some 0], coeff_1bs_med = [Some 0, Some 0, Some 0],
      coeff_1bs_sig = [Some 0, Some 0, Some 0],
      y_mu = [Some (- 1), None, Some 3],
      res_tot = [Finite (3 / 2), NaN, Finite (- 2)],
      res_between = [Some 3, Some 1, Some 3],
      res_within = [Finite (- (3 / 2)), NaN, Finite (- 5)]\<rparr>"
    unfolding missing_results_def scenario_results_def by (simp only: results.update_convs)
  show ?thesis
    unfolding postprocess_def a scenario_extract res
    by (simp only: on_success_def sum.case missing_attenuation scenario_constant
        scenario_broadcast scenario_sums scenario_doubles missing_residuals
        cell_effects.select_convs)
qed

lemma missing_run: "snd (RunStan missing_tables 0 2 scenario_fit) = Inr missing_results"
  by (simp add: RunStan_def missing_assemble on_success_def missing_postprocess)

text \<open>
  Claim C1 says that for every record of every input the total residual is the sum of the
  between-event and the within-event residual. Two runs in which it is not. With the
  observation \<open>-(2\<^sup>4\<^sup>0 - 1 + 2\<^sup>-\<^sup>1\<^sup>3)\<close> for the first record and the mean prediction -1 the total
  residual is \<open>-(2\<^sup>4\<^sup>0 - 2 + 2\<^sup>-\<^sup>1\<^sup>3)\<close>; the subtraction of the between-event residual 3 rounds
  to \<open>-(2\<^sup>4\<^sup>0 + 1)\<close>, and 3 plus that is \<open>-(2\<^sup>4\<^sup>0 - 2)\<close>: the sum misses the total by \<open>2\<^sup>-\<^sup>1\<^sup>3\<close>, which is
  more than \<open>10\<^sup>-\<^sup>9\<close>. With the distance table that has no row for record 11 the mean
  prediction of that record is NaN, and so are its total and its within-event residual;
  NaN is equal to nothing.
\<close>

theorem residuals_differ_counterexample:
  "snd (RunStan rounding_tables 0 2 scenario_fit) = Inr rounding_results
   \<and> res (ff_rows (df_flatfile rounding_tables) ! 0) = - (2 ^ 40 - 1 + 1 / 2 ^ 13)
   \<and> y_mu rounding_results ! 0 = Some (- 1)
   \<and> res_tot rounding_results ! 0 = Finite (- (2 ^ 40 - 2 + 1 / 2 ^ 13))
   \<and> float64_of (res_between rounding_results ! 0) = Finite 3
   \<and> res_within rounding_results ! 0 = Finite (- (2 ^ 40 + 1))
   \<and> add64 (float64_of (res_between rounding_results ! 0)) (res_within rounding_results ! 0)
       = Finite (- (2 ^ 40 - 2))
   \<and> \<not> residual_identity (res_tot rounding_results ! 0)
          (float64_of (res_between rounding_results ! 0)) (res_within rounding_results ! 0)
   \<and> \<bar>- (2 ^ 40 - 2) - (- (2 ^ 40 - 2 + 1 / 2 ^ 13))\<bar> = (1 / 2 ^ 13 :: real)
   \<and> (1 / 10 ^ 9 :: real) < 1 / 2 ^ 13
   \<and> snd (RunStan missing_tables 0 2 scenario_fit) = Inr missing_results
   \<and> res_tot missing_results ! 1 = NaN
   \<and> res_within missing_results ! 1 = NaN
   \<and> \<not> residual_identity (res_tot missing_results ! 1)
          (float64_of (res_between missing_results ! 1)) (res_within missing_results ! 1)"
proof -
  have y: "res (ff_rows (df_flatfile rounding_tables) ! 0) = - (2 ^ 40 - 1 + 1 / 2 ^ 13)"
    by (simp add: rounding_tables_def rounding_flatfile_def)
  have f: "y_mu rounding_results ! 0 = Some (- 1)"
    "res_tot rounding_results ! 0 = Finite (- (2 ^ 40 - 2 + 1 / 2 ^ 13))"
    "res_between rounding_results ! 0 = Some 3"
    "res_within rounding_results ! 0 = Finite (- (2 ^ 40 + 1))"
    by (simp_all add: rounding_results_def scenario_results_def)
  have b: "float64_of (Some 3) = Finite 3"
    using round64_quarters[of 12] by (simp add: float64_of_def)
  have s: "add64 (Finite 3) (Finite (- (2 ^ 40 + 1))) = Finite (- (2 ^ 40 - 2))"
    by (simp only: add64.simps rounding_values(4))
  have ne: "Finite (- (2 ^ 40 - 2 + 1 / 2 ^ 13)) \<noteq> Finite (- (2 ^ 40 - 2))" by simp
  have i: "\<not> residual_identity (Finite (- (2 ^ 40 - 2 + 1 / 2 ^ 13))) (Finite 3)
              (Finite (- (2 ^ 40 + 1)))"
    unfolding residual_identity_def s using ne by (simp only: eq64.simps) simp
  have d: "\<bar>- (2 ^ 40 - 2) - (- (2 ^ 40 - 2 + 1 / 2 ^ 13))\<bar> = (1 / 2 ^ 13 :: real)"
    "(1 / 10 ^ 9 :: real) < 1 / 2 ^ 13"
    by simp_all
  have m: "res_tot missing_results ! 1 = NaN" "res_within missing_results ! 1 = NaN"
    by (simp_all add: missing_results_def)
  have mi: "\<not> residual_identity NaN (float64_of (res_between missing_results ! 1)) NaN"
    by (simp add: residual_identity_def)
  show ?thesis
    using rounding_run missing_run y f(1,2,4) b s i d m mi unfolding f(3) m
    by (simp only: simp_thms)
qed

text \<open>
  Claim C1 as amended. For every record of a run that returns, the total residual is the
  observed value minus the mean prediction (the sum of the constant, the event term, the
  two station terms and the mean attenuation effect), the between-event residual is the mean
  of the \<^verbatim>\<open>dB\<close> column of the record's event, and the within-event residual is the total
  minus the between-event residual, each difference being one subtraction of doubles (lines
  361-365). The sum of the between-event and the within-event residual is the total up to
  the rounding of that subtraction and of the addition: when the four are numbers the sum
  differs from the total by at most \<open>2\<^sup>-\<^sup>5\<^sup>3 (\<bar>within\<bar> + \<bar>sum\<bar>) + 2\<^sup>-\<^sup>1\<^sup>0\<^sup>7\<^sup>4\<close>, and it is the total
  whenever the subtraction was exact. When the total or the between-event residual is NaN,
  the within-event residual is NaN and the identity does not hold.
\<close>

theorem residual_decomposition:
  assumes "snd (RunStan tabs c ver fit) = Inr out" and "snd (assemble tabs c) = Inr a"
    and "i < length (ff_rows (df_flatfile tabs))"
  shows "length (res_tot out) = length (ff_rows (df_flatfile tabs))
       \<and> length (res_between out) = length (ff_rows (df_flatfile tabs))
       \<and> length (res_within out) = length (ff_rows (df_flatfile tabs))
       \<and> y_mu out ! i = fadd (fadd (fadd (fadd (coeff_0_mu out ! i) (coeff_1e_mu out ! i))
                                       (coeff_1as_mu out ! i)) (coeff_1bs_mu out ! i))
                              (cells_LcA_mu out ! i)
       \<and> res_tot out ! i = sub64 (round64 (res (ff_rows (df_flatfile tabs) ! i)))
                                 (float64_of (y_mu out ! i))
       \<and> column_stat mean (df_stan_posterior_raw out) (''dB.'' @ fmt_i (int (eq_inv a ! i)))
           = Inr (res_between out ! i)
       \<and> res_within out ! i = sub64 (res_tot out ! i) (float64_of (res_between out ! i))
       \<and> (\<forall>t b w s. res_tot out ! i = Finite t \<and> float64_of (res_between out ! i) = Finite b
                    \<and> res_within out ! i = Finite w \<and> add64 (Finite b) (Finite w) = Finite s
              \<longrightarrow> \<bar>s - t\<bar> \<le> (\<bar>w\<bar> + \<bar>s\<bar>) * 2 powi (- 53) + 2 powi (- 1074))
       \<and> (\<forall>t b. res_tot out ! i = Finite t \<and> float64_of (res_between out ! i) = Finite b
                    \<and> res_within out ! i = Finite (t - b)
              \<longrightarrow> residual_identity (res_tot out ! i) (float64_of (res_between out ! i))
                    (res_within out ! i))
       \<and> (res_tot out ! i = NaN \<or> float64_of (res_between out ! i) = NaN
              \<longrightarrow> res_within out ! i = NaN
                \<and> \<not> residual_identity (res_tot out ! i) (float64_of (res_between out ! i))
                      (res_within out ! i))"
proof -
  let ?rows = "ff_rows (df_flatfile tabs)"
  let ?df = "df_stan_posterior_raw out"
  let ?t = "res_tot out ! i" and ?b = "float64_of (res_between out ! i)"
    and ?w = "res_within out ! i"
  from RunStan_Inr[OF assms(1)] assms(2) have p: "postprocess a ver fit = Inr out" by simp
  note f = assemble_fields[OF assms(2)]
  note pp = postprocess_Inr[OF p]
  have n: "n_data a = length ?rows" by (rule f(1))
  have le: "length (eq_inv a) = length ?rows" and ls: "length (sta_inv a) = length ?rows"
    by (simp_all add: f np_unique_lengths)
  have ie: "i < length (eq_inv a)" and js: "i < length (sta_inv a)" using assms(3) le ls by simp_all
  from constant_coeff_Inr[OF pp(3)] obtain m0 where
    c0: "coeff_0_mu out = replicate (n_data a) (fmul m0 (Some 1))" by blast
  have l0: "length (coeff_0_mu out) = length ?rows" by (simp add: c0 n)
  have l1: "length (coeff_1e_mu out) = length ?rows" using broadcast_nth(1)[OF pp(4) ie] le by simp
  have l2: "length (coeff_1as_mu out) = length ?rows" using broadcast_nth(1)[OF pp(5) js] ls by simp
  have l3: "length (coeff_1bs_mu out) = length ?rows" using broadcast_nth(1)[OF pp(6) js] ls by simp
  have l4: "length (cells_LcA_mu out) = length ?rows"
    using matvec_Inr(2)[OF attenuation_Inr(4)[OF pp(2)]] by (simp add: to_numpy_def n)
  have lb: "length (res_between out) = length ?rows" using broadcast_nth(1)[OF pp(9) ie] le by simp
  from pp(7) obtain s1 s2 s3 where
    v1: "vec_op fadd (coeff_0_mu out) (coeff_1e_mu out) = Inr s1" and
    v2: "vec_op fadd s1 (coeff_1as_mu out) = Inr s2" and
    v3: "vec_op fadd s2 (coeff_1bs_mu out) = Inr s3" and
    v4: "vec_op fadd s3 (cells_LcA_mu out) = Inr (y_mu out)" by blast
  have s1: "s1 = map2 fadd (coeff_0_mu out) (coeff_1e_mu out)"
    using vec_op_same_length[OF v1] l0 l1 by simp
  have s2: "s2 = map2 fadd s1 (coeff_1as_mu out)"
    using vec_op_same_length[OF v2] l0 l1 l2 by (simp add: s1)
  have s3: "s3 = map2 fadd s2 (coeff_1bs_mu out)"
    using vec_op_same_length[OF v3] l0 l1 l2 l3 by (simp add: s1 s2)
  have ym: "y_mu out = map2 fadd s3 (cells_LcA_mu out)"
    using vec_op_same_length[OF v4] l0 l1 l2 l3 l4 by (simp add: s1 s2 s3)
  have ly: "length (y_mu out) = length ?rows" using l0 l1 l2 l3 l4 by (simp add: ym s1 s2 s3)
  have y: "y_mu out ! i = fadd (fadd (fadd (fadd (coeff_0_mu out ! i) (coeff_1e_mu out ! i))
                                       (coeff_1as_mu out ! i)) (coeff_1bs_mu out ! i))
                              (cells_LcA_mu out ! i)"
    using assms(3) l0 l1 l2 l3 l4 by (simp add: ym s1 s2 s3)
  have rt: "res_tot out = map2 sub64 (map round64 (y_data a)) (map float64_of (y_mu out))"
    using vec_op_same_length[OF pp(8)] ly by (simp add: f(8))
  have lt: "length (res_tot out) = length ?rows" using ly by (simp add: rt f(8))
  have t: "?t = sub64 (round64 (res (?rows ! i))) (float64_of (y_mu out ! i))"
    using assms(3) ly by (simp add: rt f(8))
  have rw: "res_within out = map2 sub64 (res_tot out) (map float64_of (res_between out))"
    using vec_op_same_length[OF pp(10)] lt lb by simp
  have lw: "length (res_within out) = length ?rows" using lt lb by (simp add: rw)
  have w: "?w = sub64 ?t ?b" using assms(3) lt lb by (simp add: rw)
  have b: "column_stat mean ?df (''dB.'' @ fmt_i (int (eq_inv a ! i))) = Inr (res_between out ! i)"
    by (rule broadcast_nth(2)[OF pp(9) ie])
  have bound: "\<forall>t b w s. ?t = Finite t \<and> ?b = Finite b \<and> ?w = Finite w
                    \<and> add64 (Finite b) (Finite w) = Finite s
              \<longrightarrow> \<bar>s - t\<bar> \<le> (\<bar>w\<bar> + \<bar>s\<bar>) * 2 powi (- 53) + 2 powi (- 1074)"
  proof (intro allI impI)
    fix t' b' w' s'
    assume h: "?t = Finite t' \<and> ?b = Finite b' \<and> ?w = Finite w'
                \<and> add64 (Finite b') (Finite w') = Finite s'"
    then have ht: "?t = Finite t'" and hb: "?b = Finite b'" and hw: "?w = Finite w'"
      and hs: "add64 (Finite b') (Finite w') = Finite s'" by blast+
    have "sub64 (Finite t') (Finite b') = Finite w'" using w by (simp only: ht hb hw)
    then show "\<bar>s' - t'\<bar> \<le> (\<bar>w'\<bar> + \<bar>s'\<bar>) * 2 powi (- 53) + 2 powi (- 1074)"
      using hs by (rule sub_add_bound)
  qed
  have exact: "\<forall>t b. ?t = Finite t \<and> ?b = Finite b \<and> ?w = Finite (t - b)
              \<longrightarrow> residual_identity ?t ?b ?w"
  proof (intro allI impI)
    fix t' b'
    assume h: "?t = Finite t' \<and> ?b = Finite b' \<and> ?w = Finite (t' - b')"
    then have ht: "?t = Finite t'" and hb: "?b = Finite b'" and hw: "?w = Finite (t' - b')"
      by blast+
    have a1: "sub64 (round64 (res (?rows ! i))) (float64_of (y_mu out ! i)) = Finite t'"
      using t by (simp only: ht)
    have a2: "sub64 (Finite t') (Finite b') = Finite (t' - b')" using w by (simp only: ht hb hw)
    have "add64 (Finite b') (Finite (t' - b')) = Finite t'" by (rule sub_add_exact[OF a1 a2])
    then show "residual_identity ?t ?b ?w"
      unfolding residual_identity_def ht hb hw by simp
  qed
  have nan: "?t = NaN \<or> ?b = NaN \<longrightarrow> ?w = NaN \<and> \<not> residual_identity ?t ?b ?w"
  proof
    assume "?t = NaN \<or> ?b = NaN"
    then have wn: "?w = NaN" unfolding w by auto
    have "\<not> residual_identity ?t ?b ?w" unfolding residual_identity_def wn
      by (cases ?t) simp_all
    then show "?w = NaN \<and> \<not> residual_identity ?t ?b ?w" using wn by blast
  qed
  show ?thesis using lt lb lw y t b w bound exact nan by (simp only: simp_thms)
qed

theorem residual_decomposition_witness:
  "snd (RunStan scenario_tables 0 2 scenario_fit) = Inr scenario_results
   \<and> snd (assemble scenario_tables 0) = Inr scenario_assembled
   \<and> (1::nat) < length (ff_rows (df_flatfile scenario_tables))
   \<and> res_tot scenario_results ! 1 = Finite (- (35 / 4))
   \<and> float64_of (res_between scenario_results ! 1) = Finite 1
   \<and> res_within scenario_results ! 1 = Finite (- (35 / 4) - 1)
   \<and> residual_identity (res_tot scenario_results ! 1)
        (float64_of (res_between scenario_results ! 1)) (res_within scenario_results ! 1)
   \<and> snd (RunStan missing_tables 0 2 scenario_fit) = Inr missing_results
   \<and> snd (assemble missing_tables 0) = Inr missing_assembled
   \<and> res_tot missing_results ! 1 = NaN
   \<and> res_within missing_results ! 1 = NaN"
proof -
  have n: "(1::nat) < length (ff_rows (df_flatfile scenario_tables))"
    "(1::nat) < length (ff_rows (df_flatfile missing_tables))"
    by (simp_all add: scenario_tables_def missing_tables_def scenario_flatfile_def)
  have v: "res_tot scenario_results ! 1 = Finite (- (35 / 4))"
    "res_within scenario_results ! 1 = Finite (- (35 / 4) - 1)"
    by (simp_all add: scenario_results_def)
  have b: "float64_of (res_between scenario_results ! 1) = Finite 1"
    using round64_quarters[of 4] by (simp add: scenario_results_def float64_of_def)
  have m: "res_tot missing_results ! 1 = NaN" by (simp add: missing_results_def)
  have "residual_identity (res_tot scenario_results ! 1)
        (float64_of (res_between scenario_results ! 1)) (res_within scenario_results ! 1)"
    using residual_decomposition[OF scenario_run scenario_assemble n(1)] v b by blast
  moreover have "res_within missing_results ! 1 = NaN"
    using residual_decomposition[OF missing_run missing_assemble n(2)] m by blast
  ultimately show ?thesis
    using scenario_run scenario_assemble missing_run missing_assemble n(1) v b m
    by (simp only: simp_thms)
qed

section \<open>Broadcast of the group terms\<close>

text \<open>
  Claim C9. The per-record coefficient arrays and the between-event residual of a run that
  returns are determined by the group-level summaries and the two inverse indices: two runs,
  on whatever inputs, whose summaries and inverse indices agree return the same arrays.
  Each array has one entry per record, in the order of the records, entry \<open>i\<close> being the
  summary of the group that the inverse index gives for record \<open>i\<close>.
\<close>

theorem broadcast_pure:
  assumes "snd (RunStan tabs c ver fit) = Inr out" and "snd (assemble tabs c) = Inr a"
    and "snd (RunStan tabs' c' ver' fit') = Inr out'" and "snd (assemble tabs' c') = Inr a'"
    and "term_summaries a (df_stan_posterior_raw out) = term_summaries a' (df_stan_posterior_raw out')"
    and "eq_inv a = eq_inv a'" and "sta_inv a = sta_inv a'"
  shows "record_coefficients out = record_coefficients out'
       \<and> list_all (\<lambda>xs. length xs = n_data a) (record_coefficients out)
       \<and> (\<exists>g. group_stat mean (df_stan_posterior_raw out) ''dc_1e.'' (n_eq a) = Inr g
               \<and> coeff_1e_mu out = map (\<lambda>k. g ! k) (eq_inv a))
       \<and> (\<exists>g. group_stat mean (df_stan_posterior_raw out) ''dc_1as.'' (n_sta a) = Inr g
               \<and> coeff_1as_mu out = map (\<lambda>k. g ! k) (sta_inv a))
       \<and> (\<exists>g. group_stat mean (df_stan_posterior_raw out) ''dc_1bs.'' (n_sta a) = Inr g
               \<and> coeff_1bs_mu out = map (\<lambda>k. g ! k) (sta_inv a))
       \<and> (\<exists>g. group_stat mean (df_stan_posterior_raw out) ''dB.'' (n_eq a) = Inr g
               \<and> res_between out = map (\<lambda>k. g ! k) (eq_inv a))"
proof -
  let ?df = "df_stan_posterior_raw out" and ?df' = "df_stan_posterior_raw out'"
  from RunStan_Inr[OF assms(1)] assms(2) have p: "postprocess a ver fit = Inr out" by simp
  from RunStan_Inr[OF assms(3)] assms(4) have p': "postprocess a' ver' fit' = Inr out'" by simp
  note pp = postprocess_Inr[OF p] and ps = postprocess_Inr_spread[OF p]
  note pp' = postprocess_Inr[OF p'] and ps' = postprocess_Inr_spread[OF p']
  note f = assemble_fields[OF assms(2)] and f' = assemble_fields[OF assms(4)]
  have le: "length (eq_inv a) = n_data a" and ls: "length (sta_inv a) = n_data a"
    by (simp_all add: f np_unique_lengths)
  have le': "length (eq_inv a') = n_data a'" by (simp add: f' np_unique_lengths)
  have n: "n_data a = n_data a'" using le le' assms(6) by simp
  have c: "column_stat mean ?df ''dc_0'' = column_stat mean ?df' ''dc_0''"
    "column_stat median ?df ''dc_0'' = column_stat median ?df' ''dc_0''"
    "column_stat std ?df ''dc_0'' = column_stat std ?df' ''dc_0''"
  proof -
    have inj: "\<And>x y. map_sum id (\<lambda>m. [m]) x = map_sum id (\<lambda>m. [m]) y \<Longrightarrow> x = (y :: py_error + pyfloat)"
    proof -
      fix x y :: "py_error + pyfloat"
      show "map_sum id (\<lambda>m. [m]) x = map_sum id (\<lambda>m. [m]) y \<Longrightarrow> x = y"
        by (cases x; cases y) simp_all
    qed
    show "column_stat mean ?df ''dc_0'' = column_stat mean ?df' ''dc_0''"
      "column_stat median ?df ''dc_0'' = column_stat median ?df' ''dc_0''"
      "column_stat std ?df ''dc_0'' = column_stat std ?df' ''dc_0''"
      using assms(5) by (auto simp: term_summaries_def intro: inj)
  qed
  have g: "group_stat mean ?df ''dc_1e.'' (n_eq a) = group_stat mean ?df' ''dc_1e.'' (n_eq a')"
    "group_stat median ?df ''dc_1e.'' (n_eq a) = group_stat median ?df' ''dc_1e.'' (n_eq a')"
    "group_stat std ?df ''dc_1e.'' (n_eq a) = group_stat std ?df' ''dc_1e.'' (n_eq a')"
    "group_stat mean ?df ''dc_1as.'' (n_sta a) = group_stat mean ?df' ''dc_1as.'' (n_sta a')"
    "group_stat median ?df ''dc_1as.'' (n_sta a) = group_stat median ?df' ''dc_1as.'' (n_sta a')"
    "group_stat std ?df ''dc_1as.'' (n_sta a) = group_stat std ?df' ''dc_1as.'' (n_sta a')"
    "group_stat mean ?df ''dc_1bs.'' (n_sta a) = group_stat mean ?df' ''dc_1bs.'' (n_sta a')"
    "group_stat median ?df ''dc_1bs.'' (n_sta a) = group_stat median ?df' ''dc_1bs.'' (n_sta a')"
    "group_stat std ?df ''dc_1bs.'' (n_sta a) = group_stat std ?df' ''dc_1bs.'' (n_sta a')"
    "group_stat mean ?df ''dB.'' (n_eq a) = group_stat mean ?df' ''dB.'' (n_eq a')"
    using assms(5) by (simp_all add: term_summaries_def)
  have k: "constant_coeff mean ?df (n_data a) = constant_coeff mean ?df' (n_data a')"
    "constant_coeff median ?df (n_data a) = constant_coeff median ?df' (n_data a')"
    "constant_coeff std ?df (n_data a) = constant_coeff std ?df' (n_data a')"
    by (simp_all add: constant_coeff_def c n)
  have b: "\<And>stat. broadcast stat ?df ''dc_1e.'' (n_eq a) (eq_inv a) = on_success (group_stat stat ?df ''dc_1e.'' (n_eq a)) (\<lambda>g. take_pos g (eq_inv a))"
    by (simp add: broadcast_def)
  have eqs: "coeff_0_mu out = coeff_0_mu out'" "coeff_0_med out = coeff_0_med out'"
    "coeff_0_sig out = coeff_0_sig out'"
    "coeff_1e_mu out = coeff_1e_mu out'" "coeff_1e_med out = coeff_1e_med out'"
    "coeff_1e_sig out = coeff_1e_sig out'"
    "coeff_1as_mu out = coeff_1as_mu out'" "coeff_1as_med out = coeff_1as_med out'"
    "coeff_1as_sig out = coeff_1as_sig out'"
    "coeff_1bs_mu out = coeff_1bs_mu out'" "coeff_1bs_med out = coeff_1bs_med out'"
    "coeff_1bs_sig out = coeff_1bs_sig out'"
    "res_between out = res_between out'"
    using pp(3,4,5,6,9) ps pp'(3,4,5,6,9) ps'
    unfolding broadcast_def g k assms(6) assms(7) by simp_all
  have i0: "(0::nat) < n_data a \<or> n_data a = 0" by auto
  have lens: "list_all (\<lambda>xs. length xs = n_data a) (record_coefficients out)"
  proof -
    have bl: "\<And>stat prefix m idx xs. broadcast stat ?df prefix m idx = Inr xs \<Longrightarrow> length xs = length idx"
      using broadcast_Inr by fastforce
    have cl: "\<And>stat xs. constant_coeff stat ?df (n_data a) = Inr xs \<Longrightarrow> length xs = n_data a"
      using constant_coeff_Inr by fastforce
    show ?thesis
      using bl[OF pp(4)] bl[OF pp(5)] bl[OF pp(6)] bl[OF pp(9)] bl[OF ps(3)] bl[OF ps(4)]
        bl[OF ps(5)] bl[OF ps(6)] bl[OF ps(7)] bl[OF ps(8)] cl[OF pp(3)] cl[OF ps(1)] cl[OF ps(2)]
        le ls
      by (simp add: record_coefficients_def)
  qed
  have ex: "\<And>stat prefix m idx xs. broadcast stat ?df prefix m idx = Inr xs \<Longrightarrow>
        \<exists>g. group_stat stat ?df prefix m = Inr g \<and> xs = map (\<lambda>k. g ! k) idx"
    using broadcast_Inr by blast
  show ?thesis
    using eqs lens ex[OF pp(4)] ex[OF pp(5)] ex[OF pp(6)] ex[OF pp(9)]
    by (simp add: record_coefficients_def)
qed

theorem broadcast_pure_witness:
  "snd (RunStan scenario_tables 0 2 scenario_fit) = Inr scenario_results
   \<and> snd (RunStan scenario_tables 0 3 scenario_fit3) = Inr scenario_results
   \<and> snd (assemble scenario_tables 0) = Inr scenario_assembled
   \<and> record_coefficients scenario_results = record_coefficients scenario_results
   \<and> list_all (\<lambda>xs. length xs = n_data scenario_assembled) (record_coefficients scenario_results)
   \<and> coeff_1e_mu scenario_results = [Some 0, Some 2, Some 0]
   \<and> eq_inv scenario_assembled = [1, 0, 1]"
proof -
  have "list_all (\<lambda>xs. length xs = n_data scenario_assembled) (record_coefficients scenario_results)"
    using broadcast_pure[OF scenario_run scenario_assemble scenario_run3 scenario_assemble]
    by blast
  moreover have "coeff_1e_mu scenario_results = [Some 0, Some 2, Some 0]"
    "eq_inv scenario_assembled = [1, 0, 1]"
    by (simp_all add: scenario_results_def scenario_assembled_def)
  ultimately show ?thesis using scenario_run scenario_run3 scenario_assemble by blast
qed

end
